(* ===== verification/Prelude.thy ===== *)
theory Prelude
  imports Main "HOL-Library.Word" "HOL-Library.Multiset" "HOL-Library.AList"
begin

text \<open>
  Shared vocabulary of the development: the machine-integer types of the C code, decimal and
  hexadecimal rendering as the \<open>printf\<close> family does it, C strings, ordered PHP arrays, and
  the generic lemmas on words and lists that the component theories rely on.
\<close>

unbundle bit_operations_syntax

named_theorems machine_simps \<open>projections of the machine state after an engine or system call\<close>
named_theorems outcome_splits \<open>case splits for results of fallible calls\<close>

section \<open>Integer types of the source\<close>

type_synonym u8 = "8 word"
type_synonym u16 = "16 word"
type_synonym u32 = "32 word"
type_synonym u64 = "64 word"
type_synonym u128 = "128 word"

text \<open>A \<open>zend_long\<close> is a 64-bit signed integer; the model keeps its value as an \<open>int\<close>
  and produces it from an unsigned word only by the two's complement reading \<open>sint\<close>.\<close>

type_synonym zend_long = int

definition UINT64_MAX :: u64 where
  "UINT64_MAX = 0xFFFFFFFFFFFFFFFF"

definition ZEND_LONG_MAX :: zend_long where
  "ZEND_LONG_MAX = 0x7FFFFFFFFFFFFFFF"

definition INT_MAX :: int where
  "INT_MAX = 0x7FFFFFFF"

text \<open>Conversion of a signed value to an unsigned 64-bit word, as a C cast does it.\<close>

definition to_u64 :: "int \<Rightarrow> u64" where
  "to_u64 i = word_of_int i"

text \<open>Conversion of a 64-bit value to \<open>int\<close>, as the casts \<open>(int) x\<close> of the code do it
  on the supported compilers (reduction modulo \<open>2 ^ 32\<close>).\<close>

definition to_int32 :: "int \<Rightarrow> int" where
  "to_int32 i = sint (word_of_int i :: 32 word)"

lemma UINT64_MAX_eq: "UINT64_MAX = - 1"
  by (simp add: UINT64_MAX_def)

lemma uint_UINT64_MAX [simp]: "uint UINT64_MAX = 2 ^ 64 - 1"
  by (simp add: UINT64_MAX_def)

lemma unat_UINT64_MAX [simp]: "unat UINT64_MAX = 2 ^ 64 - 1"
  by (simp add: UINT64_MAX_def)

lemma unat_u64_bound: "unat (x :: u64) < 2 ^ 64"
  using unsigned_less [of x] by simp

lemma uint_u64_bound: "uint (x :: u64) < 2 ^ 64"
  using unsigned_less [of x] by simp

text \<open>Unsigned subtraction below the minuend does not wrap.\<close>

lemma unat_sub_no_wrap: "\<not> (a :: 'a :: len word) < b \<Longrightarrow> unat (a - b) = unat a - unat b"
  by (simp add: not_less unat_sub_if_size word_le_nat_alt)

text \<open>The overflow guard \<open>a > UINT64_MAX - b\<close>, used before every unsigned addition.\<close>

lemma add_guard_iff: "UINT64_MAX - b < a \<longleftrightarrow> 2 ^ 64 \<le> unat a + unat b"
proof -
  have "unat (UINT64_MAX - b) = 2 ^ 64 - 1 - unat b"
    using unat_u64_bound [of b] by (simp add: unat_sub_if_size word_le_nat_alt)
  then show ?thesis
    using unat_u64_bound [of b] by (simp add: word_less_nat_alt) arith
qed

lemma unat_add_guarded: "\<not> UINT64_MAX - b < a \<Longrightarrow> unat (a + b) = unat a + unat b"
  by (simp add: add_guard_iff unat_word_ariths)

lemma unat_mult_no_wrap: "unat a * unat b < 2 ^ 64 \<Longrightarrow> unat (a * b) = unat a * unat b" for a b :: u64
  by (simp add: unat_word_ariths)

lemma uint_of_int_64: "0 \<le> i \<Longrightarrow> i < 2 ^ 64 \<Longrightarrow> uint (word_of_int i :: u64) = i"
  by (simp add: uint_word_of_int)

text \<open>A word whose value fits in the positive half reads the same signed and unsigned.\<close>

lemma sint_eq_uint_64: "uint (x :: u64) < 2 ^ 63 \<Longrightarrow> sint x = uint x"
  by (subst sint_uint, rule signed_take_bit_int_eq_self) (simp_all add: order_trans [OF _ unsigned_greater_eq])

lemma to_int32_id: "- (2 ^ 31) \<le> i \<Longrightarrow> i < 2 ^ 31 \<Longrightarrow> to_int32 i = i"
  by (simp add: to_int32_def signed_of_int signed_take_bit_int_eq_self)

section \<open>Text as the printf family renders it\<close>

definition digit :: "nat \<Rightarrow> char" where
  "digit d = char_of (if d < 10 then 48 + d else 87 + d)"

fun show_nat :: "nat \<Rightarrow> string" where
  "show_nat n = (if n < 10 then [digit n] else show_nat (n div 10) @ [digit (n mod 10)])"

declare show_nat.simps [simp del]

definition show_int :: "int \<Rightarrow> string" where
  "show_int i = (if i < 0 then ''-'' @ show_nat (nat (- i)) else show_nat (nat i))"

text \<open>\<open>%016llx\<close>: sixteen hexadecimal digits, most significant first.\<close>

fun hex_digits :: "nat \<Rightarrow> nat \<Rightarrow> string" where
  "hex_digits 0 n = []"
| "hex_digits (Suc k) n = hex_digits k (n div 16) @ [digit (n mod 16)]"

definition show_hex64 :: "u64 \<Rightarrow> string" where
  "show_hex64 w = ''0x'' @ hex_digits 16 (unat w)"

lemma length_hex_digits [simp]: "length (hex_digits k n) = k"
  by (induction k n rule: hex_digits.induct) simp_all

text \<open>A \<open>%s\<close> conversion stops at the first NUL of its argument; a precision limits it
  further unless it is negative.\<close>

definition c_str :: "string \<Rightarrow> string" where
  "c_str s = takeWhile (\<lambda>c. c \<noteq> CHR 0x00) s"

definition c_str_prec :: "int \<Rightarrow> string \<Rightarrow> string" where
  "c_str_prec p s = c_str (if p < 0 then s else take (nat p) s)"

lemma length_c_str_prec: "length (c_str_prec p s) \<le> length s"
  by (auto simp: c_str_prec_def c_str_def intro: order_trans [OF length_takeWhile_le])

section \<open>Lists\<close>

text \<open>Running a short-circuited chain of fallible conversions, the idiom
  \<open>if (!f(a, &v[0]) || !f(b, &v[1]) || ...) return;\<close> of the code: the values in order, or
  nothing once one conversion fails; later conversions are then not run.\<close>

fun convert_chain :: "('m \<Rightarrow> 'a option \<times> 'm) list \<Rightarrow> 'm \<Rightarrow> 'a list option \<times> 'm" where
  "convert_chain [] m = (Some [], m)"
| "convert_chain (f # fs) m =
     (case f m of
        (None, m1) \<Rightarrow> (None, m1)
      | (Some a, m1) \<Rightarrow>
          (case convert_chain fs m1 of
             (None, m2) \<Rightarrow> (None, m2)
           | (Some as, m2) \<Rightarrow> (Some (a # as), m2)))"

text \<open>The idiom \<open>if (FAILURE == f(..)) return FAILURE;\<close>: the rest of a function runs on the result of
  its first part, unless that failed.\<close>

definition or_fail :: "'a option \<times> 'm \<Rightarrow> ('a \<Rightarrow> 'm \<Rightarrow> 'b option \<times> 'm) \<Rightarrow> 'b option \<times> 'm" where
  "or_fail x f = (case x of (None, m) \<Rightarrow> (None, m) | (Some a, m) \<Rightarrow> f a m)"

lemma or_fail_simps [simp]: "or_fail (None, m) f = (None, m)" "or_fail (Some a, m) f = f a m"
  by (simp_all add: or_fail_def)

lemma or_fail_cases:
  assumes "or_fail x f = (r, m')"
  obtains "r = None" "x = (None, m')" | a m where "x = (Some a, m)" "f a m = (r, m')"
  using assms by (auto simp: or_fail_def split: prod.splits option.splits)

section \<open>Totals over the entries of a finite map\<close>

definition total_over :: "('v \<Rightarrow> 'a :: comm_monoid_add) \<Rightarrow> ('k \<rightharpoonup> 'v) \<Rightarrow> 'a" where
  "total_over g f = (\<Sum>k \<in> dom f. g (the (f k)))"

lemma total_over_empty [simp]: "total_over g Map.empty = 0"
  by (simp add: total_over_def)

lemma total_over_insert:
  assumes "finite (dom f)" "f k = None"
  shows "total_over g (f(k \<mapsto> v)) = g v + total_over g f"
proof -
  have "(\<Sum>j \<in> dom f. g (the ((f(k \<mapsto> v)) j))) = total_over g f"
    unfolding total_over_def using assms(2) by (intro sum.cong) auto
  with assms show ?thesis by (simp add: total_over_def domIff)
qed

lemma total_over_remove:
  assumes "finite (dom f)" "f k = Some v"
  shows "total_over g f = g v + total_over g (f(k := None))"
proof -
  have "f = (f(k := None))(k \<mapsto> v)" using assms(2) by auto
  then show ?thesis using assms(1) total_over_insert [of "f(k := None)" k g v] by simp
qed

lemma total_over_replace:
  assumes "finite (dom f)" "f k = Some v" "g v' = g v"
  shows "total_over g (f(k \<mapsto> v')) = total_over g f"
  using total_over_remove [OF assms(1,2), of g] total_over_insert [of "f(k := None)" k g v'] assms by simp

section \<open>Undefined behaviour\<close>

text \<open>The outcome of C code that may touch memory out of bounds or after it was freed.\<close>

datatype 'a cval = Undefined | Ret 'a

text \<open>Running the rest of a function on the outcome of its first part.\<close>

primrec cbind :: "'a cval \<Rightarrow> ('a \<Rightarrow> 'b cval) \<Rightarrow> 'b cval" where
  "cbind Undefined f = Undefined"
| "cbind (Ret a) f = f a"

lemma cbind_Ret_iff: "cbind x f = Ret b \<longleftrightarrow> (\<exists>a. x = Ret a \<and> f a = Ret b)"
  by (cases x) simp_all

lemma cbind_Undefined_iff: "cbind x f = Undefined \<longleftrightarrow> x = Undefined \<or> (\<exists>a. x = Ret a \<and> f a = Undefined)"
  by (cases x) simp_all

lemmas cbind_iffs = cbind_Ret_iff cbind_Undefined_iff

end
