(* ===== verification/Engine.thy ===== *)
theory Engine
  imports Prelude
begin

text \<open>
  The part of the PHP engine the extension relies on, and the helpers of \<open>src/private.h\<close> and
  \<open>php_perfidious.h\<close> built on it: PHP values, the pending exception, warnings, the error mode,
  the deferred error record, and the checked integer conversions.

  An exception thrown while another is pending is linked in front of it, so the pending
  exception and its predecessors are a list, newest first.
\<close>

section \<open>Values, exceptions and the machine state\<close>

datatype php_key = KStr string | KInt int

datatype zval =
    ZUndef
  | ZNull
  | ZBool bool
  | ZLong zend_long
  | ZString string
  | ZArray "(php_key \<times> zval) list"
  | ZEnum string string "string option"
  | ZObject string "(string \<times> zval) list"
  | ZThis
  | ZHandle nat
  | ZStream int

datatype exn_class =
    OverflowException
  | PmuNotFoundException
  | PmuEventNotFoundException
  | IOException
  | ClosedException
  | WrongThreadException
  | ResourceBusyException
  | UnsupportedMetricException
  | DomainException
  | TypeError
  | ValueError
  | ArgumentCountError
  | ArgumentTypeError nat
  | ArgumentValueError nat
  | Error

record exn =
  ex_class :: exn_class
  ex_code :: zend_long
  ex_message :: string
  ex_props :: "(string \<times> zval) list"

datatype perfidious_error_mode = PERFIDIOUS_ERROR_MODE_THROW | PERFIDIOUS_ERROR_MODE_WARNING

text \<open>
  The state every native function runs on. \<open>kernel\<close> is the state of the operating system,
  of a type the development never fixes; \<open>trace\<close> records the system calls made, newest
  first, so that theorems can speak about them.
\<close>

record ('k, 'e) machine =
  kernel :: 'k
  errno :: int
  trace :: "'e list"
  exceptions :: "exn list"
  warnings :: "string list"
  error_mode :: perfidious_error_mode

definition zend_throw_exception ::
  "exn_class \<Rightarrow> zend_long \<Rightarrow> string \<Rightarrow> ('k, 'e, 'z) machine_scheme \<Rightarrow> ('k, 'e, 'z) machine_scheme" where
  "zend_throw_exception c code msg m =
     m\<lparr>exceptions := \<lparr>ex_class = c, ex_code = code, ex_message = msg, ex_props = []\<rparr> # exceptions m\<rparr>"

definition php_warning :: "string \<Rightarrow> ('k, 'e, 'z) machine_scheme \<Rightarrow> ('k, 'e, 'z) machine_scheme" where
  "php_warning msg m = m\<lparr>warnings := msg # warnings m\<rparr>"

lemma zend_throw_exception_simps [simp, machine_simps]:
  "kernel (zend_throw_exception c e s m) = kernel m"
  "errno (zend_throw_exception c e s m) = errno m"
  "trace (zend_throw_exception c e s m) = trace m"
  "warnings (zend_throw_exception c e s m) = warnings m"
  "error_mode (zend_throw_exception c e s m) = error_mode m"
  "exceptions (zend_throw_exception c e s m) =
     \<lparr>ex_class = c, ex_code = e, ex_message = s, ex_props = []\<rparr> # exceptions m"
  "machine.more (zend_throw_exception c e s m) = machine.more m"
  by (simp_all add: zend_throw_exception_def)

lemma php_warning_simps [simp, machine_simps]:
  "kernel (php_warning s m) = kernel m"
  "errno (php_warning s m) = errno m"
  "trace (php_warning s m) = trace m"
  "exceptions (php_warning s m) = exceptions m"
  "warnings (php_warning s m) = s # warnings m"
  "error_mode (php_warning s m) = error_mode m"
  "machine.more (php_warning s m) = machine.more m"
  by (simp_all add: php_warning_def)

section \<open>Error reporting (private.h)\<close>

text \<open>\<open>sizeof(buffer)\<close> and \<open>sizeof(error->message)\<close> are both 512, one byte of which holds the
  terminating NUL.\<close>

definition perfidious_error_helper ::
  "exn_class \<Rightarrow> zend_long \<Rightarrow> string \<Rightarrow> ('k, 'e, 'z) machine_scheme \<Rightarrow> ('k, 'e, 'z) machine_scheme" where
  "perfidious_error_helper exception_ce code formatted m =
     (let buffer = take 511 formatted
      in case error_mode m of
           PERFIDIOUS_ERROR_MODE_WARNING \<Rightarrow> php_warning buffer m
         | PERFIDIOUS_ERROR_MODE_THROW \<Rightarrow> zend_throw_exception exception_ce code buffer m)"

record perfidious_error =
  exception_ce :: "exn_class option"
  code :: zend_long
  message :: string

definition no_error :: perfidious_error where
  "no_error = \<lparr>exception_ce = None, code = 0, message = []\<rparr>"

text \<open>\<open>vsnprintf\<close> returns a negative number when the rendered text is longer than an \<open>int\<close>
  can count; the message is then empty.\<close>

definition perfidious_error_set :: "exn_class \<Rightarrow> zend_long \<Rightarrow> string \<Rightarrow> perfidious_error" where
  "perfidious_error_set ce c formatted =
     \<lparr>exception_ce = Some ce, code = c,
      message = (if INT_MAX < int (length formatted) then [] else take 511 formatted)\<rparr>"

lemma perfidious_error_helper_simps [simp, machine_simps]:
  "kernel (perfidious_error_helper c e s m) = kernel m"
  "errno (perfidious_error_helper c e s m) = errno m"
  "trace (perfidious_error_helper c e s m) = trace m"
  "error_mode (perfidious_error_helper c e s m) = error_mode m"
  "machine.more (perfidious_error_helper c e s m) = machine.more m"
  by (simp_all add: perfidious_error_helper_def Let_def split: perfidious_error_mode.split)

lemma perfidious_error_helper_throw:
  "error_mode m = PERFIDIOUS_ERROR_MODE_THROW \<Longrightarrow>
     perfidious_error_helper c e s m = zend_throw_exception c e (take 511 s) m"
  by (simp add: perfidious_error_helper_def Let_def)

lemma perfidious_error_helper_warning:
  "error_mode m = PERFIDIOUS_ERROR_MODE_WARNING \<Longrightarrow>
     perfidious_error_helper c e s m = php_warning (take 511 s) m"
  by (simp add: perfidious_error_helper_def Let_def)

lemma perfidious_error_set_simps [simp]:
  "exception_ce (perfidious_error_set ce c s) = Some ce"
  "code (perfidious_error_set ce c s) = c"
  by (simp_all add: perfidious_error_set_def)

lemma length_error_message: "length (message (perfidious_error_set ce c s)) \<le> 511"
  by (simp add: perfidious_error_set_def)

section \<open>Calls that report their failures\<close>

text \<open>Exactly one exception was added.\<close>

definition diagnosed :: "('k, 'e, 'z) machine_scheme \<Rightarrow> ('k, 'e, 'z) machine_scheme \<Rightarrow> bool" where
  "diagnosed m m' \<longleftrightarrow> (\<exists>e. exceptions m' = e # exceptions m)"

text \<open>A function with the result \<open>SUCCESS\<close> or \<open>FAILURE\<close> that adds one exception when it fails, none
  when it succeeds, and leaves the native resources as they were.\<close>

definition reports ::
  "(('k, 'e, 'z) machine_scheme \<Rightarrow> 'r) \<Rightarrow> (('k, 'e, 'z) machine_scheme \<Rightarrow> 'a option \<times> ('k, 'e, 'z) machine_scheme)
    \<Rightarrow> bool" where
  "reports resources f \<longleftrightarrow> (\<forall>m r m'. f m = (r, m') \<longrightarrow>
     resources m' = resources m \<and> (if r = None then diagnosed m m' else exceptions m' = exceptions m))"

lemma reportsD:
  "reports resources f \<Longrightarrow> f m = (r, m') \<Longrightarrow>
     resources m' = resources m \<and> (if r = None then diagnosed m m' else exceptions m' = exceptions m)"
  unfolding reports_def by blast

text \<open>The same from a state that differs only in other respects.\<close>

lemma reports_after:
  "reports resources f \<Longrightarrow> f m1 = (r, m') \<Longrightarrow> resources m1 = resources m \<Longrightarrow> exceptions m1 = exceptions m \<Longrightarrow>
     resources m' = resources m \<and> (if r = None then diagnosed m m' else exceptions m' = exceptions m)"
  using reportsD [of resources f m1 r m'] by (simp add: diagnosed_def split: if_splits)

lemma reports_return [simp]: "reports resources (\<lambda>m. (Some a, m))"
  by (simp add: reports_def)

lemma reports_throw:
  "(\<And>m es. resources (m\<lparr>exceptions := es\<rparr>) = resources m) \<Longrightarrow>
     reports resources (\<lambda>m. (None, zend_throw_exception c (n m) (s m) m))"
  by (simp add: reports_def diagnosed_def zend_throw_exception_def)

lemma reports_or_fail:
  assumes f: "reports resources f" and g: "\<And>a. reports resources (g a)"
  shows "reports resources (\<lambda>m. or_fail (f m) g)"
  unfolding reports_def
proof (intro allI impI)
  fix m r m'
  assume "or_fail (f m) g = (r, m')"
  then show "resources m' = resources m \<and> (if r = None then diagnosed m m' else exceptions m' = exceptions m)"
  proof (rule or_fail_cases)
    assume "r = None" "f m = (None, m')"
    then show ?thesis using reportsD [OF f] by auto
  next
    fix a m1
    assume "f m = (Some a, m1)" "g a m1 = (r, m')"
    then show ?thesis using reportsD [OF f] reportsD [OF g] by (fastforce simp: diagnosed_def split: if_splits)
  qed
qed

lemma reports_if:
  "reports resources f \<Longrightarrow> reports resources g \<Longrightarrow> reports resources (\<lambda>m. if b then f m else g m)"
  by (cases b) simp_all

section \<open>Checked conversions (private.h)\<close>

definition perfidious_uint64_t_to_zend_long ::
  "u64 \<Rightarrow> ('k, 'e, 'z) machine_scheme \<Rightarrow> zend_long option \<times> ('k, 'e, 'z) machine_scheme" where
  "perfidious_uint64_t_to_zend_long from m =
     (if to_u64 ZEND_LONG_MAX < from
      then (None, zend_throw_exception OverflowException 0
              (''value too large: '' @ show_nat (unat from) @ '' > '' @ show_int ZEND_LONG_MAX) m)
      else (Some (sint from), m))"

definition PID_MAX :: zend_long where
  "PID_MAX = 2 ^ 31 - 1"

definition PID_MIN :: zend_long where
  "PID_MIN = - PID_MAX - 1"

definition perfidious_zend_long_to_pid_t ::
  "zend_long \<Rightarrow> ('k, 'e, 'z) machine_scheme \<Rightarrow> int option \<times> ('k, 'e, 'z) machine_scheme" where
  "perfidious_zend_long_to_pid_t from m =
     (if PID_MAX < from
      then (None, zend_throw_exception OverflowException 0
              (''pid too large: '' @ show_int from @ '' > '' @ show_int PID_MAX) m)
      else if from < PID_MIN
      then (None, zend_throw_exception OverflowException 0
              (''pid too small: '' @ show_int from @ '' < '' @ show_int PID_MIN) m)
      else (Some (to_int32 from), m))"

text \<open>
  The contract that the four conversions of the code share (\<open>private.h\<close>, \<open>sampler.c\<close>,
  \<open>windows/functions.c\<close>, \<open>darwin/functions.c\<close>): a value that a PHP integer can represent is
  returned unchanged and nothing else happens; any other value raises \<open>OverflowException\<close> and
  nothing is returned.
\<close>

locale checked_to_long =
  fixes conv :: "u64 \<Rightarrow> ('k, 'e, 'z) machine_scheme \<Rightarrow> zend_long option \<times> ('k, 'e, 'z) machine_scheme"
    and overflow_message :: "u64 \<Rightarrow> string"
  assumes fits: "uint v < 2 ^ 63 \<Longrightarrow> conv v m = (Some (uint v), m)"
    and too_large: "2 ^ 63 \<le> uint v \<Longrightarrow>
      conv v m = (None, zend_throw_exception OverflowException 0 (overflow_message v) m)"
begin

lemma conv_Some_iff: "conv v m = (Some r, m') \<longleftrightarrow> uint v < 2 ^ 63 \<and> r = uint v \<and> m' = m"
  by (cases "uint v < 2 ^ 63") (auto simp: fits too_large not_less)

lemma conv_None_iff: "fst (conv v m) = None \<longleftrightarrow> 2 ^ 63 \<le> uint v"
  by (cases "uint v < 2 ^ 63") (auto simp: fits too_large not_less)

lemma conv_range: "conv v m = (Some r, m') \<Longrightarrow> 0 \<le> r \<and> r \<le> ZEND_LONG_MAX"
  by (auto simp: conv_Some_iff ZEND_LONG_MAX_def)

lemma chain_fits:
  "\<forall>v \<in> set vs. uint v < 2 ^ 63 \<Longrightarrow> convert_chain (map conv vs) m = (Some (map uint vs), m)"
  by (induction vs) (simp_all add: fits)

lemma chain_overflows:
  "\<forall>v \<in> set vs. uint v < 2 ^ 63 \<Longrightarrow> 2 ^ 63 \<le> uint w \<Longrightarrow>
     convert_chain (map conv (vs @ w # ws)) m =
       (None, zend_throw_exception OverflowException 0 (overflow_message w) m)"
  by (induction vs) (simp_all add: fits too_large)

end

text \<open>The comparison with \<open>ZEND_LONG_MAX\<close> is unsigned.\<close>

lemma zend_long_max_guard: "to_u64 ZEND_LONG_MAX < v \<longleftrightarrow> 2 ^ 63 \<le> uint v"
  by (simp add: to_u64_def ZEND_LONG_MAX_def word_less_def) arith

interpretation u64_to_long: checked_to_long perfidious_uint64_t_to_zend_long
  "\<lambda>v. ''value too large: '' @ show_nat (unat v) @ '' > '' @ show_int ZEND_LONG_MAX"
  by unfold_locales
    (simp_all add: perfidious_uint64_t_to_zend_long_def zend_long_max_guard sint_eq_uint_64)

end
