(* ===== verification/Counter_Math.thy ===== *)
theory Counter_Math
  imports Engine
begin

text \<open>
  \<open>src/linux/counter_math.h\<close>: scaling a counter by \<open>multiplier / divisor\<close> in 64-bit
  arithmetic. The function has two bodies, chosen at compile time: one computes in 128 bits, the
  other checks the product first. Both are modelled; \<open>None\<close> is the return value \<open>false\<close>.
\<close>

definition perfidious_scale_uint64 :: "u64 \<Rightarrow> u64 \<Rightarrow> u64 \<Rightarrow> u64 option" where
  "perfidious_scale_uint64 value multiplier divisor =
     (let scaled = (ucast value :: u128) * ucast multiplier div ucast divisor
      in if ucast UINT64_MAX < scaled then None else Some (ucast scaled))"

definition perfidious_scale_uint64_portable :: "u64 \<Rightarrow> u64 \<Rightarrow> u64 \<Rightarrow> u64 option" where
  "perfidious_scale_uint64_portable value multiplier divisor =
     (if value \<noteq> 0 \<and> UINT64_MAX div value < multiplier then None
      else Some (value * multiplier div divisor))"

section \<open>The exact body\<close>

lemma uint_ucast_64_128: "uint (ucast (x :: u64) :: u128) = uint x"
  by (rule uint_up_ucast) (simp add: is_up)

lemma unat_ucast_64_128 [simp]: "unat (ucast (x :: u64) :: u128) = unat x"
  by (simp only: unat_eq_nat_uint uint_ucast_64_128)

lemma ucast_128_64: "(ucast (x :: u128) :: u64) = of_nat (unat x)"
  by transfer simp

lemma u64_product_bound: "unat (x :: u64) * unat (y :: u64) < 2 ^ 128"
proof -
  have "unat x * unat y \<le> (2 ^ 64 - 1) * (2 ^ 64 - 1)"
    using unat_u64_bound [of x] unat_u64_bound [of y] by (intro mult_le_mono) simp_all
  then show ?thesis by (rule le_less_trans) simp
qed

lemma unat_scaled_product:
  fixes "value" multiplier divisor :: u64
  shows "unat ((ucast value :: u128) * ucast multiplier div ucast divisor) =
    unat value * unat multiplier div unat divisor"
  using u64_product_bound [of "value" multiplier]
  by (simp add: unat_div unat_word_ariths)

lemma nat_max_less: "(2 ^ 64 - 1 :: nat) < n \<longleftrightarrow> 2 ^ 64 \<le> n"
  by simp arith

lemma scale_exact:
  "perfidious_scale_uint64 value multiplier divisor =
     (let q = unat value * unat multiplier div unat divisor
      in if q < 2 ^ 64 then Some (of_nat q) else None)"
proof -
  let ?s = "(ucast value :: u128) * ucast multiplier div ucast divisor"
  have guard: "ucast UINT64_MAX < ?s \<longleftrightarrow> 2 ^ 64 \<le> unat ?s"
    by (simp only: word_less_nat_alt unat_ucast_64_128 unat_UINT64_MAX nat_max_less)
  show ?thesis
    by (simp only: perfidious_scale_uint64_def Let_def guard ucast_128_64 unat_scaled_product
        not_less [symmetric] if_not_P if_split) auto
qed

text \<open>The portable body refuses exactly the products that do not fit in 64 bits.\<close>

lemma portable_guard:
  "value \<noteq> 0 \<Longrightarrow> UINT64_MAX div value < multiplier \<longleftrightarrow> 2 ^ 64 \<le> unat value * unat multiplier"
proof -
  assume "value \<noteq> 0"
  then have pos: "0 < unat value" by (simp add: unat_gt_0)
  have "UINT64_MAX div value < multiplier \<longleftrightarrow> (2 ^ 64 - 1) div unat value < unat multiplier"
    by (simp only: word_less_nat_alt unat_div unat_UINT64_MAX)
  also have "\<dots> \<longleftrightarrow> 2 ^ 64 - 1 < unat multiplier * unat value"
    by (rule div_less_iff_less_mult [OF pos])
  also have "\<dots> \<longleftrightarrow> 2 ^ 64 \<le> unat value * unat multiplier"
    by (simp only: nat_max_less mult.commute)
  finally show ?thesis .
qed

lemma portable_exact:
  "perfidious_scale_uint64_portable value multiplier divisor =
     (if unat value * unat multiplier < 2 ^ 64
      then Some (of_nat (unat value * unat multiplier div unat divisor)) else None)"
proof (cases "value = 0")
  case True
  then show ?thesis by (simp add: perfidious_scale_uint64_portable_def)
next
  case False
  show ?thesis
  proof (cases "unat value * unat multiplier < 2 ^ 64")
    case True
    then have "unat (value * multiplier) = unat value * unat multiplier"
      by (simp add: unat_word_ariths)
    with True False show ?thesis
      by (simp add: perfidious_scale_uint64_portable_def portable_guard
          word_arith_nat_div [of "value * multiplier"] del: of_nat_mult)
  next
    case False
    with \<open>value \<noteq> 0\<close> show ?thesis
      by (simp add: perfidious_scale_uint64_portable_def portable_guard)
  qed
qed

section \<open>The contract of a scaling routine\<close>

text \<open>What the counter consumers rely on: a returned value is the exact quotient rounded down,
  and a value is returned at least when the product fits.\<close>

locale counter_scaling =
  fixes scale :: "u64 \<Rightarrow> u64 \<Rightarrow> u64 \<Rightarrow> u64 option"
  assumes sound: "d \<noteq> 0 \<Longrightarrow> scale v m d = Some r \<Longrightarrow> unat r = unat v * unat m div unat d"
    and small: "unat v * unat m < 2 ^ 64 \<Longrightarrow> scale v m d \<noteq> None"
begin

lemma zero: "d \<noteq> 0 \<Longrightarrow> scale 0 m d = Some 0"
  using small [of 0 m d] sound [of d 0 m] by (auto simp: unat_eq_0)

lemma unit_ratio: "d \<noteq> 0 \<Longrightarrow> scale v d d = Some r \<Longrightarrow> r = v"
  using sound [of d v d r] by (intro word_unat_eq_iff [THEN iffD2]) (simp add: unat_gt_0)

lemma never_below: "d \<noteq> 0 \<Longrightarrow> d \<le> m \<Longrightarrow> scale v m d = Some r \<Longrightarrow> v \<le> r"
proof -
  assume d: "d \<noteq> 0" and le: "d \<le> m" and s: "scale v m d = Some r"
  have "unat v = unat v * unat d div unat d" using d by (simp add: unat_gt_0)
  also have "\<dots> \<le> unat v * unat m div unat d"
    using le by (intro div_le_mono mult_le_mono) (simp_all add: word_le_nat_alt)
  finally show "v \<le> r" using sound [OF d s] by (simp add: word_le_nat_alt)
qed

lemma bounded_ratio: "d \<noteq> 0 \<Longrightarrow> v \<le> d \<Longrightarrow> scale v m d = Some r \<Longrightarrow> r \<le> m"
proof -
  assume d: "d \<noteq> 0" and le: "v \<le> d" and s: "scale v m d = Some r"
  have "unat v * unat m div unat d \<le> unat d * unat m div unat d"
    using le by (intro div_le_mono mult_le_mono) (simp_all add: word_le_nat_alt)
  then show "r \<le> m" using sound [OF d s] d by (simp add: word_le_nat_alt unat_gt_0)
qed

end

text \<open>A routine that is also complete fails only when the quotient itself does not fit.\<close>

locale exact_counter_scaling = counter_scaling +
  assumes complete: "d \<noteq> 0 \<Longrightarrow> unat v * unat m div unat d < 2 ^ 64 \<Longrightarrow> scale v m d \<noteq> None"
begin

lemma fails_iff: "d \<noteq> 0 \<Longrightarrow> scale v m d = None \<longleftrightarrow> 2 ^ 64 \<le> unat v * unat m div unat d"
proof
  assume d: "d \<noteq> 0" and "scale v m d = None"
  then show "2 ^ 64 \<le> unat v * unat m div unat d" using complete [of d v m] by force
next
  assume d: "d \<noteq> 0" and big: "2 ^ 64 \<le> unat v * unat m div unat d"
  show "scale v m d = None"
  proof (cases "scale v m d")
    case (Some r)
    then show ?thesis using sound [OF d Some] big unat_u64_bound [of r] by simp
  qed
qed

end

lemma unat_of_nat_u64: "n < 2 ^ 64 \<Longrightarrow> unat (of_nat n :: u64) = n"
  by (simp add: unat_of_nat)

interpretation wide: exact_counter_scaling perfidious_scale_uint64
proof unfold_locales
  show "unat r = unat v * unat m div unat d" if "perfidious_scale_uint64 v m d = Some r" for v m d r
    using that by (auto simp: scale_exact Let_def unat_of_nat_u64 split: if_splits)
  show "perfidious_scale_uint64 v m d \<noteq> None" if "unat v * unat m div unat d < 2 ^ 64" for v m d
    using that by (simp add: scale_exact)
  then show "perfidious_scale_uint64 v m d \<noteq> None" if "unat v * unat m < 2 ^ 64" for v m d
    using that div_le_dividend [of "unat v * unat m" "unat d"] by (blast intro: le_less_trans)
qed

interpretation narrow: counter_scaling perfidious_scale_uint64_portable
proof unfold_locales
  show "unat r = unat v * unat m div unat d"
    if "perfidious_scale_uint64_portable v m d = Some r" for v m d r
    using that le_less_trans [OF div_le_dividend [of "unat v * unat m" "unat d"]]
    by (auto simp: portable_exact unat_of_nat_u64 simp del: of_nat_mult split: if_splits)
  show "perfidious_scale_uint64_portable v m d \<noteq> None" if "unat v * unat m < 2 ^ 64" for v m d
    using that by (simp add: portable_exact)
qed

end
