(* ===== verification/Base_Properties.thy ===== *)
theory Base_Properties
  imports Engine Counter_Math
begin

text \<open>
  The properties of the checked conversions and of the error records (\<open>src/private.h\<close>,
  \<open>php_perfidious.h\<close>), and of counter scaling (\<open>src/linux/counter_math.h\<close>).
\<close>

section \<open>Scaling\<close>

text \<open>Scaling a counter with the 128-bit body returns the product divided by
  the divisor, rounded down, exactly when that quotient fits 64 bits, and reports an overflow
  otherwise; the intermediate product never wraps.\<close>

lemma scaling_is_exact:
  assumes "divisor \<noteq> 0"
  shows "perfidious_scale_uint64 val multiplier divisor =
    (let q = unat val * unat multiplier div unat divisor
     in if q < 2 ^ 64 then Some (of_nat q) else None)"
proof (cases "unat val * unat multiplier div unat divisor < 2 ^ 64")
  case True
  then obtain r where r: "perfidious_scale_uint64 val multiplier divisor = Some r"
    using wide.complete [OF assms, of val multiplier] by auto
  have "r = of_nat (unat val * unat multiplier div unat divisor)"
    using wide.sound [OF assms r] by (metis of_nat_unat ucast_id)
  with True r show ?thesis by (simp add: Let_def)
next
  case False
  then have "perfidious_scale_uint64 val multiplier divisor = None"
    using wide.fails_iff [OF assms] by simp
  with False show ?thesis by (simp add: Let_def)
qed

text \<open>C38 (portable_scaling_refines). The portable body returns only values the 128-bit body
  returns, and does return one whenever the product fits 64 bits: where it reports an overflow the
  other does not, the product alone was too large.\<close>

theorem portable_scaling_refines:
  assumes "divisor \<noteq> 0"
  shows "(case perfidious_scale_uint64_portable val multiplier divisor of
      Some r \<Rightarrow> perfidious_scale_uint64 val multiplier divisor = Some r
    | None \<Rightarrow> 2 ^ 64 \<le> unat val * unat multiplier)"
proof (cases "perfidious_scale_uint64_portable val multiplier divisor")
  case None
  then show ?thesis using narrow.small [of val multiplier divisor] by force
next
  case (Some r)
  have s: "unat r = unat val * unat multiplier div unat divisor" by (rule narrow.sound [OF assms Some])
  then have "perfidious_scale_uint64 val multiplier divisor \<noteq> None"
    using unat_u64_bound [of r] by (intro wide.complete [OF assms]) simp
  then obtain r' where r': "perfidious_scale_uint64 val multiplier divisor = Some r'" by auto
  have "r' = r" using wide.sound [OF assms r'] s by (intro word_unat_eq_iff [THEN iffD2]) simp
  with Some r' show ?thesis by simp
qed

theorem portable_scaling_refines_witness:
  "perfidious_scale_uint64 9 100 20 = Some 45"
proof -
  have "perfidious_scale_uint64_portable 9 100 20 = Some 45"
    by (simp add: perfidious_scale_uint64_portable_def UINT64_MAX_def)
  with portable_scaling_refines [of 20 9 100] show ?thesis by simp
qed

section \<open>Conversions and error records\<close>

text \<open>Converting a counter to a PHP integer returns the same
  number and does nothing else when it fits; otherwise it returns nothing and throws exactly one
  \<open>OverflowException\<close>. A negative integer never comes out.\<close>

lemma counter_to_long_is_checked:
  "(if uint v < 2 ^ 63 then perfidious_uint64_t_to_zend_long v m = (Some (uint v), m)
    else \<exists>e. perfidious_uint64_t_to_zend_long v m = (None, m\<lparr>exceptions := e # exceptions m\<rparr>) \<and>
      ex_class e = OverflowException)"
  by (auto simp: u64_to_long.fits u64_to_long.too_large zend_throw_exception_def)

text \<open>A PHP integer converts to a process id unchanged exactly when it
  fits 32 bits signed; otherwise exactly one \<open>OverflowException\<close> is thrown and nothing is
  returned.\<close>

lemma pid_conversion_is_checked:
  "(if - (2 ^ 31) \<le> z \<and> z < 2 ^ 31 then perfidious_zend_long_to_pid_t z m = (Some z, m)
    else \<exists>e. perfidious_zend_long_to_pid_t z m = (None, m\<lparr>exceptions := e # exceptions m\<rparr>) \<and>
      ex_class e = OverflowException)"
  by (auto simp: perfidious_zend_long_to_pid_t_def PID_MAX_def PID_MIN_def zend_throw_exception_def
      to_int32_id)

text \<open>However long the text a message is built from, the message stored
  in an error record and the message reported have at most 511 characters, reporting a stored
  error reports its message unchanged, and an error is reported as exactly one exception or exactly
  one warning according to the error mode.\<close>

lemma error_text_is_bounded:
  "length (message (perfidious_error_set ce c s)) \<le> 511 \<and>
   (case error_mode m of
      PERFIDIOUS_ERROR_MODE_THROW \<Rightarrow>
        \<exists>t. perfidious_error_helper ce c s m = zend_throw_exception ce c t m \<and> length t \<le> 511
    | PERFIDIOUS_ERROR_MODE_WARNING \<Rightarrow>
        \<exists>t. perfidious_error_helper ce c s m = php_warning t m \<and> length t \<le> 511) \<and>
   perfidious_error_helper ce c (message (perfidious_error_set ce c s)) (m\<lparr>error_mode := PERFIDIOUS_ERROR_MODE_THROW\<rparr>)
     = zend_throw_exception ce c (message (perfidious_error_set ce c s)) (m\<lparr>error_mode := PERFIDIOUS_ERROR_MODE_THROW\<rparr>)"
  using length_error_message [of ce c s]
  by (auto simp: perfidious_error_helper_throw perfidious_error_helper_warning
      split: perfidious_error_mode.split)

end
