(* ===== verification/Linux_Os.thy ===== *)
theory Linux_Os
  imports Engine
begin

text \<open>
  The system interface of the Linux build. The kernel, libc and libpfm are not part of the
  repository, so every call is a field of the record \<open>linux_os\<close>, an argument of the definitions
  that use it, over a kernel state of arbitrary type. A call gives its result, the value it leaves
  in \<open>errno\<close> if it touches it, and the new kernel state. The wrappers below run a call on the
  machine and record it in the trace.

  \<open>syscall(2)\<close> and the libc wrappers return -1 on failure and nothing else below zero where they
  return a descriptor, hence \<open>nat option\<close> for those calls; \<open>ioctl\<close> and \<open>close\<close> are only ever
  compared with -1, hence \<open>bool\<close>.
\<close>

section \<open>Constants of the Linux headers\<close>

abbreviation (input) ENOENT :: int where "ENOENT \<equiv> 2"
abbreviation (input) EINTR :: int where "EINTR \<equiv> 4"
abbreviation (input) EIO :: int where "EIO \<equiv> 5"
abbreviation (input) EAGAIN :: int where "EAGAIN \<equiv> 11"
abbreviation (input) ENOMEM :: int where "ENOMEM \<equiv> 12"
abbreviation (input) ENODEV :: int where "ENODEV \<equiv> 19"
abbreviation (input) EINVAL :: int where "EINVAL \<equiv> 22"
abbreviation (input) EOPNOTSUPP :: int where "EOPNOTSUPP \<equiv> 95"

definition PERF_TYPE_HARDWARE :: u32 where "PERF_TYPE_HARDWARE = 0"
definition PERF_TYPE_SOFTWARE :: u32 where "PERF_TYPE_SOFTWARE = 1"
definition PERF_COUNT_HW_CPU_CYCLES :: u64 where "PERF_COUNT_HW_CPU_CYCLES = 0"
definition PERF_COUNT_HW_INSTRUCTIONS :: u64 where "PERF_COUNT_HW_INSTRUCTIONS = 1"
definition PERF_COUNT_SW_TASK_CLOCK :: u64 where "PERF_COUNT_SW_TASK_CLOCK = 1"
definition PERF_COUNT_SW_PAGE_FAULTS :: u64 where "PERF_COUNT_SW_PAGE_FAULTS = 2"
definition PERF_COUNT_SW_CONTEXT_SWITCHES :: u64 where "PERF_COUNT_SW_CONTEXT_SWITCHES = 3"
definition PERF_COUNT_SW_DUMMY :: u64 where "PERF_COUNT_SW_DUMMY = 9"
definition PERF_FORMAT_TOTAL_TIME_ENABLED :: u64 where "PERF_FORMAT_TOTAL_TIME_ENABLED = 1"
definition PERF_FORMAT_TOTAL_TIME_RUNNING :: u64 where "PERF_FORMAT_TOTAL_TIME_RUNNING = 2"
definition PERF_FORMAT_ID :: u64 where "PERF_FORMAT_ID = 4"
definition PERF_FORMAT_GROUP :: u64 where "PERF_FORMAT_GROUP = 8"
definition PERF_IOC_FLAG_GROUP :: int where "PERF_IOC_FLAG_GROUP = 1"
definition PFM_SUCCESS :: int where "PFM_SUCCESS = 0"
definition PFM_ERR_INVAL :: int where "PFM_ERR_INVAL = -2"
definition PFM_ERR_NOTFOUND :: int where "PFM_ERR_NOTFOUND = -4"

datatype ioctl_request =
    PERF_EVENT_IOC_ENABLE
  | PERF_EVENT_IOC_DISABLE
  | PERF_EVENT_IOC_RESET

text \<open>The fields of \<open>struct perf_event_attr\<close> the code sets; \<open>pe_rest\<close> stands for the fields only
  libpfm fills in.\<close>

record perf_event_attr =
  pe_type :: u32
  pe_config :: u64
  pe_disabled :: bool
  pe_watermark :: bool
  pe_exclude_kernel :: bool
  pe_exclude_hv :: bool
  pe_read_format :: u64
  pe_rest :: "u64 list"

section \<open>Calls and their trace\<close>

datatype linux_event =
    EvPerfEventOpen perf_event_attr int int int "nat option"
  | EvIoctl int ioctl_request int bool
  | EvIoctlId int bool
  | EvRead int int int
  | EvClose int bool
  | EvDup int "nat option"
  | EvTmpfile "nat option"

record 'k linux_os =
  os_perf_event_open :: "perf_event_attr \<Rightarrow> int \<Rightarrow> int \<Rightarrow> int \<Rightarrow> 'k \<Rightarrow> nat option \<times> int option \<times> 'k"
  os_ioctl :: "int \<Rightarrow> ioctl_request \<Rightarrow> int \<Rightarrow> 'k \<Rightarrow> bool \<times> int option \<times> 'k"
  os_ioctl_id :: "int \<Rightarrow> 'k \<Rightarrow> u64 option \<times> int option \<times> 'k"
  os_read :: "int \<Rightarrow> int \<Rightarrow> 'k \<Rightarrow> (int \<times> u64 list) \<times> int option \<times> 'k"
  os_close :: "int \<Rightarrow> 'k \<Rightarrow> bool \<times> int option \<times> 'k"
  os_dupfd_cloexec :: "int \<Rightarrow> 'k \<Rightarrow> nat option \<times> int option \<times> 'k"
  os_malloc :: "u64 \<Rightarrow> 'k \<Rightarrow> bool \<times> 'k"
  os_stream_from_fd :: "int \<Rightarrow> 'k \<Rightarrow> bool \<times> 'k"
  os_gettid :: "'k \<Rightarrow> int"
  os_getpid :: "'k \<Rightarrow> int"
  os_hrtime :: "'k \<Rightarrow> u64 \<times> 'k"
  os_strerror :: "int \<Rightarrow> string"
  os_pfm_encoding :: "string \<Rightarrow> int \<times> perf_event_attr"
  os_pfm_strerror :: "int \<Rightarrow> string"
  os_symtable_key :: "string \<Rightarrow> php_key"
  os_pfm_initialize :: int
  os_cap_get_proc :: "'k \<Rightarrow> bool \<times> int option \<times> 'k"
  os_cap_get_flag :: "'k \<Rightarrow> bool option \<times> int option \<times> 'k"
  os_cap_free :: "'k \<Rightarrow> bool \<times> int option \<times> 'k"

type_synonym ('k, 'z) lmachine = "('k, linux_event, 'z) machine_scheme"

text \<open>The state after a call: the kernel's new state, \<open>errno\<close> if the call set it, the call
  in the trace.\<close>

definition called :: "'k \<Rightarrow> int option \<Rightarrow> linux_event \<Rightarrow> ('k, 'z) lmachine \<Rightarrow> ('k, 'z) lmachine" where
  "called k e ev m =
     m\<lparr>kernel := k, errno := (case e of None \<Rightarrow> errno m | Some n \<Rightarrow> n), trace := ev # trace m\<rparr>"

definition fd_of :: "nat option \<Rightarrow> int" where
  "fd_of r = (case r of None \<Rightarrow> -1 | Some fd \<Rightarrow> int fd)"

definition sys_perf_event_open ::
  "'k linux_os \<Rightarrow> perf_event_attr \<Rightarrow> int \<Rightarrow> int \<Rightarrow> int \<Rightarrow> ('k, 'z) lmachine \<Rightarrow> int \<times> ('k, 'z) lmachine" where
  "sys_perf_event_open os attr pid cpu group_fd m =
     (case os_perf_event_open os attr pid cpu group_fd (kernel m) of
        (r, e, k) \<Rightarrow> (fd_of r, called k e (EvPerfEventOpen attr pid cpu group_fd r) m))"

definition sys_ioctl ::
  "'k linux_os \<Rightarrow> int \<Rightarrow> ioctl_request \<Rightarrow> int \<Rightarrow> ('k, 'z) lmachine \<Rightarrow> bool \<times> ('k, 'z) lmachine" where
  "sys_ioctl os fd request flags m =
     (case os_ioctl os fd request flags (kernel m) of
        (ok, e, k) \<Rightarrow> (ok, called k e (EvIoctl fd request flags ok) m))"

definition sys_ioctl_id ::
  "'k linux_os \<Rightarrow> int \<Rightarrow> ('k, 'z) lmachine \<Rightarrow> u64 option \<times> ('k, 'z) lmachine" where
  "sys_ioctl_id os fd m =
     (case os_ioctl_id os fd (kernel m) of
        (r, e, k) \<Rightarrow> (r, called k e (EvIoctlId fd (r \<noteq> None)) m))"

definition sys_read ::
  "'k linux_os \<Rightarrow> int \<Rightarrow> int \<Rightarrow> ('k, 'z) lmachine \<Rightarrow> (int \<times> u64 list) \<times> ('k, 'z) lmachine" where
  "sys_read os fd n m =
     (case os_read os fd n (kernel m) of
        (r, e, k) \<Rightarrow> (r, called k e (EvRead fd n (fst r)) m))"

definition sys_close :: "'k linux_os \<Rightarrow> int \<Rightarrow> ('k, 'z) lmachine \<Rightarrow> bool \<times> ('k, 'z) lmachine" where
  "sys_close os fd m =
     (case os_close os fd (kernel m) of (ok, e, k) \<Rightarrow> (ok, called k e (EvClose fd ok) m))"

definition sys_dupfd_cloexec ::
  "'k linux_os \<Rightarrow> int \<Rightarrow> ('k, 'z) lmachine \<Rightarrow> int \<times> ('k, 'z) lmachine" where
  "sys_dupfd_cloexec os fd m =
     (case os_dupfd_cloexec os fd (kernel m) of
        (r, e, k) \<Rightarrow> (fd_of r, called k e (EvDup fd r) m))"

definition sys_malloc :: "'k linux_os \<Rightarrow> u64 \<Rightarrow> ('k, 'z) lmachine \<Rightarrow> bool \<times> ('k, 'z) lmachine" where
  "sys_malloc os n m = (case os_malloc os n (kernel m) of (ok, k) \<Rightarrow> (ok, m\<lparr>kernel := k\<rparr>))"

text \<open>A library call that opens and closes nothing: libcap's \<open>cap_get_proc\<close> (whether a capability
  state came back), \<open>cap_get_flag\<close> for \<open>CAP_PERFMON\<close> (the flag, or nothing on failure) and
  \<open>cap_free\<close>.\<close>

definition lib_call ::
  "('k \<Rightarrow> 'r \<times> int option \<times> 'k) \<Rightarrow> ('k, 'z) lmachine \<Rightarrow> 'r \<times> ('k, 'z) lmachine" where
  "lib_call f m =
     (case f (kernel m) of
        (r, e, k) \<Rightarrow> (r, m\<lparr>kernel := k, errno := (case e of None \<Rightarrow> errno m | Some n \<Rightarrow> n)\<rparr>))"

text \<open>\<open>errno != 0 ? errno : EIO\<close>, the code's reading of a failed call.\<close>

definition errno_or_eio :: "('k, 'z) lmachine \<Rightarrow> int" where
  "errno_or_eio m = (if errno m \<noteq> 0 then errno m else EIO)"

lemma errno_or_eio_nonzero [simp]: "errno_or_eio m \<noteq> 0"
  by (simp add: errno_or_eio_def)

section \<open>Descriptors that are open after a trace\<close>

text \<open>A descriptor number can be handed out again once closed, so what is open is a multiset.
  On Linux \<open>close\<close> releases the descriptor whatever it returns.\<close>

fun live :: "linux_event list \<Rightarrow> int multiset" where
  "live [] = {#}"
| "live (EvPerfEventOpen a p c g (Some fd) # t) = add_mset (int fd) (live t)"
| "live (EvDup d (Some fd) # t) = add_mset (int fd) (live t)"
| "live (EvTmpfile (Some fd) # t) = add_mset (int fd) (live t)"
| "live (EvClose fd ok # t) = live t - {#fd#}"
| "live (ev # t) = live t"

text \<open>No call closed a descriptor that was not open at that point.\<close>

fun closes_live :: "linux_event list \<Rightarrow> bool" where
  "closes_live [] = True"
| "closes_live (EvClose fd ok # t) = (fd \<in># live t \<and> closes_live t)"
| "closes_live (ev # t) = closes_live t"

lemma called_simps [simp, machine_simps]:
  "kernel (called k e ev m) = k"
  "errno (called k e ev m) = (case e of None \<Rightarrow> errno m | Some n \<Rightarrow> n)"
  "trace (called k e ev m) = ev # trace m"
  "exceptions (called k e ev m) = exceptions m"
  "warnings (called k e ev m) = warnings m"
  "error_mode (called k e ev m) = error_mode m"
  "machine.more (called k e ev m) = machine.more m"
  by (simp_all add: called_def)

text \<open>What a call keeps of the PHP side of the machine, whatever it does.\<close>

definition same_php :: "('k, 'z) lmachine \<Rightarrow> ('k, 'z) lmachine \<Rightarrow> bool" where
  "same_php m m' \<longleftrightarrow> exceptions m' = exceptions m \<and> warnings m' = warnings m \<and>
     error_mode m' = error_mode m \<and> machine.more m' = machine.more m"

lemma same_php_refl [simp, intro]: "same_php m m"
  by (simp add: same_php_def)

lemma same_php_trans [trans]: "same_php a b \<Longrightarrow> same_php b c \<Longrightarrow> same_php a c"
  by (simp add: same_php_def)

lemma same_php_called [simp]: "same_php m (called k e ev m)"
  by (simp add: same_php_def)

lemma same_php_kernel [simp]: "same_php m (m\<lparr>kernel := k\<rparr>)"
  by (simp add: same_php_def)

lemma fd_of_simps [simp]:
  "fd_of None = -1"
  "fd_of (Some fd) = int fd"
  "fd_of r = -1 \<longleftrightarrow> r = None"
  "fd_of r < 0 \<longleftrightarrow> r = None"
  "0 \<le> fd_of r \<longleftrightarrow> r \<noteq> None"
  by (cases r; simp add: fd_of_def)+

lemma sys_perf_event_open_trace:
  "sys_perf_event_open os attr pid cpu g m = (r, m') \<Longrightarrow>
     \<exists>x. r = fd_of x \<and> trace m' = EvPerfEventOpen attr pid cpu g x # trace m \<and> same_php m m'"
  by (auto simp: sys_perf_event_open_def split: prod.splits)

lemma sys_ioctl_trace:
  "sys_ioctl os fd r f m = (ok, m') \<Longrightarrow> trace m' = EvIoctl fd r f ok # trace m \<and> same_php m m'"
  by (auto simp: sys_ioctl_def split: prod.splits)

lemma sys_ioctl_id_trace:
  "sys_ioctl_id os fd m = (r, m') \<Longrightarrow> trace m' = EvIoctlId fd (r \<noteq> None) # trace m \<and> same_php m m'"
  by (auto simp: sys_ioctl_id_def split: prod.splits)

lemma sys_read_trace:
  "sys_read os fd n m = (r, m') \<Longrightarrow> trace m' = EvRead fd n (fst r) # trace m \<and> same_php m m'"
  by (auto simp: sys_read_def split: prod.splits)

lemma sys_close_trace:
  "sys_close os fd m = (ok, m') \<Longrightarrow> trace m' = EvClose fd ok # trace m \<and> same_php m m'"
  by (auto simp: sys_close_def split: prod.splits)

lemma sys_dupfd_cloexec_trace:
  "sys_dupfd_cloexec os fd m = (r, m') \<Longrightarrow>
     \<exists>x. r = fd_of x \<and> trace m' = EvDup fd x # trace m \<and> same_php m m'"
  by (auto simp: sys_dupfd_cloexec_def split: prod.splits)

lemma sys_malloc_trace: "sys_malloc os n m = (ok, m') \<Longrightarrow> trace m' = trace m \<and> same_php m m'"
  by (auto simp: sys_malloc_def split: prod.splits)

lemma lib_call_trace: "lib_call f m = (r, m') \<Longrightarrow> trace m' = trace m \<and> same_php m m'"
  by (auto simp: lib_call_def same_php_def split: prod.splits)

lemmas sys_traces = lib_call_trace sys_ioctl_trace sys_ioctl_id_trace sys_read_trace sys_close_trace sys_malloc_trace

end
