(* ===== verification/Handle.thy ===== *)
theory Handle
  imports Linux_Os
begin

text \<open>
  The native core of \<open>src/handle.c\<close> and \<open>src/handle.h\<close>: a group of perf events behind a
  disabled dummy leader. A \<open>struct perfidious_handle\<close> is passed by value and returned updated
  (every pointer parameter of these functions is \<open>restrict\<close>); \<open>metrics\<close> holds the entries
  in use, so \<open>metrics_count\<close> is its length.

  The theory shows that opening is all or nothing as far as descriptors are concerned, that
  closing releases every descriptor in reverse order and reports the first error, that a reset
  takes its baselines at a disabled boundary and restores the enabled state, and that reading stays
  in bounds and reports each named event.
\<close>

section \<open>Data (handle.h)\<close>

definition PERFIDIOUS_MAX_EVENT_NAMES :: nat where
  "PERFIDIOUS_MAX_EVENT_NAMES = 1000"

record perfidious_metric =
  m_fd :: int
  m_id :: u64
  m_name :: "string option"

record perfidious_handle =
  metrics :: "perfidious_metric list"
  enabled :: bool
  persist :: bool
  time_enabled_at_reset :: u64
  time_running_at_reset :: u64

record perfidious_read_format =
  rf_nr :: u64
  rf_time_enabled :: u64
  rf_time_running :: u64
  rf_values :: "(u64 \<times> u64) list"

text \<open>The array is allocated zeroed with at least one entry, so \<open>metrics[0].fd\<close> of a handle
  without metrics is 0.\<close>

definition leader_fd :: "perfidious_handle \<Rightarrow> int" where
  "leader_fd h = (case metrics h of [] \<Rightarrow> 0 | mt # _ \<Rightarrow> m_fd mt)"

definition handle_fds :: "perfidious_handle \<Rightarrow> int list" where
  "handle_fds h = map m_fd (metrics h)"

section \<open>Enabling, disabling, resetting\<close>

definition perfidious_handle_ioctl_error ::
  "'k linux_os \<Rightarrow> int \<Rightarrow> ('k, 'z) lmachine \<Rightarrow> ('k, 'z) lmachine" where
  "perfidious_handle_ioctl_error os error_number m =
     perfidious_error_helper IOException error_number
       (''ioctl failed: '' @ os_strerror os error_number) m"

definition perfidious_handle_try_ioctl ::
  "'k linux_os \<Rightarrow> perfidious_handle \<Rightarrow> ioctl_request \<Rightarrow> int \<Rightarrow> ('k, 'z) lmachine \<Rightarrow> int \<times> ('k, 'z) lmachine" where
  "perfidious_handle_try_ioctl os h request flags m =
     (case sys_ioctl os (leader_fd h) request flags m of
        (ok, m1) \<Rightarrow> (if \<not> ok then errno_or_eio m1 else 0, m1))"

definition perfidious_handle_report_ioctl_result ::
  "'k linux_os \<Rightarrow> int \<Rightarrow> ('k, 'z) lmachine \<Rightarrow> bool \<times> ('k, 'z) lmachine" where
  "perfidious_handle_report_ioctl_result os error_number m =
     (if error_number \<noteq> 0 then (False, perfidious_handle_ioctl_error os error_number m)
      else (True, m))"

definition perfidious_handle_try_set_enabled ::
  "'k linux_os \<Rightarrow> perfidious_handle \<Rightarrow> bool \<Rightarrow> ('k, 'z) lmachine
    \<Rightarrow> int \<times> perfidious_handle \<times> ('k, 'z) lmachine" where
  "perfidious_handle_try_set_enabled os h b m =
     (let request = (if b then PERF_EVENT_IOC_ENABLE else PERF_EVENT_IOC_DISABLE)
      in case perfidious_handle_try_ioctl os h request 0 m of
           (error_number, m1) \<Rightarrow>
             (error_number, if error_number = 0 then h\<lparr>enabled := b\<rparr> else h, m1))"

definition perfidious_handle_enable ::
  "'k linux_os \<Rightarrow> perfidious_handle \<Rightarrow> ('k, 'z) lmachine
    \<Rightarrow> bool \<times> perfidious_handle \<times> ('k, 'z) lmachine" where
  "perfidious_handle_enable os h m =
     (if metrics h = [] then (False, h, m)
      else case perfidious_handle_try_set_enabled os h True m of
             (e, h1, m1) \<Rightarrow> (case perfidious_handle_report_ioctl_result os e m1 of
                               (r, m2) \<Rightarrow> (r, h1, m2)))"

definition perfidious_handle_disable ::
  "'k linux_os \<Rightarrow> perfidious_handle \<Rightarrow> ('k, 'z) lmachine
    \<Rightarrow> bool \<times> perfidious_handle \<times> ('k, 'z) lmachine" where
  "perfidious_handle_disable os h m =
     (if metrics h = [] then (False, h, m)
      else case perfidious_handle_try_set_enabled os h False m of
             (e, h1, m1) \<Rightarrow> (case perfidious_handle_report_ioctl_result os e m1 of
                               (r, m2) \<Rightarrow> (r, h1, m2)))"

text \<open>\<open>sizeof(struct perfidious_read_format)\<close> is 24 and one value takes 16 bytes.\<close>

definition perfidious_handle_read_buffer_size :: "perfidious_handle \<Rightarrow> u64" where
  "perfidious_handle_read_buffer_size h = 24 + 16 * of_nat (length (metrics h))"

text \<open>The buffer as 64-bit words: the three header words, then a value and an id per metric.
  Words a call does not describe read as zero.\<close>

definition fill_buffer :: "nat \<Rightarrow> u64 list \<Rightarrow> u64 list" where
  "fill_buffer n ws = take n ws @ replicate (n - length ws) 0"

fun value_id_pairs :: "u64 list \<Rightarrow> (u64 \<times> u64) list" where
  "value_id_pairs (v # i # ws) = (v, i) # value_id_pairs ws"
| "value_id_pairs _ = []"

definition decode_read_format :: "nat \<Rightarrow> u64 list \<Rightarrow> perfidious_read_format" where
  "decode_read_format cnt ws =
     (let b = fill_buffer (3 + 2 * cnt) ws
      in \<lparr>rf_nr = b ! 0, rf_time_enabled = b ! 1, rf_time_running = b ! 2,
          rf_values = value_id_pairs (drop 3 b)\<rparr>)"

text \<open>The part of \<open>perfidious_handle_try_reset\<close> that runs while the group is disabled: read the
  lifetime times, reset the counts, and keep the times as the new baselines.\<close>

definition reset_at_boundary ::
  "'k linux_os \<Rightarrow> u64 \<Rightarrow> perfidious_handle \<Rightarrow> ('k, 'z) lmachine
    \<Rightarrow> int \<times> perfidious_handle \<times> ('k, 'z) lmachine" where
  "reset_at_boundary os n h m =
     (case sys_read os (leader_fd h) (uint n) m of ((bytes_read, ws), m1) \<Rightarrow>
        if bytes_read \<noteq> sint n
        then (if bytes_read < 0 then errno_or_eio m1 else EIO, h, m1)
        else case perfidious_handle_try_ioctl os h PERF_EVENT_IOC_RESET PERF_IOC_FLAG_GROUP m1 of
          (e, m2) \<Rightarrow>
            (let data = decode_read_format (length (metrics h)) ws
             in (e, if e = 0
                    then h\<lparr>time_enabled_at_reset := rf_time_enabled data,
                           time_running_at_reset := rf_time_running data\<rparr>
                    else h, m2)))"

definition perfidious_handle_try_reset ::
  "'k linux_os \<Rightarrow> perfidious_handle \<Rightarrow> ('k, 'z) lmachine
    \<Rightarrow> int \<times> perfidious_handle \<times> ('k, 'z) lmachine" where
  "perfidious_handle_try_reset os h m =
     (let n = perfidious_handle_read_buffer_size h; was_enabled = enabled h
      in case sys_malloc os n m of (allocated, m0) \<Rightarrow>
         if \<not> allocated then (ENOMEM, h, m0)
         else case (if was_enabled then perfidious_handle_try_set_enabled os h False m0
                    else (0, h, m0)) of (e0, h0, m1) \<Rightarrow>
           if e0 \<noteq> 0 then (e0, h0, m1)
           else case reset_at_boundary os n h0 m1 of (e1, h1, m2) \<Rightarrow>
             if was_enabled
             then case perfidious_handle_try_set_enabled os h1 True m2 of (e2, h2, m3) \<Rightarrow>
                    (if e1 = 0 then e2 else e1, h2, m3)
             else (e1, h1, m2))"

definition perfidious_handle_reset ::
  "'k linux_os \<Rightarrow> perfidious_handle \<Rightarrow> ('k, 'z) lmachine
    \<Rightarrow> bool \<times> perfidious_handle \<times> ('k, 'z) lmachine" where
  "perfidious_handle_reset os h m =
     (if metrics h = [] then (False, h, m)
      else case perfidious_handle_try_reset os h m of (e, h1, m1) \<Rightarrow>
        if e \<noteq> 0
        then (False, h1, perfidious_error_helper IOException e (''reset failed: '' @ os_strerror os e) m1)
        else (True, h1, m1))"

section \<open>Closing\<close>

text \<open>The loop of \<open>perfidious_handle_try_close\<close>, over the metrics from the last to the first.\<close>

fun close_metrics ::
  "'k linux_os \<Rightarrow> perfidious_metric list \<Rightarrow> int \<Rightarrow> ('k, 'z) lmachine \<Rightarrow> int \<times> ('k, 'z) lmachine" where
  "close_metrics os [] error_number m = (error_number, m)"
| "close_metrics os (mt # ms) error_number m =
     (case sys_close os (m_fd mt) m of (ok, m1) \<Rightarrow>
        close_metrics os ms (if \<not> ok \<and> error_number = 0 then errno_or_eio m1 else error_number) m1)"

definition perfidious_handle_try_close ::
  "'k linux_os \<Rightarrow> perfidious_handle \<Rightarrow> ('k, 'z) lmachine \<Rightarrow> int \<times> ('k, 'z) lmachine" where
  "perfidious_handle_try_close os h m = close_metrics os (rev (metrics h)) 0 m"

definition perfidious_handle_close ::
  "'k linux_os \<Rightarrow> perfidious_handle \<Rightarrow> ('k, 'z) lmachine \<Rightarrow> bool \<times> ('k, 'z) lmachine" where
  "perfidious_handle_close os h m =
     (case perfidious_handle_try_close os h m of (e, m1) \<Rightarrow>
        if e \<noteq> 0
        then (False, perfidious_error_helper IOException e (''close failed: '' @ os_strerror os e) m1)
        else (True, m1))"

section \<open>Opening\<close>

definition group_read_format :: u64 where
  "group_read_format = PERF_FORMAT_GROUP OR PERF_FORMAT_ID OR PERF_FORMAT_TOTAL_TIME_RUNNING
     OR PERF_FORMAT_TOTAL_TIME_ENABLED"

definition dummy_attr :: perf_event_attr where
  "dummy_attr = \<lparr>pe_type = PERF_TYPE_SOFTWARE, pe_config = PERF_COUNT_SW_DUMMY, pe_disabled = True,
     pe_watermark = False, pe_exclude_kernel = True, pe_exclude_hv = True,
     pe_read_format = group_read_format, pe_rest = []\<rparr>"

text \<open>The fields set after libpfm has encoded an event.\<close>

definition member_attr :: "perf_event_attr \<Rightarrow> perf_event_attr" where
  "member_attr attr = attr\<lparr>pe_disabled := False, pe_watermark := False, pe_exclude_kernel := True,
     pe_exclude_hv := True, pe_read_format := group_read_format\<rparr>"

definition ioctl_open_error :: "'k linux_os \<Rightarrow> int \<Rightarrow> perfidious_error" where
  "ioctl_open_error os err =
     perfidious_error_set IOException err (''ioctl failed: '' @ os_strerror os err)"

text \<open>The loop over the event names; on an error it stops, with the handle as it is then.\<close>

fun open_events ::
  "'k linux_os \<Rightarrow> string list \<Rightarrow> int \<Rightarrow> int \<Rightarrow> int \<Rightarrow> perfidious_handle \<Rightarrow> ('k, 'z) lmachine
    \<Rightarrow> perfidious_error option \<times> perfidious_handle \<times> ('k, 'z) lmachine" where
  "open_events os [] pid cpu group_fd h m = (None, h, m)"
| "open_events os (event_name # names) pid cpu group_fd h m =
     (case os_pfm_encoding os (c_str event_name) of (err, attr) \<Rightarrow>
        if err \<noteq> PFM_SUCCESS
        then (Some (perfidious_error_set PmuEventNotFoundException err
                (''failed to get libpfm event encoding for ''
                 @ c_str_prec (to_int32 (int (length event_name))) event_name
                 @ '': '' @ os_pfm_strerror os err)), h, m)
        else case sys_perf_event_open os (member_attr attr) pid cpu group_fd m of (fd, m1) \<Rightarrow>
          if fd = -1
          then (Some (perfidious_error_set IOException (errno m1)
                  (''perf_event_open() failed for ''
                   @ c_str_prec (to_int32 (int (length event_name))) event_name
                   @ '': '' @ os_strerror os (errno m1))), h, m1)
          else case sys_ioctl_id os fd m1 of
            (None, m2) \<Rightarrow> (Some (ioctl_open_error os (errno_or_eio m2)), h, snd (sys_close os fd m2))
          | (Some eid, m2) \<Rightarrow>
              open_events os names pid cpu group_fd
                (h\<lparr>metrics := metrics h @ [\<lparr>m_fd = fd, m_id = eid, m_name = Some event_name\<rparr>]\<rparr>) m2)"

definition new_handle :: "bool \<Rightarrow> perfidious_handle" where
  "new_handle p = \<lparr>metrics = [], enabled = False, persist = p,
     time_enabled_at_reset = 0, time_running_at_reset = 0\<rparr>"

definition perfidious_handle_try_open_ex ::
  "'k linux_os \<Rightarrow> string list \<Rightarrow> int \<Rightarrow> int \<Rightarrow> bool \<Rightarrow> ('k, 'z) lmachine
    \<Rightarrow> (perfidious_error + perfidious_handle) \<times> ('k, 'z) lmachine" where
  "perfidious_handle_try_open_ex os event_names pid cpu p m =
     (let h = new_handle p
      in case (case sys_perf_event_open os dummy_attr pid cpu (-1) m of (fd, m1) \<Rightarrow>
                 if fd = -1
                 then (Some (perfidious_error_set IOException (errno m1)
                        (''perf_event_open() failed for perf::PERF_COUNT_SW_DUMMY: ''
                         @ os_strerror os (errno m1))), h, m1)
                 else case sys_ioctl_id os fd m1 of
                   (None, m2) \<Rightarrow>
                     (Some (ioctl_open_error os (errno_or_eio m2)), h, snd (sys_close os fd m2))
                 | (Some eid, m2) \<Rightarrow>
                     open_events os event_names pid cpu fd
                       (h\<lparr>metrics := [\<lparr>m_fd = fd, m_id = eid, m_name = None\<rparr>]\<rparr>) m2) of
           (None, h1, m3) \<Rightarrow> (Inr h1, m3)
         | (Some e, h1, m3) \<Rightarrow> (Inl e, snd (perfidious_handle_try_close os h1 m3)))"

text \<open>Reporting a stored error; its class is set whenever an opening function has failed.\<close>

definition report_error :: "perfidious_error \<Rightarrow> ('k, 'z) lmachine \<Rightarrow> ('k, 'z) lmachine" where
  "report_error e m =
     (case exception_ce e of None \<Rightarrow> m | Some c \<Rightarrow> perfidious_error_helper c (code e) (message e) m)"

definition perfidious_handle_open_ex ::
  "'k linux_os \<Rightarrow> string list \<Rightarrow> int \<Rightarrow> int \<Rightarrow> bool \<Rightarrow> ('k, 'z) lmachine
    \<Rightarrow> perfidious_handle option \<times> ('k, 'z) lmachine" where
  "perfidious_handle_open_ex os event_names pid cpu p m =
     (case perfidious_handle_try_open_ex os event_names pid cpu p m of
        (Inl e, m1) \<Rightarrow> (None, report_error e m1)
      | (Inr h, m1) \<Rightarrow> (Some h, m1))"

definition perfidious_handle_open ::
  "'k linux_os \<Rightarrow> string list \<Rightarrow> bool \<Rightarrow> ('k, 'z) lmachine
    \<Rightarrow> perfidious_handle option \<times> ('k, 'z) lmachine" where
  "perfidious_handle_open os event_names p m =
     perfidious_handle_open_ex os event_names 0 (-1) p m"

section \<open>Reading\<close>

definition perfidious_handle_read_raw ::
  "'k linux_os \<Rightarrow> perfidious_handle \<Rightarrow> u64 \<Rightarrow> ('k, 'z) lmachine \<Rightarrow> u64 list option \<times> ('k, 'z) lmachine" where
  "perfidious_handle_read_raw os h n m =
     (case sys_read os (leader_fd h) (uint n) m of ((bytes_read, ws), m1) \<Rightarrow>
        (if bytes_read = sint n then Some ws else None, m1))"

text \<open>The loop over \<open>data->nr\<close> entries. It indexes the metrics and the values of the buffer with
  the kernel's count: past the end of either, the behaviour is undefined.\<close>

fun read_values ::
  "'k linux_os \<Rightarrow> nat \<Rightarrow> nat \<Rightarrow> perfidious_metric list \<Rightarrow> (u64 \<times> u64) list \<Rightarrow> (php_key \<times> zval) list
    \<Rightarrow> ('k, 'z) lmachine \<Rightarrow> ((php_key \<times> zval) list option \<times> ('k, 'z) lmachine) cval" where
  "read_values os i 0 ms vs arr m = Ret (Some arr, m)"
| "read_values os i (Suc n) (mt # ms) ((v, vid) # vs) arr m =
     (if m_id mt \<noteq> vid
      then Ret (None, perfidious_error_helper DomainException 0
             (''ID mismatch: '' @ show_nat (unat (m_id mt)) @ '' != '' @ show_nat (unat vid)) m)
      else if i = 0 then read_values os (Suc i) n ms vs arr m
      else case m_name mt of
        None \<Rightarrow> read_values os (Suc i) n ms vs arr m
      | Some name \<Rightarrow>
          (case perfidious_uint64_t_to_zend_long v m of
             (None, m1) \<Rightarrow> Ret (None, m1)
           | (Some z, m1) \<Rightarrow>
               read_values os (Suc i) n ms vs (AList.update (os_symtable_key os name) (ZLong z) arr) m1))"
| "read_values os i (Suc n) _ _ arr m = Undefined"

definition perfidious_handle_read_to_array_with_times ::
  "'k linux_os \<Rightarrow> perfidious_handle \<Rightarrow> ('k, 'z) lmachine
    \<Rightarrow> (((php_key \<times> zval) list \<times> u64 \<times> u64) option \<times> ('k, 'z) lmachine) cval" where
  "perfidious_handle_read_to_array_with_times os h m =
     (case perfidious_handle_read_raw os h (perfidious_handle_read_buffer_size h) m of
        (None, m1) \<Rightarrow>
          Ret (None, perfidious_error_helper IOException (errno m1)
                 (''failed to read: '' @ os_strerror os (errno m1)) m1)
      | (Some ws, m1) \<Rightarrow>
          (let data = decode_read_format (length (metrics h)) ws
           in case read_values os 0 (unat (rf_nr data)) (metrics h) (rf_values data) [] m1 of
                Undefined \<Rightarrow> Undefined
              | Ret (None, m2) \<Rightarrow> Ret (None, m2)
              | Ret (Some arr, m2) \<Rightarrow>
                  Ret (Some (arr, rf_time_enabled data, rf_time_running data), m2)))"

definition perfidious_handle_read_to_array ::
  "'k linux_os \<Rightarrow> perfidious_handle \<Rightarrow> ('k, 'z) lmachine \<Rightarrow> (zval option \<times> ('k, 'z) lmachine) cval" where
  "perfidious_handle_read_to_array os h m =
     (case perfidious_handle_read_to_array_with_times os h m of
        Undefined \<Rightarrow> Undefined
      | Ret (None, m1) \<Rightarrow> Ret (None, m1)
      | Ret (Some (arr, te, tr), m1) \<Rightarrow> Ret (Some (ZArray arr), m1))"

definition perfidious_handle_read_to_result ::
  "'k linux_os \<Rightarrow> perfidious_handle \<Rightarrow> ('k, 'z) lmachine \<Rightarrow> (zval option \<times> ('k, 'z) lmachine) cval" where
  "perfidious_handle_read_to_result os h m =
     (case perfidious_handle_read_to_array_with_times os h m of
        Undefined \<Rightarrow> Undefined
      | Ret (None, m1) \<Rightarrow> Ret (None, m1)
      | Ret (Some (arr, te, tr), m1) \<Rightarrow>
          (case perfidious_uint64_t_to_zend_long te m1 of
             (None, m2) \<Rightarrow> Ret (None, m2)
           | (Some te_zl, m2) \<Rightarrow>
               (case perfidious_uint64_t_to_zend_long tr m2 of
                  (None, m3) \<Rightarrow> Ret (None, m3)
                | (Some tr_zl, m3) \<Rightarrow>
                    Ret (Some (ZObject ''ReadResult''
                           [(''timeEnabled'', ZLong te_zl), (''timeRunning'', ZLong tr_zl),
                            (''values'', ZArray arr)]), m3))))"

section \<open>Closing releases every descriptor\<close>

definition close_events :: "int list \<Rightarrow> bool list \<Rightarrow> linux_event list" where
  "close_events fds oks = rev (map2 EvClose fds oks)"

lemma live_close_events:
  "length oks = length fds \<Longrightarrow> live (close_events fds oks @ t) = live t - mset fds"
proof (induction fds arbitrary: oks t)
  case Nil
  then show ?case by (simp add: close_events_def)
next
  case (Cons fd fds)
  then obtain ok oks' where oks: "oks = ok # oks'" "length oks' = length fds"
    by (cases oks) auto
  then have "close_events (fd # fds) oks @ t = close_events fds oks' @ EvClose fd ok # t"
    by (simp add: close_events_def)
  then show ?case using Cons.IH [of oks' "EvClose fd ok # t"] oks by (simp add: diff_diff_add_mset)
qed

lemma closes_live_close_events:
  "length oks = length fds \<Longrightarrow> mset fds \<subseteq># live t \<Longrightarrow> closes_live t \<Longrightarrow>
     closes_live (close_events fds oks @ t)"
proof (induction fds arbitrary: oks t)
  case Nil
  then show ?case by (simp add: close_events_def)
next
  case (Cons fd fds)
  then obtain ok oks' where oks: "oks = ok # oks'" "length oks' = length fds"
    by (cases oks) auto
  have "fd \<in># live t" using Cons.prems(2) by (metis in_multiset_in_set list.set_intros(1) mset_subset_eqD)
  moreover have "mset fds \<subseteq># live t - {#fd#}"
    using Cons.prems(2) by (simp add: insert_subset_eq_iff)
  ultimately have "closes_live (close_events fds oks' @ EvClose fd ok # t)"
    using Cons.prems(3) oks(2) by (intro Cons.IH) simp_all
  then show ?case using oks by (simp add: close_events_def)
qed

lemma close_metrics_run:
  "close_metrics os ms e m = (e', m') \<Longrightarrow>
     \<exists>oks. length oks = length ms \<and> trace m' = close_events (map m_fd ms) oks @ trace m \<and>
       same_php m m' \<and> (e' = 0 \<longleftrightarrow> e = 0 \<and> False \<notin> set oks)"
proof (induction ms arbitrary: e m)
  case Nil
  then show ?case by (simp add: close_events_def)
next
  case (Cons mt ms)
  obtain ok m1 where c: "sys_close os (m_fd mt) m = (ok, m1)" by fastforce
  let ?e = "if \<not> ok \<and> e = 0 then errno_or_eio m1 else e"
  from Cons.prems c have "close_metrics os ms ?e m1 = (e', m')" by simp
  from Cons.IH [OF this] obtain oks where
    oks: "length oks = length ms" "trace m' = close_events (map m_fd ms) oks @ trace m1"
      "same_php m1 m'" "e' = 0 \<longleftrightarrow> ?e = 0 \<and> False \<notin> set oks" by blast
  show ?case
    using oks sys_close_trace [OF c]
    by (intro exI [of _ "ok # oks"]) (auto simp: close_events_def intro: same_php_trans)
qed

lemma close_metrics_keeps_error: "e \<noteq> 0 \<Longrightarrow> fst (close_metrics os ms e m) = e"
  by (induction ms arbitrary: m) (simp_all split: prod.splits)

lemma try_close_run:
  assumes "perfidious_handle_try_close os h m = (e, m')"
  obtains oks where "length oks = length (metrics h)"
    "trace m' = close_events (rev (handle_fds h)) oks @ trace m" "same_php m m'"
    "e = 0 \<longleftrightarrow> False \<notin> set oks"
  using close_metrics_run [OF assms [unfolded perfidious_handle_try_close_def]]
  by (auto simp: handle_fds_def rev_map)

lemma try_close_live:
  "perfidious_handle_try_close os h m = (e, m') \<Longrightarrow>
     live (trace m') = live (trace m) - mset (handle_fds h) \<and> same_php m m'"
  by (erule try_close_run) (simp add: live_close_events handle_fds_def)

lemma try_close_closes_live:
  "perfidious_handle_try_close os h m = (e, m') \<Longrightarrow> mset (handle_fds h) \<subseteq># live (trace m) \<Longrightarrow>
     closes_live (trace m) \<Longrightarrow> closes_live (trace m')"
  by (erule try_close_run) (simp add: closes_live_close_events handle_fds_def)

section \<open>Opening is all or nothing\<close>

text \<open>A descriptor that is opened and asked for its id: refused, opened but closed again because it has no
  id, or kept.\<close>

lemma open_and_identify:
  obtains
    (refused) m1 where "sys_perf_event_open os attr pid cpu g m = (- 1, m1)" "same_php m m1"
      "live (trace m1) = live (trace m)" "closes_live (trace m1) = closes_live (trace m)"
  | (no_id) fd m1 m2 where "sys_perf_event_open os attr pid cpu g m = (int fd, m1)"
      "sys_ioctl_id os (int fd) m1 = (None, m2)" "same_php m (snd (sys_close os (int fd) m2))"
      "live (trace (snd (sys_close os (int fd) m2))) = live (trace m)"
      "closes_live (trace m) \<longrightarrow> closes_live (trace (snd (sys_close os (int fd) m2)))"
  | (kept) fd m1 eid m2 where "sys_perf_event_open os attr pid cpu g m = (int fd, m1)"
      "sys_ioctl_id os (int fd) m1 = (Some eid, m2)" "same_php m m2"
      "live (trace m2) = add_mset (int fd) (live (trace m))" "closes_live (trace m2) = closes_live (trace m)"
proof -
  obtain r m1 where op: "sys_perf_event_open os attr pid cpu g m = (r, m1)" by fastforce
  from sys_perf_event_open_trace [OF op] obtain x where x: "r = fd_of x"
    "trace m1 = EvPerfEventOpen attr pid cpu g x # trace m" "same_php m m1" by blast
  show thesis
  proof (cases x)
    case None
    with op x show thesis by (intro refused [of m1]) simp_all
  next
    case (Some fd)
    obtain i m2 where io: "sys_ioctl_id os (int fd) m1 = (i, m2)" by fastforce
    note t2 = sys_ioctl_id_trace [OF io]
    have php2: "same_php m m2" using x(3) t2 by (blast intro: same_php_trans)
    obtain ok m3 where cl: "sys_close os (int fd) m2 = (ok, m3)" by fastforce
    show thesis
    proof (cases i)
      case None
      have "same_php m m3" using php2 sys_close_trace [OF cl] by (blast intro: same_php_trans)
      with op x Some io None cl sys_close_trace [OF cl] t2 show thesis by (intro no_id [of fd m1 m2]) simp_all
    next
      case (Some eid)
      with op x \<open>x = Some fd\<close> io t2 php2 show thesis by (intro kept [of fd m1 eid m2]) simp_all
    qed
  qed
qed

text \<open>What a run of the opening loop, successful or not, has added to the handle.\<close>

lemma open_events_run:
  "open_events os names pid cpu g h m = (eo, h', m') \<Longrightarrow>
     \<exists>mets. h' = h\<lparr>metrics := metrics h @ mets\<rparr> \<and>
       live (trace m') = live (trace m) + mset (map m_fd mets) \<and> same_php m m' \<and>
       (closes_live (trace m) \<longrightarrow> closes_live (trace m')) \<and>
       map m_name mets = map Some (take (length mets) names) \<and> length mets \<le> length names \<and>
       (eo = None \<longrightarrow> length mets = length names) \<and>
       (\<forall>e. eo = Some e \<longrightarrow> exception_ce e \<noteq> None)"
proof (induction names arbitrary: h m)
  case Nil
  then show ?case by (intro exI [of _ "[]"]) simp
next
  case (Cons name names)
  obtain err attr where enc: "os_pfm_encoding os (c_str name) = (err, attr)" by fastforce
  show ?case
  proof (cases "err = PFM_SUCCESS")
    case False
    with Cons.prems enc show ?thesis by (intro exI [of _ "[]"]) auto
  next
    case True
    show ?thesis
    proof (cases rule: open_and_identify [of os "member_attr attr" pid cpu g m])
      case refused
      with Cons.prems enc True show ?thesis by (intro exI [of _ "[]"]) auto
    next
      case no_id
      with Cons.prems enc True show ?thesis by (intro exI [of _ "[]"]) (auto simp: ioctl_open_error_def)
    next
      case (kept fd m1 eid m2)
      let ?mt = "\<lparr>m_fd = int fd, m_id = eid, m_name = Some name\<rparr>"
      let ?h = "h\<lparr>metrics := metrics h @ [?mt]\<rparr>"
      from Cons.prems enc True kept have "open_events os names pid cpu g ?h m2 = (eo, h', m')" by simp
      from Cons.IH [OF this] obtain mets where
        "h' = ?h\<lparr>metrics := metrics ?h @ mets\<rparr>"
        "live (trace m') = live (trace m2) + mset (map m_fd mets)" "same_php m2 m'"
        "closes_live (trace m2) \<longrightarrow> closes_live (trace m')"
        "map m_name mets = map Some (take (length mets) names)" "length mets \<le> length names"
        "eo = None \<longrightarrow> length mets = length names"
        "\<forall>e. eo = Some e \<longrightarrow> exception_ce e \<noteq> None" by blast
      with kept show ?thesis by (intro exI [of _ "?mt # mets"]) (auto intro: same_php_trans)
    qed
  qed
qed

lemma try_open_ex_run:
  assumes "perfidious_handle_try_open_ex os names pid cpu p m = (r, m')"
  shows "same_php m m' \<and> (closes_live (trace m) \<longrightarrow> closes_live (trace m')) \<and>
    (case r of
       Inl e \<Rightarrow> live (trace m') = live (trace m) \<and> exception_ce e \<noteq> None
     | Inr h \<Rightarrow> live (trace m') = live (trace m) + mset (handle_fds h) \<and>
         map m_name (metrics h) = None # map Some names \<and> \<not> enabled h \<and> persist h = p \<and>
         time_enabled_at_reset h = 0 \<and> time_running_at_reset h = 0)"
proof (cases rule: open_and_identify [of os dummy_attr pid cpu "- 1" m])
  case refused
  with assms show ?thesis
    by (auto simp: perfidious_handle_try_open_ex_def new_handle_def Let_def perfidious_handle_try_close_def)
next
  case no_id
  with assms show ?thesis
    by (auto simp: perfidious_handle_try_open_ex_def new_handle_def Let_def perfidious_handle_try_close_def
        ioctl_open_error_def)
next
  case (kept fd m1 eid m2)
  let ?h = "(new_handle p)\<lparr>metrics := [\<lparr>m_fd = int fd, m_id = eid, m_name = None\<rparr>]\<rparr>"
  obtain eo h1 m3 where ev: "open_events os names pid cpu (int fd) ?h m2 = (eo, h1, m3)"
    by (metis prod_cases3)
  from open_events_run [OF ev] obtain mets where run:
    "h1 = ?h\<lparr>metrics := metrics ?h @ mets\<rparr>"
    "live (trace m3) = live (trace m2) + mset (map m_fd mets)" "same_php m2 m3"
    "closes_live (trace m2) \<longrightarrow> closes_live (trace m3)"
    "map m_name mets = map Some (take (length mets) names)"
    "eo = None \<longrightarrow> length mets = length names"
    "\<forall>e. eo = Some e \<longrightarrow> exception_ce e \<noteq> None" by blast
  have 3: "live (trace m3) = live (trace m) + mset (handle_fds h1)"
    "closes_live (trace m) \<longrightarrow> closes_live (trace m3)" "same_php m m3"
    using run kept same_php_trans [OF kept(3)] by (simp_all add: handle_fds_def)
  show ?thesis
  proof (cases eo)
    case None
    with assms kept ev have "r = Inr h1" "m' = m3"
      by (auto simp: perfidious_handle_try_open_ex_def Let_def new_handle_def)
    with None run 3 show ?thesis by (simp add: new_handle_def)
  next
    case (Some e)
    obtain ce m4 where cl: "perfidious_handle_try_close os h1 m3 = (ce, m4)" by fastforce
    with Some assms kept ev have "r = Inl e" "m' = m4"
      by (auto simp: perfidious_handle_try_open_ex_def Let_def new_handle_def)
    with try_close_live [OF cl] try_close_closes_live [OF cl] Some run(7) 3
    show ?thesis by (auto intro: same_php_trans)
  qed
qed

lemma try_open_ex_failed:
  "perfidious_handle_try_open_ex os names pid cpu p m = (Inl e, m') \<Longrightarrow>
     live (trace m') = live (trace m) \<and> same_php m m' \<and> exception_ce e \<noteq> None \<and>
     (closes_live (trace m) \<longrightarrow> closes_live (trace m'))"
  by (drule try_open_ex_run) simp

lemma try_open_ex_opened:
  "perfidious_handle_try_open_ex os names pid cpu p m = (Inr h, m') \<Longrightarrow>
     live (trace m') = live (trace m) + mset (handle_fds h) \<and> same_php m m' \<and>
     map m_name (metrics h) = None # map Some names \<and> \<not> enabled h \<and> persist h = p \<and>
     time_enabled_at_reset h = 0 \<and> time_running_at_reset h = 0 \<and>
     (closes_live (trace m) \<longrightarrow> closes_live (trace m'))"
  by (drule try_open_ex_run) simp

section \<open>Switching the leader\<close>

text \<open>Whether the event behind a descriptor counts, by the trace: what it was opened as, and the
  last successful enable or disable since.\<close>

fun counting :: "int \<Rightarrow> linux_event list \<Rightarrow> bool" where
  "counting fd [] = False"
| "counting fd (EvPerfEventOpen a p c g (Some f) # t) =
     (if int f = fd then \<not> pe_disabled a else counting fd t)"
| "counting fd (EvIoctl f PERF_EVENT_IOC_ENABLE flags True # t) = (f = fd \<or> counting fd t)"
| "counting fd (EvIoctl f PERF_EVENT_IOC_DISABLE flags True # t) = (f \<noteq> fd \<and> counting fd t)"
| "counting fd (ev # t) = counting fd t"

definition flag_agrees :: "perfidious_handle \<Rightarrow> linux_event list \<Rightarrow> bool" where
  "flag_agrees h t \<longleftrightarrow> enabled h = counting (leader_fd h) t"

definition switch_request :: "bool \<Rightarrow> ioctl_request" where
  "switch_request b = (if b then PERF_EVENT_IOC_ENABLE else PERF_EVENT_IOC_DISABLE)"

lemma counting_simps [simp]:
  "counting fd (EvIoctl f (switch_request b) flags ok # t) =
     (if f = fd \<and> ok then b else counting fd t)"
  "counting fd (EvIoctl f PERF_EVENT_IOC_RESET flags ok # t) = counting fd t"
  "counting fd (EvRead f n r # t) = counting fd t"
  by (cases b; cases ok; simp add: switch_request_def)+

lemma live_switch [simp]: "live (EvIoctl f r flags ok # t) = live t"
  by (cases r; simp)

lemma closes_live_switch [simp]: "closes_live (EvIoctl f r flags ok # t) = closes_live t"
  by (cases r; simp)

lemma leader_fd_updates [simp]:
  "leader_fd (h\<lparr>enabled := b\<rparr>) = leader_fd h"
  "leader_fd (h\<lparr>time_enabled_at_reset := te\<rparr>) = leader_fd h"
  "leader_fd (h\<lparr>time_running_at_reset := tr\<rparr>) = leader_fd h"
  by (simp_all add: leader_fd_def)

lemma try_ioctl_run:
  "perfidious_handle_try_ioctl os h r flags m = (e, m') \<Longrightarrow>
     trace m' = EvIoctl (leader_fd h) r flags (e = 0) # trace m \<and> same_php m m'"
  by (auto simp: perfidious_handle_try_ioctl_def dest: sys_ioctl_trace split: prod.splits)

lemma try_set_enabled_run:
  "perfidious_handle_try_set_enabled os h b m = (e, h', m') \<Longrightarrow>
     trace m' = EvIoctl (leader_fd h) (switch_request b) 0 (e = 0) # trace m \<and> same_php m m' \<and>
     h' = (if e = 0 then h\<lparr>enabled := b\<rparr> else h)"
  by (auto simp: perfidious_handle_try_set_enabled_def switch_request_def Let_def
      dest!: try_ioctl_run split: prod.splits if_splits)

lemma reset_at_boundary_run:
  assumes "reset_at_boundary os n h m = (e, h', m')"
  shows "same_php m m' \<and>
    (\<exists>bytes_read ws m1. sys_read os (leader_fd h) (uint n) m = ((bytes_read, ws), m1) \<and>
       (if bytes_read = sint n
        then trace m' = [EvIoctl (leader_fd h) PERF_EVENT_IOC_RESET PERF_IOC_FLAG_GROUP (e = 0),
               EvRead (leader_fd h) (uint n) bytes_read] @ trace m \<and>
          (let data = decode_read_format (length (metrics h)) ws
           in h' = (if e = 0
                    then h\<lparr>time_enabled_at_reset := rf_time_enabled data,
                           time_running_at_reset := rf_time_running data\<rparr> else h))
        else e \<noteq> 0 \<and> h' = h \<and> trace m' = EvRead (leader_fd h) (uint n) bytes_read # trace m))"
proof -
  obtain bytes_read ws m1 where rd: "sys_read os (leader_fd h) (uint n) m = ((bytes_read, ws), m1)"
    by (metis surj_pair)
  note t1 = sys_read_trace [OF rd]
  show ?thesis
  proof (cases "bytes_read = sint n")
    case False
    with assms rd t1 show ?thesis by (auto simp: reset_at_boundary_def split: if_splits)
  next
    case True
    obtain e' m2 where io: "perfidious_handle_try_ioctl os h PERF_EVENT_IOC_RESET
        PERF_IOC_FLAG_GROUP m1 = (e', m2)" by fastforce
    have "e = e'" "m' = m2" using assms rd True io by (auto simp: reset_at_boundary_def Let_def)
    then show ?thesis
      using assms rd True io t1 try_ioctl_run [OF io]
      by (auto simp: reset_at_boundary_def Let_def intro: same_php_trans)
  qed
qed

lemma reset_at_boundary_frame:
  "reset_at_boundary os n h m = (e, h', m') \<Longrightarrow>
     metrics h' = metrics h \<and> enabled h' = enabled h \<and> persist h' = persist h \<and>
     live (trace m') = live (trace m) \<and> counting fd (trace m') = counting fd (trace m) \<and>
     (closes_live (trace m) \<longrightarrow> closes_live (trace m')) \<and> same_php m m'"
  by (drule reset_at_boundary_run) (auto simp: Let_def split: if_splits)

lemma leader_fd_cong: "metrics h' = metrics h \<Longrightarrow> leader_fd h' = leader_fd h"
  by (simp add: leader_fd_def)

text \<open>The stages of a reset: no buffer; the group could not be disabled; a group that was not
  counting; a group that was, with the attempt to enable it again.\<close>

lemma try_reset_cases:
  assumes "perfidious_handle_try_reset os h m = (e, h', m')"
  obtains
    (no_memory) "e = ENOMEM" "h' = h" "trace m' = trace m" "same_php m m'"
  | (not_disabled) "e \<noteq> 0" "enabled h" "h' = h" "same_php m m'"
      "trace m' = EvIoctl (leader_fd h) (switch_request False) 0 False # trace m"
  | (idle) m0 where "\<not> enabled h" "trace m0 = trace m" "same_php m m0"
      "reset_at_boundary os (perfidious_handle_read_buffer_size h) h m0 = (e, h', m')"
  | (busy) m1 e1 h1 m2 e2 where "enabled h" "same_php m m1" "same_php m2 m'"
      "trace m1 = EvIoctl (leader_fd h) (switch_request False) 0 True # trace m"
      "reset_at_boundary os (perfidious_handle_read_buffer_size h) (h\<lparr>enabled := False\<rparr>) m1
         = (e1, h1, m2)"
      "trace m' = EvIoctl (leader_fd h) (switch_request True) 0 (e2 = 0) # trace m2"
      "h' = (if e2 = 0 then h1\<lparr>enabled := True\<rparr> else h1)" "e = (if e1 = 0 then e2 else e1)"
proof -
  let ?n = "perfidious_handle_read_buffer_size h"
  obtain ok m0 where al: "sys_malloc os ?n m = (ok, m0)" by fastforce
  note t0 = sys_malloc_trace [OF al]
  note def = perfidious_handle_try_reset_def [of os h m, unfolded Let_def al]
  show thesis
  proof (cases "ok \<and> enabled h")
    case False
    show thesis
    proof (cases ok)
      case False
      with assms def have "e = ENOMEM" "h' = h" "m' = m0" by simp_all
      with t0 no_memory show thesis by simp
    next
      case True
      with assms def False have "\<not> enabled h"
        and "reset_at_boundary os ?n h m0 = (e, h', m')" by (simp_all split: prod.splits)
      with t0 idle show thesis by blast
    qed
  next
    case True
    obtain e0 h0 m1 where d: "perfidious_handle_try_set_enabled os h False m0 = (e0, h0, m1)"
      by (metis prod_cases3)
    note t1 = try_set_enabled_run [OF d]
    show thesis
    proof (cases "e0 = 0")
      case False
      with assms def True d have "e = e0" "h' = h0" "m' = m1" by simp_all
      moreover have "same_php m m1" using t0 t1 by (blast intro: same_php_trans)
      ultimately show thesis using False True t0 t1 by (intro not_disabled) simp_all
    next
      case e0: True
      obtain e1 h1 m2 where b: "reset_at_boundary os ?n (h\<lparr>enabled := False\<rparr>) m1 = (e1, h1, m2)"
        by (metis prod_cases3)
      obtain e2 h2 m3 where en: "perfidious_handle_try_set_enabled os h1 True m2 = (e2, h2, m3)"
        by (metis prod_cases3)
      note t2 = try_set_enabled_run [OF en]
      have lead: "leader_fd h1 = leader_fd h"
        using reset_at_boundary_frame [OF b] by (simp add: leader_fd_def)
      have res: "e = (if e1 = 0 then e2 else e1)" "h' = h2" "m' = m3"
        using assms def True d e0 t1 b en by auto
      have php: "same_php m m1" using t0 t1 by (blast intro: same_php_trans)
      show thesis
        using True t0 t1 e0 b t2 lead res php by (intro busy [where ?m1.0 = m1 and ?m2.0 = m2 and ?e1.0 = e1 and ?e2.0 = e2 and ?h1.0 = h1]) simp_all
    qed
  qed
qed

lemma try_reset_frame:
  assumes "perfidious_handle_try_reset os h m = (e, h', m')"
  shows "metrics h' = metrics h \<and> persist h' = persist h \<and> same_php m m' \<and>
    live (trace m') = live (trace m) \<and> (closes_live (trace m) \<longrightarrow> closes_live (trace m')) \<and>
    (flag_agrees h (trace m) \<longrightarrow> flag_agrees h' (trace m'))"
  using assms
proof (cases rule: try_reset_cases)
  case no_memory
  then show ?thesis by simp
next
  case not_disabled
  then show ?thesis by (simp add: flag_agrees_def)
next
  case (idle m0)
  note f = reset_at_boundary_frame [OF idle(4), where fd = "leader_fd h"]
  then have "leader_fd h' = leader_fd h" by (intro leader_fd_cong) simp
  with f idle show ?thesis by (auto simp: flag_agrees_def intro: same_php_trans)
next
  case (busy m1 e1 h1 m2 e2)
  note f = reset_at_boundary_frame [OF busy(5), where fd = "leader_fd h"]
  then have "leader_fd h1 = leader_fd h" by (simp add: leader_fd_def)
  with f busy show ?thesis
    by (auto simp: flag_agrees_def intro: same_php_trans)
qed

lemma try_reset_success:
  assumes agree: "flag_agrees h (trace m)"
    and ok: "perfidious_handle_try_reset os h m = (0, h', m')"
  defines "n \<equiv> perfidious_handle_read_buffer_size h" and "fd \<equiv> leader_fd h"
  shows "\<exists>m1 ws m2. same_php m m1 \<and> \<not> counting fd (trace m1) \<and>
    sys_read os fd (uint n) m1 = ((sint n, ws), m2) \<and>
    h' = h\<lparr>time_enabled_at_reset := rf_time_enabled (decode_read_format (length (metrics h)) ws),
           time_running_at_reset := rf_time_running (decode_read_format (length (metrics h)) ws)\<rparr> \<and>
    trace m' = (if enabled h then [EvIoctl fd PERF_EVENT_IOC_ENABLE 0 True] else [])
      @ [EvIoctl fd PERF_EVENT_IOC_RESET PERF_IOC_FLAG_GROUP True, EvRead fd (uint n) (sint n)]
      @ (if enabled h then [EvIoctl fd PERF_EVENT_IOC_DISABLE 0 True] else []) @ trace m"
  using ok
proof (cases rule: try_reset_cases)
  case (idle m0)
  from reset_at_boundary_run [OF idle(4)] idle(1-3) agree show ?thesis
    by (intro exI [of _ m0]) (auto simp: n_def fd_def flag_agrees_def Let_def split: if_splits)
next
  case (busy m1 e1 h1 m2 e2)
  have e: "e1 = 0" "e2 = 0" using busy(8) by (auto split: if_splits)
  have h: "h = h\<lparr>enabled := True\<rparr>" using busy(1) by simp
  have "\<not> counting fd (trace m1)" using busy(4) by (simp add: fd_def)
  with reset_at_boundary_run [OF busy(5)] busy e show ?thesis
    by (intro exI [of _ m1]) (auto simp: n_def fd_def Let_def switch_request_def split: if_splits intro: h)
qed simp_all

text \<open>When a reset fails, the baselines are the old ones, unless everything but the last step went
  well: then the group stays disabled and the flag says so.\<close>

lemma try_reset_failure:
  assumes "perfidious_handle_try_reset os h m = (e, h', m')" and "e \<noteq> 0"
  shows "(time_enabled_at_reset h' = time_enabled_at_reset h \<and>
      time_running_at_reset h' = time_running_at_reset h) \<or>
    (enabled h \<and> \<not> enabled h' \<and>
      (\<exists>t. trace m' = EvIoctl (leader_fd h) PERF_EVENT_IOC_ENABLE 0 False # t))"
  using assms(1)
proof (cases rule: try_reset_cases)
  case (idle m0)
  from reset_at_boundary_run [OF idle(4)] assms(2) show ?thesis
    by (auto simp: Let_def split: if_splits)
next
  case (busy m1 e1 h1 m2 e2)
  from reset_at_boundary_run [OF busy(5)] busy assms(2) show ?thesis
    by (auto simp: Let_def switch_request_def split: if_splits)
qed simp_all

section \<open>Reading stays in bounds and reports every named event\<close>

lemma length_fill_buffer [simp]: "length (fill_buffer n ws) = n"
  by (simp add: fill_buffer_def)

lemma length_value_id_pairs: "length (value_id_pairs ws) = length ws div 2"
  by (induction ws rule: value_id_pairs.induct) simp_all

lemma length_rf_values [simp]: "length (rf_values (decode_read_format c ws)) = c"
  by (simp add: decode_read_format_def Let_def length_value_id_pairs)

lemma read_values_in_bounds:
  "n \<le> length ms \<Longrightarrow> n \<le> length vs \<Longrightarrow> read_values os i n ms vs arr m \<noteq> Undefined"
  by (induction os i n ms vs arr m rule: read_values.induct) (auto split: option.splits prod.splits)

lemma read_in_bounds:
  assumes "\<And>ws m1. perfidious_handle_read_raw os h (perfidious_handle_read_buffer_size h) m
      = (Some ws, m1) \<Longrightarrow> unat (rf_nr (decode_read_format (length (metrics h)) ws)) \<le> length (metrics h)"
  shows "perfidious_handle_read_to_array_with_times os h m \<noteq> Undefined"
proof -
  obtain wso m1 where raw: "perfidious_handle_read_raw os h (perfidious_handle_read_buffer_size h) m
      = (wso, m1)" by fastforce
  show ?thesis
  proof (cases wso)
    case None
    with raw show ?thesis by (simp add: perfidious_handle_read_to_array_with_times_def)
  next
    case (Some ws)
    let ?d = "decode_read_format (length (metrics h)) ws"
    have "read_values os 0 (unat (rf_nr ?d)) (metrics h) (rf_values ?d) [] m1 \<noteq> Undefined"
      using assms [of ws m1] raw Some by (intro read_values_in_bounds) simp_all
    with raw Some show ?thesis
      by (auto simp: perfidious_handle_read_to_array_with_times_def Let_def
          split: cval.splits option.splits)
  qed
qed

text \<open>The group layout of \<open>perf_event_open(2)\<close>, as \<open>struct perfidious_read_format\<close> lays it out.\<close>

fun encode_values :: "(u64 \<times> u64) list \<Rightarrow> u64 list" where
  "encode_values [] = []"
| "encode_values ((v, i) # vs) = v # i # encode_values vs"

definition encode_read_format :: "perfidious_read_format \<Rightarrow> u64 list" where
  "encode_read_format f =
     rf_nr f # rf_time_enabled f # rf_time_running f # encode_values (rf_values f)"

lemma length_encode_values [simp]: "length (encode_values vs) = 2 * length vs"
  by (induction vs rule: encode_values.induct) simp_all

lemma value_id_pairs_encode [simp]: "value_id_pairs (encode_values vs) = vs"
  by (induction vs rule: encode_values.induct) simp_all

lemma decode_encode: "decode_read_format (length (rf_values f)) (encode_read_format f) = f"
  by (simp add: decode_read_format_def encode_read_format_def fill_buffer_def Let_def eval_nat_numeral)

lemma update_fresh: "k \<notin> fst ` set arr \<Longrightarrow> AList.update k v arr = arr @ [(k, v)]"
  by (induction arr) auto

lemma read_values_named:
  "map m_name ms = map Some names \<Longrightarrow> map snd vs = map m_id ms \<Longrightarrow>
     \<forall>v \<in> set vs. uint (fst v) < 2 ^ 63 \<Longrightarrow>
     distinct (map (os_symtable_key os) names) \<Longrightarrow>
     fst ` set arr \<inter> os_symtable_key os ` set names = {} \<Longrightarrow>
     read_values os (Suc i) (length ms) ms vs arr m =
       Ret (Some (arr @ zip (map (os_symtable_key os) names) (map (\<lambda>v. ZLong (uint (fst v))) vs)), m)"
proof (induction ms arbitrary: names vs arr i)
  case Nil
  then show ?case by simp
next
  case (Cons mt ms)
  obtain name names' where n: "names = name # names'" using Cons.prems(1) by (cases names) auto
  obtain v vid vs' where v: "vs = (v, vid) # vs'" using Cons.prems(2) by (cases vs) auto
  have fresh: "os_symtable_key os name \<notin> fst ` set arr" using Cons.prems(5) n by auto
  have "read_values os (Suc (Suc i)) (length ms) ms vs'
      (arr @ [(os_symtable_key os name, ZLong (uint v))]) m =
    Ret (Some ((arr @ [(os_symtable_key os name, ZLong (uint v))])
      @ zip (map (os_symtable_key os) names') (map (\<lambda>v. ZLong (uint (fst v))) vs')), m)"
    using Cons.prems n v by (intro Cons.IH) auto
  then show ?case using Cons.prems n v fresh by (simp add: u64_to_long.fits update_fresh)
qed

text \<open>A handle as opening leaves it: a nameless leader, then one metric per name.\<close>

definition named_group :: "string list \<Rightarrow> perfidious_handle \<Rightarrow> bool" where
  "named_group names h \<longleftrightarrow> map m_name (metrics h) = None # map Some names"

lemma read_named_group:
  assumes h: "named_group names h" and small: "length names \<le> PERFIDIOUS_MAX_EVENT_NAMES"
    and keys: "distinct (map (os_symtable_key os) names)"
    and raw: "perfidious_handle_read_raw os h (perfidious_handle_read_buffer_size h) m
      = (Some (encode_read_format f), m1)"
    and nr: "unat (rf_nr f) = length (metrics h)"
    and ids: "map snd (rf_values f) = map m_id (metrics h)"
    and fit: "\<forall>v \<in> set (tl (rf_values f)). uint (fst v) < 2 ^ 63"
  shows "perfidious_handle_read_to_array_with_times os h m =
    Ret (Some (zip (map (os_symtable_key os) names) (map (\<lambda>v. ZLong (uint (fst v))) (tl (rf_values f))),
      rf_time_enabled f, rf_time_running f), m1)"
proof -
  obtain ld ms where ms: "metrics h = ld # ms" "map m_name ms = map Some names"
    using h by (cases "metrics h") (auto simp: named_group_def)
  obtain lv vs where vs: "rf_values f = (lv, m_id ld) # vs" "map snd vs = map m_id ms"
    using ids ms by (cases "rf_values f") auto
  have len: "length (metrics h) = length (rf_values f)" using arg_cong [OF ids, of length] by simp
  have "read_values os 0 (length (metrics h)) (metrics h) (rf_values f) [] m1 =
      Ret (Some (zip (map (os_symtable_key os) names) (map (\<lambda>v. ZLong (uint (fst v))) vs)), m1)"
    using read_values_named [of ms names vs os "[]" 0 m1] ms vs fit keys by simp
  moreover have "decode_read_format (length (metrics h)) (encode_read_format f) = f"
    by (simp only: len decode_encode)
  ultimately show ?thesis
    using vs(1) by (simp add: perfidious_handle_read_to_array_with_times_def raw Let_def nr)
qed

text \<open>Reading makes one system call and keeps everything else but the error state.\<close>

lemma read_values_frame:
  "read_values os i n ms vs arr m = Ret (r, m') \<Longrightarrow>
     trace m' = trace m \<and> kernel m' = kernel m \<and> error_mode m' = error_mode m \<and>
     machine.more m' = machine.more m"
proof (induction os i n ms vs arr m rule: read_values.induct)
  case (2 os i n mt ms v vid vs arr m)
  then show ?case
    by (auto simp: perfidious_uint64_t_to_zend_long_def split: option.splits prod.splits if_splits)
qed auto

lemma read_raw_run:
  "perfidious_handle_read_raw os h n m = (r, m') \<Longrightarrow>
     \<exists>b. trace m' = EvRead (leader_fd h) (uint n) b # trace m \<and> same_php m m' \<and>
       (r \<noteq> None \<longleftrightarrow> b = sint n)"
  by (auto simp: perfidious_handle_read_raw_def dest!: sys_read_trace split: prod.splits if_splits)

lemma read_with_times_frame:
  "perfidious_handle_read_to_array_with_times os h m = Ret (r, m') \<Longrightarrow>
     (\<exists>b. trace m' = EvRead (leader_fd h) (uint (perfidious_handle_read_buffer_size h)) b # trace m) \<and>
     error_mode m' = error_mode m \<and> machine.more m' = machine.more m"
  by (auto simp: perfidious_handle_read_to_array_with_times_def Let_def same_php_def
      dest!: read_raw_run read_values_frame split: option.splits prod.splits cval.splits)

lemma to_zend_long_frame:
  "perfidious_uint64_t_to_zend_long v m = (r, m') \<Longrightarrow>
     trace m' = trace m \<and> error_mode m' = error_mode m \<and> machine.more m' = machine.more m"
  by (auto simp: perfidious_uint64_t_to_zend_long_def split: if_splits)

lemma read_to_array_frame:
  "perfidious_handle_read_to_array os h m = Ret (r, m') \<Longrightarrow>
     (\<exists>b. trace m' = EvRead (leader_fd h) (uint (perfidious_handle_read_buffer_size h)) b # trace m) \<and>
     error_mode m' = error_mode m \<and> machine.more m' = machine.more m"
  by (auto simp: perfidious_handle_read_to_array_def dest!: read_with_times_frame
      split: option.splits prod.splits cval.splits)

lemma read_to_result_frame:
  "perfidious_handle_read_to_result os h m = Ret (r, m') \<Longrightarrow>
     (\<exists>b. trace m' = EvRead (leader_fd h) (uint (perfidious_handle_read_buffer_size h)) b # trace m) \<and>
     error_mode m' = error_mode m \<and> machine.more m' = machine.more m"
  by (fastforce simp: perfidious_handle_read_to_result_def
      dest!: read_with_times_frame to_zend_long_frame
      split: option.splits prod.splits cval.splits)

lemma read_undefined_iff:
  "perfidious_handle_read_to_array os h m = Undefined \<longleftrightarrow>
     perfidious_handle_read_to_array_with_times os h m = Undefined"
  "perfidious_handle_read_to_result os h m = Undefined \<longleftrightarrow>
     perfidious_handle_read_to_array_with_times os h m = Undefined"
  by (auto simp: perfidious_handle_read_to_array_def perfidious_handle_read_to_result_def
      split: option.splits prod.splits cval.splits)

section \<open>What is opened\<close>

text \<open>An event the opening code asks the kernel for counts user space only, reports in the group
  format, and is either the disabled leader or an enabled member of the leader's group.\<close>

fun group_event :: "int \<Rightarrow> int \<Rightarrow> int \<Rightarrow> linux_event \<Rightarrow> bool" where
  "group_event pid cpu leader (EvPerfEventOpen a p c g r) =
     (p = pid \<and> c = cpu \<and> pe_exclude_kernel a \<and> pe_exclude_hv a \<and> \<not> pe_watermark a \<and>
      pe_read_format a = group_read_format \<and>
      (if g = -1 then pe_disabled a else g = leader \<and> \<not> pe_disabled a))"
| "group_event pid cpu leader (EvIoctl fd r flags ok) = False"
| "group_event pid cpu leader ev = True"

lemma member_attr_simps [simp]:
  "pe_exclude_kernel (member_attr a)" "pe_exclude_hv (member_attr a)" "\<not> pe_watermark (member_attr a)"
  "\<not> pe_disabled (member_attr a)" "pe_read_format (member_attr a) = group_read_format"
  by (simp_all add: member_attr_def)

lemma open_events_group:
  "open_events os names pid cpu g h m = (eo, h', m') \<Longrightarrow> 0 \<le> g \<Longrightarrow>
     \<exists>new. trace m' = new @ trace m \<and> (\<forall>ev \<in> set new. group_event pid cpu g ev)"
proof (induction names arbitrary: h m)
  case Nil
  then show ?case by simp
next
  case (Cons name names)
  obtain err attr where enc: "os_pfm_encoding os (c_str name) = (err, attr)" by fastforce
  obtain r m1 where op: "sys_perf_event_open os (member_attr attr) pid cpu g m = (r, m1)" by fastforce
  from sys_perf_event_open_trace [OF op] obtain x where t1:
    "trace m1 = EvPerfEventOpen (member_attr attr) pid cpu g x # trace m" by blast
  obtain i m2 where io: "sys_ioctl_id os r m1 = (i, m2)" by fastforce
  obtain ok m3 where cl: "sys_close os r m2 = (ok, m3)" by fastforce
  note t2 = sys_ioctl_id_trace [OF io] and t3 = sys_close_trace [OF cl]
  show ?case
  proof (cases "err = PFM_SUCCESS \<and> r \<noteq> -1 \<and> i \<noteq> None")
    case False
    then have "m' = m \<or> m' = m1 \<or> m' = m3"
      using Cons.prems(1) enc op io cl by (auto split: if_splits)
    with t1 t2 t3 Cons.prems(2) show ?thesis by auto
  next
    case True
    then obtain eid where eid: "i = Some eid" by auto
    then have "open_events os names pid cpu g
        (h\<lparr>metrics := metrics h @ [\<lparr>m_fd = r, m_id = eid, m_name = Some name\<rparr>]\<rparr>) m2 = (eo, h', m')"
      using Cons.prems(1) enc op io True by simp
    from Cons.IH [OF this Cons.prems(2)] t1 t2 Cons.prems(2) show ?thesis by auto
  qed
qed

lemma try_open_ex_group:
  assumes "perfidious_handle_try_open_ex os names pid cpu p m = (r, m')"
  shows "\<exists>new leader x. trace m' = new @ EvPerfEventOpen dummy_attr pid cpu (-1) x # trace m \<and>
    (\<forall>ev \<in> set new. group_event pid cpu leader ev) \<and>
    (\<forall>h. r = Inr h \<longrightarrow> leader = leader_fd h \<and> x \<noteq> None)"
proof -
  obtain f m1 where op: "sys_perf_event_open os dummy_attr pid cpu (-1) m = (f, m1)" by fastforce
  from sys_perf_event_open_trace [OF op] obtain x where x: "f = fd_of x"
    "trace m1 = EvPerfEventOpen dummy_attr pid cpu (-1) x # trace m" by blast
  obtain i m2 where io: "sys_ioctl_id os f m1 = (i, m2)" by fastforce
  obtain ok m3 where cl: "sys_close os f m2 = (ok, m3)" by fastforce
  note t2 = sys_ioctl_id_trace [OF io] and t3 = sys_close_trace [OF cl]
  show ?thesis
  proof (cases "x \<noteq> None \<and> i \<noteq> None")
    case False
    then have "(m' = m1 \<or> m' = m3) \<and> (\<exists>e. r = Inl e)"
      using assms op io cl x
      by (auto simp: perfidious_handle_try_open_ex_def perfidious_handle_try_close_def
          new_handle_def Let_def split: if_splits)
    with x t2 t3 show ?thesis by auto
  next
    case True
    then obtain fd eid where s: "x = Some fd" "i = Some eid" by auto
    let ?h = "(new_handle p)\<lparr>metrics := [\<lparr>m_fd = f, m_id = eid, m_name = None\<rparr>]\<rparr>"
    obtain eo h1 m4 where ev: "open_events os names pid cpu f ?h m2 = (eo, h1, m4)"
      by (metis prod_cases3)
    from open_events_group [OF ev] x s obtain new where
      new: "trace m4 = new @ trace m2" "\<forall>ev \<in> set new. group_event pid cpu f ev" by auto
    from open_events_run [OF ev] have lead: "leader_fd h1 = f" by (auto simp: leader_fd_def)
    obtain ce m5 where c: "perfidious_handle_try_close os h1 m4 = (ce, m5)" by fastforce
    from try_close_run [OF c] obtain oks where
      "trace m5 = close_events (rev (handle_fds h1)) oks @ trace m4" by blast
    moreover have "group_event pid cpu f ev" if "ev \<in> set (close_events fds oks)" for ev fds oks
      using that by (auto simp: close_events_def)
    moreover have "r = Inr h1 \<and> m' = m4 \<or> (\<exists>e. r = Inl e) \<and> m' = m5"
      using assms op io x s ev c
      by (cases eo) (auto simp: perfidious_handle_try_open_ex_def Let_def new_handle_def)
    ultimately show ?thesis
      using new x t2 lead s by (auto intro!: exI [of _ f])
  qed
qed

section \<open>The size of the read buffer\<close>

lemma read_buffer_size_exact:
  assumes "length (metrics h) \<le> PERFIDIOUS_MAX_EVENT_NAMES + 1"
  shows "uint (perfidious_handle_read_buffer_size h) = 24 + 16 * int (length (metrics h))"
    and "sint (perfidious_handle_read_buffer_size h) = 24 + 16 * int (length (metrics h))"
proof -
  let ?c = "length (metrics h)"
  have "unat (perfidious_handle_read_buffer_size h) = 24 + 16 * ?c"
    using assms
    by (simp add: perfidious_handle_read_buffer_size_def PERFIDIOUS_MAX_EVENT_NAMES_def
        unat_word_ariths unat_of_nat)
  then show u: "uint (perfidious_handle_read_buffer_size h) = 24 + 16 * int ?c"
    by (simp add: uint_nat)
  show "sint (perfidious_handle_read_buffer_size h) = 24 + 16 * int ?c"
    using assms u by (subst sint_eq_uint_64) (simp_all add: PERFIDIOUS_MAX_EVENT_NAMES_def)
qed

text \<open>What \<open>perf_event_open(2)\<close> documents of a group read: it returns all the data, 24 bytes and 16
  for each of the \<open>nr\<close> events, or fails. Reads of more than 24 bytes are group reads in this
  program.\<close>

definition group_read_contract :: "'k linux_os \<Rightarrow> bool" where
  "group_read_contract os \<longleftrightarrow>
     (\<forall>fd n k b ws e k'. os_read os fd n k = ((b, ws), e, k') \<and> b = n \<and> 24 < n \<longrightarrow>
        ws \<noteq> [] \<and> n = 24 + 16 * uint (hd ws))"

lemma rf_nr_decode: "ws \<noteq> [] \<Longrightarrow> rf_nr (decode_read_format c ws) = hd ws"
  by (cases ws) (simp_all add: decode_read_format_def fill_buffer_def Let_def eval_nat_numeral)

lemma read_defined:
  assumes "group_read_contract os" and "metrics h \<noteq> []"
    and "length (metrics h) \<le> PERFIDIOUS_MAX_EVENT_NAMES + 1"
  shows "perfidious_handle_read_to_array_with_times os h m \<noteq> Undefined"
proof (rule read_in_bounds)
  fix ws m1
  assume raw: "perfidious_handle_read_raw os h (perfidious_handle_read_buffer_size h) m = (Some ws, m1)"
  let ?n = "24 + 16 * int (length (metrics h))"
  from raw obtain e k where "os_read os (leader_fd h) ?n (kernel m) = ((?n, ws), e, k)"
    by (auto simp: perfidious_handle_read_raw_def sys_read_def read_buffer_size_exact [OF assms(3)]
        split: prod.splits if_splits)
  with assms(1,2) have "ws \<noteq> []" "?n = 24 + 16 * uint (hd ws)"
    unfolding group_read_contract_def by fastforce+
  then show "unat (rf_nr (decode_read_format (length (metrics h)) ws)) \<le> length (metrics h)"
    by (simp add: rf_nr_decode) (metis nat_int order_refl unat_eq_nat_uint)
qed

end
