(* ===== verification/Demo_Os.thy ===== *)
theory Demo_Os
  imports Handle
begin

text \<open>
  A small concrete system for evaluating the model: descriptors are numbered upwards from
  \<open>d_next\<close> until \<open>d_limit\<close>, event ids are ten times the descriptor, and a group read returns
  one value per member. The flags choose which calls fail. It satisfies the documented contract
  of group reads.
\<close>

record demo =
  d_next :: nat
  d_limit :: nat
  d_pid :: int
  d_ioctl_ok :: bool
  d_close_ok :: bool
  d_short_read :: bool

definition demo_attr :: perf_event_attr where
  "demo_attr = \<lparr>pe_type = 0, pe_config = 1, pe_disabled = True, pe_watermark = True,
     pe_exclude_kernel = False, pe_exclude_hv = False, pe_read_format = 0, pe_rest = []\<rparr>"

fun demo_values :: "int \<Rightarrow> nat \<Rightarrow> u64 list" where
  "demo_values fd 0 = []"
| "demo_values fd (Suc n) = [1000, word_of_int (10 * fd)] @ demo_values (fd + 1) n"

definition demo_read :: "int \<Rightarrow> int \<Rightarrow> demo \<Rightarrow> (int \<times> u64 list) \<times> int option \<times> demo" where
  "demo_read fd n k =
     (if d_short_read k then ((0, []), None, k)
      else if n < 24 \<or> 65536 < n \<or> n mod 16 \<noteq> 8 then ((-1, []), Some EINVAL, k)
      else ((n, [word_of_int ((n - 24) div 16), 500, 400] @ demo_values fd (nat ((n - 24) div 16))), None, k))"

definition demo_open :: "demo \<Rightarrow> nat option \<times> int option \<times> demo" where
  "demo_open k =
     (if d_next k < d_limit k then (Some (d_next k), None, k\<lparr>d_next := Suc (d_next k)\<rparr>)
      else (None, Some 24, k))"

definition demo_os :: "demo linux_os" where
  "demo_os = \<lparr>
     os_perf_event_open = (\<lambda>attr pid cpu g k. demo_open k),
     os_ioctl = (\<lambda>fd r flags k. (d_ioctl_ok k, if d_ioctl_ok k then None else Some EINVAL, k)),
     os_ioctl_id = (\<lambda>fd k. (Some (word_of_int (10 * fd)), None, k)),
     os_read = demo_read,
     os_close = (\<lambda>fd k. (d_close_ok k, if d_close_ok k then None else Some EIO, k)),
     os_dupfd_cloexec = (\<lambda>fd k. demo_open k),
     os_malloc = (\<lambda>n k. (True, k)),
     os_stream_from_fd = (\<lambda>fd k. (True, k)),
     os_gettid = d_pid,
     os_getpid = d_pid,
     os_hrtime = (\<lambda>k. (7, k)),
     os_strerror = (\<lambda>e. ''error ''),
     os_pfm_encoding = (\<lambda>s. (if s = ''bad'' then PFM_ERR_NOTFOUND else PFM_SUCCESS, demo_attr)),
     os_pfm_strerror = (\<lambda>e. ''not found''),
     os_symtable_key = KStr,
     os_pfm_initialize = PFM_SUCCESS,
     os_cap_get_proc = (\<lambda>k. (True, None, k)),
     os_cap_get_flag = (\<lambda>k. (Some False, None, k)),
     os_cap_free = (\<lambda>k. (True, None, k))\<rparr>"

definition demo_kernel :: demo where
  "demo_kernel = \<lparr>d_next = 3, d_limit = 9, d_pid = 77, d_ioctl_ok = True, d_close_ok = True,
     d_short_read = False\<rparr>"

definition demo_machine :: "(demo, linux_event) machine" where
  "demo_machine = \<lparr>kernel = demo_kernel, errno = 0, trace = [], exceptions = [], warnings = [],
     error_mode = PERFIDIOUS_ERROR_MODE_THROW\<rparr>"

text \<open>A group as opening the events \<open>a\<close> and \<open>b\<close> leaves it.\<close>

definition demo_handle :: perfidious_handle where
  "demo_handle = \<lparr>metrics = [\<lparr>m_fd = 3, m_id = 30, m_name = None\<rparr>,
       \<lparr>m_fd = 4, m_id = 40, m_name = Some ''a''\<rparr>, \<lparr>m_fd = 5, m_id = 50, m_name = Some ''b''\<rparr>],
     enabled = False, persist = False, time_enabled_at_reset = 0, time_running_at_reset = 0\<rparr>"

text \<open>The machine after the group was enabled.\<close>

definition demo_counting :: "(demo, linux_event) machine" where
  "demo_counting = demo_machine\<lparr>trace := [EvIoctl 3 PERF_EVENT_IOC_ENABLE 0 True]\<rparr>"

lemma demo_values_3: "demo_values fd 3 = [1000, word_of_int (10 * fd), 1000, word_of_int (10 * (fd + 1)),
    1000, word_of_int (10 * (fd + 1 + 1))]"
  by (simp add: numeral_3_eq_3)

lemma demo_group_read: "group_read_contract demo_os"
  unfolding group_read_contract_def
proof (intro allI impI)
  fix fd n k b ws e k'
  assume a: "os_read demo_os fd n k = ((b, ws), e, k') \<and> b = n \<and> 24 < n"
  then have r: "demo_read fd n k = ((n, ws), e, k')" and n: "24 < n" by (auto simp: demo_os_def)
  then have m: "n mod 16 = 8" "n \<le> 65536" and ws: "ws \<noteq> []" "hd ws = word_of_int ((n - 24) div 16)"
    by (auto simp: demo_read_def split: if_splits)
  have "0 \<le> (n - 24) div 16" "(n - 24) div 16 < 2 ^ 64" using n m(2) by simp_all
  then have "uint (hd ws) = (n - 24) div 16"
    unfolding ws(2) by (rule uint_of_int_64)
  moreover have "16 * ((n - 24) div 16) = n - 24" using m(1) by presburger
  ultimately show "ws \<noteq> [] \<and> n = 24 + 16 * uint (hd ws)" using ws(1) by simp
qed

end
