(* ===== verification/Handle_Properties.thy ===== *)
theory Handle_Properties
  imports Demo_Os
begin

text \<open>
  The properties of the native handle (\<open>src/handle.c\<close>), each with an evaluation on the concrete
  system of \<open>Demo_Os\<close> where it has hypotheses.
\<close>

lemmas demo_defs = demo_os_def demo_machine_def demo_kernel_def demo_open_def demo_read_def
  demo_attr_def demo_handle_def

lemmas run_defs = sys_perf_event_open_def sys_ioctl_def sys_ioctl_id_def sys_read_def sys_close_def
  sys_malloc_def called_def new_handle_def c_str_def PFM_SUCCESS_def PFM_ERR_NOTFOUND_def

section \<open>Opening and closing\<close>

text \<open>C14 (open_all_or_nothing). Opening a group either fails with an error record and leaves
  exactly the descriptors open that were open before, or returns a disabled handle with a
  nameless leader followed by one metric per requested name, whose descriptors are exactly what
  was opened. It never closes a descriptor that is not open and never raises an exception or a
  warning itself.\<close>

theorem open_all_or_nothing:
  assumes "perfidious_handle_try_open_ex os names pid cpu p m = (r, m')" and "closes_live (trace m)"
  shows "closes_live (trace m') \<and> exceptions m' = exceptions m \<and> warnings m' = warnings m \<and>
    (case r of
       Inl e \<Rightarrow> live (trace m') = live (trace m) \<and> exception_ce e \<noteq> None
     | Inr h \<Rightarrow> live (trace m') = live (trace m) + mset (handle_fds h) \<and>
         map m_name (metrics h) = None # map Some names \<and> \<not> enabled h \<and> persist h = p)"
  using try_open_ex_run [OF assms(1)] assms(2) by (auto simp: same_php_def split: sum.splits)

theorem open_all_or_nothing_witness:
  "live (trace (snd (perfidious_handle_try_open_ex demo_os [''a'', ''bad''] 0 (-1) False demo_machine))) = {#} \<and>
   length (trace (snd (perfidious_handle_try_open_ex demo_os [''a'', ''bad''] 0 (-1) False demo_machine))) = 6"
proof -
  obtain r m' where run: "perfidious_handle_try_open_ex demo_os [''a'', ''bad''] 0 (-1) False demo_machine
      = (r, m')" by fastforce
  then have "\<exists>e. r = Inl e" and len: "length (trace m') = 6"
    by (auto simp: perfidious_handle_try_open_ex_def perfidious_handle_try_close_def demo_defs run_defs Let_def)
  moreover have "closes_live (trace demo_machine)" "live (trace demo_machine) = {#}"
    by (simp_all add: demo_machine_def)
  ultimately show ?thesis using open_all_or_nothing [OF run] run by auto
qed

text \<open>Every event that opening asks the kernel for is for
  the given process and CPU, counts user space only, reports in the group format with ids and
  both times, and is either the disabled leader, asked for first, or an enabled member of the
  leader's group; opening switches nothing on or off.\<close>

lemma open_asks_for_user_space_group:
  assumes "perfidious_handle_try_open_ex os names pid cpu p m = (r, m')"
  shows "(\<exists>new leader x. trace m' = new @ EvPerfEventOpen dummy_attr pid cpu (-1) x # trace m \<and>
    (\<forall>ev \<in> set new. group_event pid cpu leader ev) \<and>
    (\<forall>h. r = Inr h \<longrightarrow> leader = leader_fd h \<and> x \<noteq> None)) \<and>
    pe_disabled dummy_attr \<and> pe_exclude_kernel dummy_attr \<and> pe_exclude_hv dummy_attr \<and>
    pe_read_format dummy_attr = group_read_format \<and> group_read_format = 15"
proof -
  have "pe_disabled dummy_attr" "pe_exclude_kernel dummy_attr" "pe_exclude_hv dummy_attr"
    "pe_read_format dummy_attr = group_read_format" "group_read_format = 15"
    by (simp_all add: dummy_attr_def group_read_format_def PERF_FORMAT_GROUP_def PERF_FORMAT_ID_def
        PERF_FORMAT_TOTAL_TIME_RUNNING_def PERF_FORMAT_TOTAL_TIME_ENABLED_def)
  with try_open_ex_group [OF assms] show ?thesis by blast
qed

text \<open>Closing a handle closes each of its descriptors exactly
  once, from the last to the first, whatever the individual calls return; it succeeds exactly when
  every call does, and afterwards none of the handle's descriptors is open.\<close>

lemma close_releases_in_reverse:
  assumes "perfidious_handle_try_close os h m = (e, m')"
  shows "\<exists>oks. length oks = length (metrics h) \<and>
    trace m' = rev (map2 EvClose (rev (handle_fds h)) oks) @ trace m \<and> (e = 0 \<longleftrightarrow> False \<notin> set oks) \<and>
    live (trace m') = live (trace m) - mset (handle_fds h) \<and> exceptions m' = exceptions m"
proof -
  from assms obtain oks where "length oks = length (metrics h)"
    "trace m' = close_events (rev (handle_fds h)) oks @ trace m" "same_php m m'"
    "e = 0 \<longleftrightarrow> False \<notin> set oks" by (rule try_close_run)
  moreover have "live (trace m') = live (trace m) - mset (handle_fds h)"
    using try_close_live [OF assms] by simp
  ultimately show ?thesis by (auto simp: close_events_def same_php_def intro!: exI [of _ oks])
qed

text \<open>The error that closing reports is the one of the first call
  that failed: later failures do not replace it.\<close>

lemma close_reports_first_error:
  assumes "sys_close os (m_fd mt) m = (False, m1)" and "metrics h = mets @ [mt]"
  shows "fst (perfidious_handle_try_close os h m) = errno_or_eio m1"
  using assms close_metrics_keeps_error [OF errno_or_eio_nonzero, of os "rev mets" m1 m1]
  by (simp add: perfidious_handle_try_close_def)

section \<open>Switching and resetting\<close>

text \<open>C18 (flag_follows_kernel). The flag \<open>enabled\<close> of a handle says whether the leader counts
  according to the system calls that succeeded: enabling, disabling and resetting keep the two in
  agreement on every path, failures included.\<close>

theorem flag_follows_kernel:
  assumes "flag_agrees h (trace m)"
  shows "(case perfidious_handle_enable os h m of (r, h', m') \<Rightarrow> flag_agrees h' (trace m')) \<and>
    (case perfidious_handle_disable os h m of (r, h', m') \<Rightarrow> flag_agrees h' (trace m')) \<and>
    (case perfidious_handle_reset os h m of (r, h', m') \<Rightarrow> flag_agrees h' (trace m'))"
proof -
  have set: "flag_agrees h1 (trace m1)"
    if "perfidious_handle_try_set_enabled os h b m = (e, h1, m1)" for b e h1 m1
    using try_set_enabled_run [OF that] assms by (auto simp: flag_agrees_def)
  have report: "trace m2 = trace m1" if "perfidious_handle_report_ioctl_result os e m1 = (r, m2)"
    for e m1 r m2
    using that by (auto simp: perfidious_handle_report_ioctl_result_def perfidious_handle_ioctl_error_def
        split: if_splits)
  have "flag_agrees h' (trace m')" if "perfidious_handle_enable os h m = (r, h', m')" for r h' m'
    using that assms report set by (fastforce simp: perfidious_handle_enable_def split: prod.splits if_splits)
  moreover have "flag_agrees h' (trace m')" if "perfidious_handle_disable os h m = (r, h', m')" for r h' m'
    using that assms report set by (fastforce simp: perfidious_handle_disable_def split: prod.splits if_splits)
  moreover have "flag_agrees h' (trace m')" if r: "perfidious_handle_reset os h m = (r, h', m')" for r h' m'
  proof -
    obtain e h1 m1 where t: "perfidious_handle_try_reset os h m = (e, h1, m1)" by (metis prod_cases3)
    with r assms have "h' = h \<and> m' = m \<or> h' = h1 \<and> trace m' = trace m1"
      by (auto simp: perfidious_handle_reset_def split: if_splits)
    with try_reset_frame [OF t] assms show ?thesis by auto
  qed
  ultimately show ?thesis by (simp split: prod.split)
qed

theorem flag_follows_kernel_witness:
  "flag_agrees demo_handle [] \<and>
   (case perfidious_handle_enable demo_os demo_handle demo_machine of (r, h', m') \<Rightarrow>
      enabled h' \<and> flag_agrees h' (trace m'))"
proof -
  have "flag_agrees demo_handle (trace demo_machine)" "trace demo_machine = []"
    by (simp_all add: flag_agrees_def demo_handle_def demo_machine_def)
  moreover have "enabled (fst (snd (perfidious_handle_enable demo_os demo_handle demo_machine)))"
    by (simp add: perfidious_handle_enable_def perfidious_handle_try_set_enabled_def
        perfidious_handle_try_ioctl_def perfidious_handle_report_ioctl_result_def Let_def
        demo_defs run_defs)
  ultimately show ?thesis
    using flag_follows_kernel [of demo_handle demo_machine demo_os] by (auto split: prod.splits)
qed

text \<open>C17 (reset_at_disabled_boundary). A successful reset reads the group's times while it is not
  counting, resets the counts of the whole group at the same boundary, keeps those times as the new
  baselines, and leaves the group counting exactly if it was before; it changes nothing else of
  the handle.\<close>

theorem reset_at_disabled_boundary:
  assumes "flag_agrees h (trace m)" and "perfidious_handle_try_reset os h m = (0, h', m')"
  shows "\<exists>m1 ws m2. same_php m m1 \<and> \<not> counting (leader_fd h) (trace m1) \<and>
    sys_read os (leader_fd h) (uint (perfidious_handle_read_buffer_size h)) m1
      = ((sint (perfidious_handle_read_buffer_size h), ws), m2) \<and>
    h' = h\<lparr>time_enabled_at_reset := rf_time_enabled (decode_read_format (length (metrics h)) ws),
           time_running_at_reset := rf_time_running (decode_read_format (length (metrics h)) ws)\<rparr> \<and>
    trace m' = (if enabled h then [EvIoctl (leader_fd h) PERF_EVENT_IOC_ENABLE 0 True] else [])
      @ [EvIoctl (leader_fd h) PERF_EVENT_IOC_RESET PERF_IOC_FLAG_GROUP True,
         EvRead (leader_fd h) (uint (perfidious_handle_read_buffer_size h))
           (sint (perfidious_handle_read_buffer_size h))]
      @ (if enabled h then [EvIoctl (leader_fd h) PERF_EVENT_IOC_DISABLE 0 True] else []) @ trace m"
  by (rule try_reset_success [OF assms])

text \<open>When a reset fails, the baselines are the old ones,
  unless everything but enabling the group again went well: then the group stays disabled and the
  flag says so. The descriptors, their names and their open state are untouched either way.\<close>

lemma reset_failure_keeps_baselines:
  assumes "perfidious_handle_try_reset os h m = (e, h', m')" and "e \<noteq> 0"
  shows "metrics h' = metrics h \<and> live (trace m') = live (trace m) \<and>
    ((time_enabled_at_reset h' = time_enabled_at_reset h \<and>
      time_running_at_reset h' = time_running_at_reset h) \<or>
     (enabled h \<and> \<not> enabled h' \<and>
      (\<exists>t. trace m' = EvIoctl (leader_fd h) PERF_EVENT_IOC_ENABLE 0 False # t)))"
  using try_reset_failure [OF assms] try_reset_frame [OF assms(1)] by blast

lemmas reset_defs = perfidious_handle_try_reset_def perfidious_handle_try_set_enabled_def
  perfidious_handle_try_ioctl_def reset_at_boundary_def perfidious_handle_read_buffer_size_def
  leader_fd_def decode_read_format_def fill_buffer_def errno_or_eio_def

theorem reset_at_disabled_boundary_witness:
  "\<exists>h' m' ws. perfidious_handle_try_reset demo_os (demo_handle\<lparr>enabled := True\<rparr>) demo_counting = (0, h', m') \<and>
     enabled h' \<and> rf_time_enabled (decode_read_format 3 ws) = time_enabled_at_reset h' \<and>
     length (trace m') = 5"
proof -
  let ?h = "demo_handle\<lparr>enabled := True\<rparr>"
  have "flag_agrees ?h (trace demo_counting)"
    by (simp add: flag_agrees_def demo_counting_def demo_handle_def leader_fd_def)
  moreover obtain h' m' where run: "perfidious_handle_try_reset demo_os ?h demo_counting = (0, h', m')"
    by (simp add: reset_defs Let_def demo_counting_def demo_defs run_defs)
  ultimately obtain ws where
    "h' = ?h\<lparr>time_enabled_at_reset := rf_time_enabled (decode_read_format (length (metrics ?h)) ws),
           time_running_at_reset := rf_time_running (decode_read_format (length (metrics ?h)) ws)\<rparr>"
    "length (trace m') = 5"
    using reset_at_disabled_boundary [of ?h demo_counting demo_os h' m']
    by (auto simp: demo_counting_def)
  with run show ?thesis by (auto simp: demo_handle_def numeral_3_eq_3)
qed

section \<open>Reading\<close>

text \<open>C15 (read_never_out_of_bounds). Reading a handle that opening can produce, at most a thousand
  events behind the leader, never indexes past its metrics or past the buffer, whatever values and
  ids the kernel returns, as long as a full group read announces as many events as it has room
  for.\<close>

theorem read_never_out_of_bounds:
  assumes "group_read_contract os" and "metrics h \<noteq> []"
    and "length (metrics h) \<le> PERFIDIOUS_MAX_EVENT_NAMES + 1"
  shows "perfidious_handle_read_to_array_with_times os h m \<noteq> Undefined \<and>
    perfidious_handle_read_to_array os h m \<noteq> Undefined \<and>
    perfidious_handle_read_to_result os h m \<noteq> Undefined"
  using read_defined [OF assms] by (simp add: read_undefined_iff)

theorem read_never_out_of_bounds_witness:
  "perfidious_handle_read_to_array demo_os demo_handle demo_machine \<noteq> Undefined"
  using read_never_out_of_bounds [OF demo_group_read, of demo_handle demo_machine]
  by (simp add: demo_handle_def PERFIDIOUS_MAX_EVENT_NAMES_def)



text \<open>Decoding the buffer of a group read recovers what the kernel's
  layout encodes: the number of events, the two times, and every value with its id.\<close>

lemma read_format_round_trip:
  "decode_read_format (length (rf_values f)) (encode_read_format f) = f"
  by (rule decode_encode)

text \<open>The size of the read buffer of a handle with at most a
  thousand events behind the leader is 24 bytes and 16 per metric, computed without
  wrap-around, and reads the same as an unsigned size and as a signed byte count.\<close>

lemma read_buffer_never_wraps:
  assumes "length (metrics h) \<le> PERFIDIOUS_MAX_EVENT_NAMES + 1"
  shows "uint (perfidious_handle_read_buffer_size h) = 24 + 16 * int (length (metrics h)) \<and>
    sint (perfidious_handle_read_buffer_size h) = uint (perfidious_handle_read_buffer_size h)"
  using read_buffer_size_exact [OF assms] by simp

text \<open>C39 (short_read_reports_stale_errno). When the kernel returns fewer bytes than asked without
  failing, reading fails with an \<open>IOException\<close> whose code is whatever \<open>errno\<close> held before the
  call, zero included: the call did not set it. (A reset in the same situation reports \<open>EIO\<close>.)\<close>

theorem short_read_reports_stale_errno:
  assumes "os_read os (leader_fd h) (uint (perfidious_handle_read_buffer_size h)) (kernel m) = ((n, ws), None, k)"
    and "0 \<le> n" and "n \<noteq> sint (perfidious_handle_read_buffer_size h)"
    and "error_mode m = PERFIDIOUS_ERROR_MODE_THROW"
  shows "\<exists>m1. perfidious_handle_read_to_array_with_times os h m = Ret (None, m1) \<and>
    ex_class (hd (exceptions m1)) = IOException \<and> ex_code (hd (exceptions m1)) = errno m \<and>
    fst (reset_at_boundary os (perfidious_handle_read_buffer_size h) h m) = EIO"
  using assms
  by (simp add: perfidious_handle_read_to_array_with_times_def perfidious_handle_read_raw_def
      sys_read_def perfidious_error_helper_throw reset_at_boundary_def)

theorem short_read_reports_stale_errno_witness:
  "\<exists>m1. perfidious_handle_read_to_array_with_times demo_os demo_handle
      (demo_machine\<lparr>kernel := demo_kernel\<lparr>d_short_read := True\<rparr>\<rparr>) = Ret (None, m1) \<and>
    ex_code (hd (exceptions m1)) = 0"
  using short_read_reports_stale_errno [of demo_os demo_handle
      "demo_machine\<lparr>kernel := demo_kernel\<lparr>d_short_read := True\<rparr>\<rparr>" 0 "[]"
      "demo_kernel\<lparr>d_short_read := True\<rparr>"]
  by (auto simp: demo_defs perfidious_handle_read_buffer_size_def)

end
