(* ===== verification/Handle_Object.thy ===== *)
theory Handle_Object
  imports Handle
begin

text \<open>
  The PHP side of \<open>src/handle.c\<close>: the class \<open>Handle\<close>, its objects and methods. Native
  handles live in a heap of allocations, objects point into it, and an object either owns the
  handle it points to or borrows the one of the request. Following a pointer to an allocation
  that was released gives \<open>Undefined\<close>.
\<close>

section \<open>The process: allocations, objects, streams and module globals\<close>

record perfidious_handle_obj =
  obj_handle :: "nat option"
  borrowed :: bool

text \<open>The machine of one PHP thread with the extension's state. Addresses are never used twice,
  so a pointer to a released allocation stays dangling. \<open>streams\<close> holds the descriptors owned by
  PHP streams. The remaining fields are the module globals of \<open>php_perfidious.h\<close>; the error mode
  is part of the machine.\<close>

record 'k process = "('k, linux_event) machine" +
  heap :: "nat \<rightharpoonup> perfidious_handle"
  next_addr :: nat
  objects :: "nat \<rightharpoonup> perfidious_handle_obj"
  next_object :: nat
  streams :: "int multiset"
  request_enable :: bool
  request_metrics :: "string option"
  request_handle :: "nat option"
  request_handle_pid :: zend_long
  request_handle_ready :: bool
  request_handle_error :: perfidious_error

lemma same_php_process:
  fixes p p' :: "'k process"
  assumes "same_php p p'"
  shows "heap p' = heap p" "next_addr p' = next_addr p" "objects p' = objects p"
    "next_object p' = next_object p" "streams p' = streams p"
    "request_enable p' = request_enable p" "request_metrics p' = request_metrics p"
    "request_handle p' = request_handle p" "request_handle_pid p' = request_handle_pid p"
    "request_handle_ready p' = request_handle_ready p"
    "request_handle_error p' = request_handle_error p"
    "exceptions p' = exceptions p" "warnings p' = warnings p" "error_mode p' = error_mode p"
  using assms by (cases p; cases p'; simp add: same_php_def)+

text \<open>A native function that updates the handle behind a pointer, and one that releases it.\<close>

definition at_handle ::
  "nat \<Rightarrow> (perfidious_handle \<Rightarrow> 'k process \<Rightarrow> 'r \<times> perfidious_handle \<times> 'k process)
    \<Rightarrow> 'k process \<Rightarrow> ('r \<times> 'k process) cval" where
  "at_handle a f p =
     (case heap p a of
        None \<Rightarrow> Undefined
      | Some h \<Rightarrow> (case f h p of (r, h', p') \<Rightarrow> Ret (r, p'\<lparr>heap := (heap p')(a \<mapsto> h')\<rparr>)))"

definition release_handle ::
  "nat \<Rightarrow> (perfidious_handle \<Rightarrow> 'k process \<Rightarrow> 'r \<times> 'k process) \<Rightarrow> 'k process \<Rightarrow> ('r \<times> 'k process) cval" where
  "release_handle a f p =
     (case heap p a of
        None \<Rightarrow> Undefined
      | Some h \<Rightarrow> (case f h p of (r, p') \<Rightarrow> Ret (r, p'\<lparr>heap := (heap p')(a := None)\<rparr>)))"

definition with_handle ::
  "nat \<Rightarrow> (perfidious_handle \<Rightarrow> 'k process \<Rightarrow> ('r \<times> 'k process) cval) \<Rightarrow> 'k process \<Rightarrow> ('r \<times> 'k process) cval" where
  "with_handle a f p = (case heap p a of None \<Rightarrow> Undefined | Some h \<Rightarrow> f h p)"

text \<open>\<open>pecalloc\<close> of a handle that opening returns.\<close>

definition alloc_handle :: "perfidious_handle \<Rightarrow> 'k process \<Rightarrow> nat \<times> 'k process" where
  "alloc_handle h p =
     (next_addr p, p\<lparr>heap := (heap p)(next_addr p \<mapsto> h), next_addr := Suc (next_addr p)\<rparr>)"

section \<open>Objects\<close>

definition perfidious_handle_obj_create :: "'k process \<Rightarrow> nat \<times> 'k process" where
  "perfidious_handle_obj_create p =
     (next_object p,
      p\<lparr>objects := (objects p)(next_object p \<mapsto> \<lparr>obj_handle = None, borrowed = False\<rparr>),
        next_object := Suc (next_object p)\<rparr>)"

definition perfidious_handle_obj_free :: "'k linux_os \<Rightarrow> nat \<Rightarrow> 'k process \<Rightarrow> 'k process cval" where
  "perfidious_handle_obj_free os this p =
     (case objects p this of
        None \<Rightarrow> Undefined
      | Some obj \<Rightarrow>
          cbind (case obj_handle obj of
                   Some a \<Rightarrow> (if borrowed obj then Ret p
                     else cbind (release_handle a (perfidious_handle_close os) p) (\<lambda>(r, p1). Ret p1))
                 | None \<Rightarrow> Ret p)
            (\<lambda>p1. Ret (p1\<lparr>objects := (objects p1)(this := None)\<rparr>)))"

definition perfidious_handle_obj_require_open ::
  "perfidious_handle_obj \<Rightarrow> 'k process \<Rightarrow> nat option \<times> 'k process" where
  "perfidious_handle_obj_require_open obj p =
     (case obj_handle obj of
        None \<Rightarrow> (None, zend_throw_exception ClosedException 0 ''Handle is closed'' p)
      | Some a \<Rightarrow> (Some a, p))"

text \<open>The opening of every method but \<open>close\<close>: fetch the object, require that it is open.\<close>

definition on_open_object ::
  "nat \<Rightarrow> (nat \<Rightarrow> 'k process \<Rightarrow> (zval \<times> 'k process) cval) \<Rightarrow> 'k process \<Rightarrow> (zval \<times> 'k process) cval" where
  "on_open_object this body p =
     (case objects p this of
        None \<Rightarrow> Undefined
      | Some obj \<Rightarrow>
          (case perfidious_handle_obj_require_open obj p of
             (None, p1) \<Rightarrow> Ret (ZNull, p1)
           | (Some a, p1) \<Rightarrow> body a p1))"

section \<open>Methods\<close>

definition PerfidiousHandle_close :: "'k linux_os \<Rightarrow> nat \<Rightarrow> 'k process \<Rightarrow> (zval \<times> 'k process) cval" where
  "PerfidiousHandle_close os this p =
     (case objects p this of
        None \<Rightarrow> Undefined
      | Some obj \<Rightarrow>
          (case obj_handle obj of
             None \<Rightarrow> Ret (ZNull, p)
           | Some a \<Rightarrow>
               (let p1 = p\<lparr>objects := (objects p)(this \<mapsto> obj\<lparr>obj_handle := None\<rparr>)\<rparr>
                in if borrowed obj then Ret (ZNull, p1)
                   else cbind (release_handle a (perfidious_handle_close os) p1)
                          (\<lambda>(r, p2). Ret (ZNull, p2)))))"

definition PerfidiousHandle_disable :: "'k linux_os \<Rightarrow> nat \<Rightarrow> 'k process \<Rightarrow> (zval \<times> 'k process) cval" where
  "PerfidiousHandle_disable os this p =
     on_open_object this
       (\<lambda>a p1. cbind (at_handle a (perfidious_handle_disable os) p1) (\<lambda>(r, p2). Ret (ZThis, p2))) p"

definition PerfidiousHandle_enable :: "'k linux_os \<Rightarrow> nat \<Rightarrow> 'k process \<Rightarrow> (zval \<times> 'k process) cval" where
  "PerfidiousHandle_enable os this p =
     on_open_object this
       (\<lambda>a p1. cbind (at_handle a (perfidious_handle_enable os) p1) (\<lambda>(r, p2). Ret (ZThis, p2))) p"

text \<open>The part of \<open>rawStream\<close> behind the checks of its argument and object.\<close>

definition dup_to_stream ::
  "'k linux_os \<Rightarrow> zend_long \<Rightarrow> perfidious_handle \<Rightarrow> 'k process \<Rightarrow> (zval \<times> 'k process) cval" where
  "dup_to_stream os i h p =
     (if i < 0 \<or> length (metrics h) \<le> nat i
      then Ret (ZNull, zend_throw_exception (ArgumentValueError 1) 0
                  ''must reference an existing metric file descriptor'' p)
      else case sys_dupfd_cloexec os (m_fd (metrics h ! nat i)) p of (fd, p2) \<Rightarrow>
        if fd = -1
        then Ret (ZNull, perfidious_error_helper IOException (errno p2)
                    (''fcntl failed: '' @ os_strerror os (errno p2)) p2)
        else case os_stream_from_fd os fd (kernel p2) of (ok, k) \<Rightarrow>
          (let p3 = p2\<lparr>kernel := k\<rparr>
           in if \<not> ok
              then Ret (ZNull, zend_throw_exception IOException 0
                          (''failed to create stream from fd '' @ show_int fd)
                          (snd (sys_close os fd p3)))
              else Ret (ZStream fd, p3\<lparr>streams := add_mset fd (streams p3)\<rparr>)))"

text \<open>\<open>idx\<close> is \<open>None\<close> when the caller passes null.\<close>

definition PerfidiousHandle_rawStream ::
  "'k linux_os \<Rightarrow> nat \<Rightarrow> zend_long option \<Rightarrow> 'k process \<Rightarrow> (zval \<times> 'k process) cval" where
  "PerfidiousHandle_rawStream os this idx p =
     (case idx of
        None \<Rightarrow>
          Ret (ZNull, zend_throw_exception (ArgumentTypeError 1) 0 ''must be of type int, null given'' p)
      | Some i \<Rightarrow> on_open_object this (\<lambda>a p1. with_handle a (dup_to_stream os i) p1) p)"

text \<open>\<open>read\<close> and \<open>readArray\<close>: the group is read while disabled and enabled again if it was.\<close>

definition read_at_boundary ::
  "'k linux_os \<Rightarrow> (perfidious_handle \<Rightarrow> 'k process \<Rightarrow> (zval option \<times> 'k process) cval)
    \<Rightarrow> nat \<Rightarrow> 'k process \<Rightarrow> (zval \<times> 'k process) cval" where
  "read_at_boundary os rd a p =
     cbind (with_handle a (\<lambda>h p. Ret (enabled h, p)) p) (\<lambda>(orig_enabled, p1).
     cbind (if orig_enabled then at_handle a (perfidious_handle_disable os) p1 else Ret (True, p1)) (\<lambda>(r1, p2).
     cbind (with_handle a rd p2) (\<lambda>(v, p3).
     cbind (if orig_enabled then at_handle a (perfidious_handle_enable os) p3 else Ret (True, p3)) (\<lambda>(r2, p4).
     Ret (case v of None \<Rightarrow> ZNull | Some z \<Rightarrow> z, p4)))))"

definition PerfidiousHandle_read :: "'k linux_os \<Rightarrow> nat \<Rightarrow> 'k process \<Rightarrow> (zval \<times> 'k process) cval" where
  "PerfidiousHandle_read os this p =
     on_open_object this (read_at_boundary os (perfidious_handle_read_to_result os)) p"

definition PerfidiousHandle_readArray :: "'k linux_os \<Rightarrow> nat \<Rightarrow> 'k process \<Rightarrow> (zval \<times> 'k process) cval" where
  "PerfidiousHandle_readArray os this p =
     on_open_object this (read_at_boundary os (perfidious_handle_read_to_array os)) p"

definition PerfidiousHandle_reset :: "'k linux_os \<Rightarrow> nat \<Rightarrow> 'k process \<Rightarrow> (zval \<times> 'k process) cval" where
  "PerfidiousHandle_reset os this p =
     on_open_object this
       (\<lambda>a p1. cbind (at_handle a (perfidious_handle_reset os) p1) (\<lambda>(r, p2). Ret (ZThis, p2))) p"

section \<open>Who owns what\<close>

definition valid_handle :: "perfidious_handle \<Rightarrow> bool" where
  "valid_handle h \<longleftrightarrow> metrics h \<noteq> [] \<and> length (metrics h) \<le> PERFIDIOUS_MAX_EVENT_NAMES + 1"

definition owns :: "'k process \<Rightarrow> nat \<Rightarrow> nat \<Rightarrow> bool" where
  "owns p i a \<longleftrightarrow> (\<exists>obj. objects p i = Some obj \<and> obj_handle obj = Some a \<and> \<not> borrowed obj)"

definition borrows :: "'k process \<Rightarrow> nat \<Rightarrow> nat \<Rightarrow> bool" where
  "borrows p i a \<longleftrightarrow> (\<exists>obj. objects p i = Some obj \<and> obj_handle obj = Some a \<and> borrowed obj)"

definition has_owner :: "'k process \<Rightarrow> nat \<Rightarrow> bool" where
  "has_owner p a \<longleftrightarrow> request_handle p = Some a \<or> (\<exists>i. owns p i a)"

text \<open>Every allocation has exactly one owner, an object or the request globals; only the handle
  of the request is borrowed.\<close>

definition ownership :: "'k process \<Rightarrow> bool" where
  "ownership p \<longleftrightarrow>
     finite (dom (heap p)) \<and>
     (\<forall>a h. heap p a = Some h \<longrightarrow> a < next_addr p \<and> valid_handle h \<and> has_owner p a) \<and>
     (\<forall>i. next_object p \<le> i \<longrightarrow> objects p i = None) \<and>
     (\<forall>i a. owns p i a \<longrightarrow> heap p a \<noteq> None \<and> request_handle p \<noteq> Some a) \<and>
     (\<forall>i a. borrows p i a \<longrightarrow> request_handle p = Some a) \<and>
     (\<forall>i j a. owns p i a \<longrightarrow> owns p j a \<longrightarrow> i = j) \<and>
     (\<forall>a. request_handle p = Some a \<longrightarrow> heap p a \<noteq> None)"

text \<open>The open descriptors are those of the allocated handles and those of the streams, and no
  close was ever made on a descriptor that was not open.\<close>

definition heap_fds :: "(nat \<rightharpoonup> perfidious_handle) \<Rightarrow> int multiset" where
  "heap_fds hp = total_over (\<lambda>h. mset (handle_fds h)) hp"

definition descriptors :: "'k process \<Rightarrow> bool" where
  "descriptors p \<longleftrightarrow> live (trace p) = heap_fds (heap p) + streams p \<and> closes_live (trace p)"

definition process_ok :: "'k process \<Rightarrow> bool" where
  "process_ok p \<longleftrightarrow> ownership p \<and> descriptors p"

lemma owns_cong: "objects p' = objects p \<Longrightarrow> owns p' = owns p"
  by (simp add: owns_def fun_eq_iff)

lemma borrows_cong: "objects p' = objects p \<Longrightarrow> borrows p' = borrows p"
  by (simp add: borrows_def fun_eq_iff)

lemma has_owner_cong:
  "objects p' = objects p \<Longrightarrow> request_handle p' = request_handle p \<Longrightarrow> has_owner p' = has_owner p"
  by (simp add: has_owner_def owns_def fun_eq_iff)

lemmas owner_congs = owns_cong borrows_cong has_owner_cong

lemma heap_fds_insert:
  "finite (dom hp) \<Longrightarrow> a \<notin> dom hp \<Longrightarrow> heap_fds (hp(a \<mapsto> h)) = mset (handle_fds h) + heap_fds hp"
  unfolding heap_fds_def by (rule total_over_insert) auto

lemma heap_fds_remove:
  "finite (dom hp) \<Longrightarrow> hp a = Some h \<Longrightarrow> heap_fds hp = mset (handle_fds h) + heap_fds (hp(a := None))"
  unfolding heap_fds_def by (rule total_over_remove)

lemma heap_fds_replace:
  "finite (dom hp) \<Longrightarrow> hp a = Some h \<Longrightarrow> metrics h' = metrics h \<Longrightarrow> heap_fds (hp(a \<mapsto> h')) = heap_fds hp"
  unfolding heap_fds_def by (rule total_over_replace) (simp_all add: handle_fds_def)

section \<open>Operations that keep the bookkeeping\<close>

text \<open>What a native call that opens and closes nothing does to the process: system calls, errors
  and the errno aside, everything is as it was.\<close>

definition quiet :: "'k process \<Rightarrow> 'k process \<Rightarrow> bool" where
  "quiet p p' \<longleftrightarrow> machine.more p' = machine.more p \<and> error_mode p' = error_mode p \<and>
     live (trace p') = live (trace p) \<and> (closes_live (trace p) \<longrightarrow> closes_live (trace p'))"

lemma quiet_refl [simp, intro]: "quiet p p"
  by (simp add: quiet_def)

lemma quiet_trans [trans]: "quiet a b \<Longrightarrow> quiet b c \<Longrightarrow> quiet a c"
  by (simp add: quiet_def)

lemma quiet_helper [simp]: "quiet p (perfidious_error_helper c e s p)"
  by (simp add: quiet_def)

lemma quiet_throw [simp]: "quiet p (zend_throw_exception c e s p)"
  by (simp add: quiet_def)

lemma quiet_fields:
  assumes "quiet p p'"
  shows "heap p' = heap p" "next_addr p' = next_addr p" "objects p' = objects p"
    "next_object p' = next_object p" "streams p' = streams p"
    "request_enable p' = request_enable p" "request_metrics p' = request_metrics p"
    "request_handle p' = request_handle p" "request_handle_pid p' = request_handle_pid p"
    "request_handle_ready p' = request_handle_ready p"
    "request_handle_error p' = request_handle_error p" "error_mode p' = error_mode p"
  using assms by (cases p; cases p'; simp add: quiet_def)+

lemma quiet_same_php:
  "same_php p p' \<Longrightarrow> live (trace p') = live (trace p) \<Longrightarrow>
     (closes_live (trace p) \<Longrightarrow> closes_live (trace p')) \<Longrightarrow> quiet p p'"
  by (simp add: quiet_def same_php_def)

lemma process_ok_quiet:
  assumes "quiet p p'" "process_ok p"
  shows "process_ok p'"
proof -
  have o: "owns p' = owns p" "borrows p' = borrows p" "has_owner p' = has_owner p"
    by (intro owner_congs; simp add: quiet_fields [OF assms(1)])+
  show ?thesis
    using assms by (simp add: process_ok_def ownership_def descriptors_def o quiet_fields) (simp add: quiet_def)
qed

definition same_objects :: "'k process \<Rightarrow> 'k process \<Rightarrow> bool" where
  "same_objects p p' \<longleftrightarrow> objects p' = objects p \<and> next_object p' = next_object p \<and>
     streams p' = streams p \<and> request_enable p' = request_enable p \<and>
     request_metrics p' = request_metrics p \<and> request_handle p' = request_handle p \<and>
     request_handle_pid p' = request_handle_pid p \<and>
     request_handle_ready p' = request_handle_ready p \<and>
     request_handle_error p' = request_handle_error p \<and> error_mode p' = error_mode p"

lemma same_objects_refl [simp, intro]: "same_objects p p"
  by (simp add: same_objects_def)

lemma same_objects_trans [trans]: "same_objects a b \<Longrightarrow> same_objects b c \<Longrightarrow> same_objects a c"
  by (simp add: same_objects_def)

lemma same_objects_quiet: "quiet p p' \<Longrightarrow> same_objects p p'"
  by (simp add: same_objects_def quiet_fields)

text \<open>The contract of a native operation on a live handle, and what follows for the operation
  through a pointer.\<close>

locale handle_operation =
  fixes f :: "perfidious_handle \<Rightarrow> 'k process \<Rightarrow> 'r \<times> perfidious_handle \<times> 'k process"
  assumes keeps: "f h p = (r, h', p') \<Longrightarrow> quiet p p' \<and> metrics h' = metrics h"
begin

lemma at_handle_runs:
  assumes "process_ok p" and "heap p a = Some h"
  obtains r h' p1 p' where "f h p = (r, h', p1)" "at_handle a f p = Ret (r, p')" "process_ok p'"
    "same_objects p p'" "heap p' = (heap p)(a \<mapsto> h')" "metrics h' = metrics h" "trace p' = trace p1"
proof -
  obtain r h' p1 where run: "f h p = (r, h', p1)" by (metis prod_cases3)
  have q: "quiet p p1" and m: "metrics h' = metrics h" using keeps [OF run] by simp_all
  note eqs = quiet_fields [OF q]
  let ?p = "p1\<lparr>heap := (heap p1)(a \<mapsto> h')\<rparr>"
  have o: "owns ?p = owns p" "borrows ?p = borrows p" "has_owner ?p = has_owner p"
    by (intro owner_congs; simp add: eqs)+
  have "ownership ?p"
    using assms m unfolding process_ok_def ownership_def o by (auto simp: valid_handle_def eqs)
  moreover have "heap_fds ((heap p)(a \<mapsto> h')) = heap_fds (heap p)"
    using assms m by (intro heap_fds_replace) (simp_all add: process_ok_def ownership_def)
  then have "descriptors ?p"
    using process_ok_quiet [OF q assms(1)] by (simp add: process_ok_def descriptors_def eqs)
  ultimately have "process_ok ?p" by (simp add: process_ok_def)
  moreover have "same_objects p ?p" by (simp add: same_objects_def eqs)
  ultimately show thesis
    using that [of r h' p1 ?p] run assms(2) m by (simp add: at_handle_def eqs)
qed

end

text \<open>The contract of a native read of a valid handle.\<close>

locale handle_reader =
  fixes os :: "'k linux_os"
    and rd :: "perfidious_handle \<Rightarrow> 'k process \<Rightarrow> ('r \<times> 'k process) cval"
  assumes reads: "group_read_contract os \<Longrightarrow> valid_handle h \<Longrightarrow> \<exists>r p'. rd h p = Ret (r, p') \<and> quiet p p'"
begin

lemma with_handle_runs:
  assumes "group_read_contract os" and "process_ok p" and "heap p a = Some h"
  obtains r p' where "rd h p = Ret (r, p')" "with_handle a rd p = Ret (r, p')" "process_ok p'" "quiet p p'"
proof -
  have "valid_handle h" using assms(2,3) by (auto simp: process_ok_def ownership_def)
  from reads [OF assms(1) this, of p] obtain r p' where "rd h p = Ret (r, p')" "quiet p p'" by blast
  with that show thesis using assms(2,3) process_ok_quiet [of p p'] by (simp add: with_handle_def)
qed

end

text \<open>The contract of a native operation that closes a handle.\<close>

locale handle_closer =
  fixes f :: "perfidious_handle \<Rightarrow> 'k process \<Rightarrow> 'r \<times> 'k process"
  assumes closes: "f h p = (r, p') \<Longrightarrow> machine.more p' = machine.more p \<and> error_mode p' = error_mode p \<and>
      live (trace p') = live (trace p) - mset (handle_fds h) \<and>
      (mset (handle_fds h) \<subseteq># live (trace p) \<longrightarrow> closes_live (trace p) \<longrightarrow> closes_live (trace p'))"
begin

lemma release_runs:
  assumes "descriptors p" and "finite (dom (heap p))" and "heap p a = Some h"
  obtains r p1 p' where "f h p = (r, p1)" "release_handle a f p = Ret (r, p')" "descriptors p'"
    "heap p' = (heap p)(a := None)" "next_addr p' = next_addr p" "same_objects p p'" "trace p' = trace p1"
proof -
  obtain r p1 where run: "f h p = (r, p1)" by fastforce
  note c = closes [OF run]
  have eqs: "heap p1 = heap p" "next_addr p1 = next_addr p" "same_objects p p1"
    using c by (cases p; cases p1; simp add: same_objects_def)+
  let ?p = "p1\<lparr>heap := (heap p1)(a := None)\<rparr>"
  have fds: "heap_fds (heap p) = mset (handle_fds h) + heap_fds ((heap p)(a := None))"
    by (rule heap_fds_remove [OF assms(2,3)])
  have "descriptors ?p"
    using assms(1) c fds eqs by (simp add: descriptors_def same_objects_def)
  then show thesis
    using that [of r p1 ?p] run assms(3) eqs by (simp add: release_handle_def same_objects_def)
qed

end

lemma ownershipI:
  assumes "finite (dom (heap p))"
    and "\<And>a h. heap p a = Some h \<Longrightarrow> a < next_addr p"
    and "\<And>a h. heap p a = Some h \<Longrightarrow> valid_handle h"
    and "\<And>a h. heap p a = Some h \<Longrightarrow> has_owner p a"
    and "\<And>i. next_object p \<le> i \<Longrightarrow> objects p i = None"
    and "\<And>i a. owns p i a \<Longrightarrow> heap p a \<noteq> None"
    and "\<And>i a. owns p i a \<Longrightarrow> request_handle p \<noteq> Some a"
    and "\<And>i a. borrows p i a \<Longrightarrow> request_handle p = Some a"
    and "\<And>i j a. owns p i a \<Longrightarrow> owns p j a \<Longrightarrow> i = j"
    and "\<And>a. request_handle p = Some a \<Longrightarrow> heap p a \<noteq> None"
  shows "ownership p"
  using assms unfolding ownership_def by blast

lemma ownershipD:
  assumes "ownership p"
  shows "finite (dom (heap p))"
    and "heap p a = Some h \<Longrightarrow> a < next_addr p"
    and "heap p a = Some h \<Longrightarrow> valid_handle h"
    and "heap p a = Some h \<Longrightarrow> has_owner p a"
    and "next_object p \<le> i \<Longrightarrow> objects p i = None"
    and "owns p i a \<Longrightarrow> heap p a \<noteq> None"
    and "owns p i a \<Longrightarrow> request_handle p \<noteq> Some a"
    and "borrows p i a \<Longrightarrow> request_handle p = Some a"
    and "owns p i a \<Longrightarrow> owns p j a \<Longrightarrow> i = j"
    and "request_handle p = Some a \<Longrightarrow> heap p a \<noteq> None"
  using assms unfolding ownership_def by blast+

lemma ownership_drop:
  assumes "ownership p" "owns p i a" "x = None \<or> (\<exists>obj. x = Some obj \<and> obj_handle obj = None)"
    and eqs: "heap p' = (heap p)(a := None)" "objects p' = (objects p)(i := x)"
      "next_addr p' = next_addr p" "next_object p' = next_object p" "request_handle p' = request_handle p"
  shows "ownership p'"
proof -
  have ow: "owns p' j b \<longleftrightarrow> owns p j b \<and> j \<noteq> i" for j b
    using assms(3) by (auto simp: owns_def eqs)
  have bo: "borrows p' j b \<longleftrightarrow> borrows p j b \<and> j \<noteq> i" for j b
    using assms(3) by (auto simp: borrows_def eqs)
  note d = ownershipD [OF assms(1)]
  have uniq: "owns p j a \<Longrightarrow> j = i" "owns p i b \<Longrightarrow> b = a" for j b
    using d(9) assms(2) by (auto simp: owns_def)
  have own: "has_owner p' b" if "has_owner p b" "b \<noteq> a" for b
    using that uniq by (auto simp: has_owner_def ow eqs)
  have i: "i < next_object p" using d(5) [of i] assms(2) by (fastforce simp: owns_def not_less [symmetric])
  show ?thesis
  proof (rule ownershipI)
    fix k assume "next_object p' \<le> k"
    then show "objects p' k = None" using d(5) i by (simp add: eqs)
  next
    fix k b assume "owns p' k b"
    then show "heap p' b \<noteq> None" using d(6) uniq by (auto simp: eqs ow)
  next
    fix k b assume "owns p' k b"
    then show "request_handle p' \<noteq> Some b" using d(7) by (auto simp: eqs ow)
  next
    fix b assume "request_handle p' = Some b"
    then show "heap p' b \<noteq> None" using d(10) d(7) [OF assms(2)] by (auto simp: eqs)
  next
    fix b h assume "heap p' b = Some h"
    then show "has_owner p' b" using d(4) own by (auto simp: eqs split: if_splits)
  qed (use d in \<open>auto simp: eqs ow bo split: if_splits\<close>)
qed

lemma ownership_forget:
  assumes "ownership p" "\<forall>a. \<not> owns p i a" "objects p i \<noteq> None"
    and "x = None \<or> (\<exists>obj. x = Some obj \<and> obj_handle obj = None)"
    and eqs: "heap p' = heap p" "objects p' = (objects p)(i := x)"
      "next_addr p' = next_addr p" "next_object p' = next_object p" "request_handle p' = request_handle p"
  shows "ownership p'"
proof -
  have ow: "owns p' j b \<longleftrightarrow> owns p j b" for j b
    using assms(2,4) by (auto simp: owns_def eqs)
  have bo: "borrows p' j b \<longleftrightarrow> borrows p j b \<and> j \<noteq> i" for j b
    using assms(4) by (auto simp: borrows_def eqs)
  have "has_owner p' b" if "has_owner p b" for b
    using that by (auto simp: has_owner_def ow eqs)
  then show ?thesis
    using ownershipD [OF assms(1)] assms(3)
    by (intro ownershipI) (auto simp: eqs ow bo)
qed

section \<open>The native operations meet the contracts\<close>

lemma quiet_set_enabled:
  "perfidious_handle_try_set_enabled os h b p = (e, h', p') \<Longrightarrow> quiet p p' \<and> metrics h' = metrics h"
  by (auto dest!: try_set_enabled_run intro: quiet_same_php)

interpretation set_enabled: handle_operation "\<lambda>h. perfidious_handle_try_set_enabled os h b"
  by unfold_locales (rule quiet_set_enabled)

interpretation try_reset: handle_operation "perfidious_handle_try_reset os"
  by unfold_locales (auto dest!: try_reset_frame intro: quiet_same_php)

lemma quiet_report: "perfidious_handle_report_ioctl_result os e p = (r, p') \<Longrightarrow> quiet p p'"
  by (auto simp: perfidious_handle_report_ioctl_result_def perfidious_handle_ioctl_error_def
      split: if_splits)

interpretation enable: handle_operation "perfidious_handle_enable os"
  by unfold_locales (auto simp: perfidious_handle_enable_def split: if_splits prod.splits
      dest!: quiet_set_enabled quiet_report intro: quiet_trans)

interpretation disable: handle_operation "perfidious_handle_disable os"
  by unfold_locales (auto simp: perfidious_handle_disable_def split: if_splits prod.splits
      dest!: quiet_set_enabled quiet_report intro: quiet_trans)

interpretation reset: handle_operation "perfidious_handle_reset os"
  by unfold_locales (auto simp: perfidious_handle_reset_def split: if_splits prod.splits
      dest!: try_reset.keeps intro: quiet_trans)

interpretation try_close: handle_closer "perfidious_handle_try_close os"
  by unfold_locales (auto dest: try_close_live try_close_closes_live simp: same_php_def)

interpretation close: handle_closer "perfidious_handle_close os"
  by unfold_locales (auto simp: perfidious_handle_close_def split: prod.splits if_splits
      dest: try_close.closes)

interpretation read_with_times: handle_reader os "perfidious_handle_read_to_array_with_times os"
proof
  fix h :: perfidious_handle and p :: "'a process"
  assume "group_read_contract os" "valid_handle h"
  then have "perfidious_handle_read_to_array_with_times os h p \<noteq> Undefined"
    by (intro read_defined) (simp_all add: valid_handle_def)
  then show "\<exists>r p'. perfidious_handle_read_to_array_with_times os h p = Ret (r, p') \<and> quiet p p'"
    by (cases "perfidious_handle_read_to_array_with_times os h p")
      (auto dest!: read_with_times_frame simp: quiet_def)
qed

interpretation read_array: handle_reader os "perfidious_handle_read_to_array os"
proof
  fix h :: perfidious_handle and p :: "'a process"
  assume "group_read_contract os" "valid_handle h"
  from read_with_times.reads [OF this, of p] have "perfidious_handle_read_to_array os h p \<noteq> Undefined"
    by (auto simp: read_undefined_iff)
  then show "\<exists>r p'. perfidious_handle_read_to_array os h p = Ret (r, p') \<and> quiet p p'"
    by (cases "perfidious_handle_read_to_array os h p") (auto dest!: read_to_array_frame simp: quiet_def)
qed

interpretation read_result: handle_reader os "perfidious_handle_read_to_result os"
proof
  fix h :: perfidious_handle and p :: "'a process"
  assume "group_read_contract os" "valid_handle h"
  from read_with_times.reads [OF this, of p] have "perfidious_handle_read_to_result os h p \<noteq> Undefined"
    by (auto simp: read_undefined_iff)
  then show "\<exists>r p'. perfidious_handle_read_to_result os h p = Ret (r, p') \<and> quiet p p'"
    by (cases "perfidious_handle_read_to_result os h p") (auto dest!: read_to_result_frame simp: quiet_def)
qed

section \<open>Every method call is safe and keeps the bookkeeping\<close>

text \<open>The outcome of a call: it is defined and leaves a well-kept process.\<close>

definition safe :: "('r \<times> 'k process) cval \<Rightarrow> bool" where
  "safe x \<longleftrightarrow> (case x of Undefined \<Rightarrow> False | Ret (r, p) \<Rightarrow> process_ok p)"

lemma safe_simps [simp]:
  "safe Undefined = False"
  "safe (Ret (r, p)) = process_ok p"
  by (simp_all add: safe_def)

lemma safe_cbind: "safe x \<Longrightarrow> (\<And>r p. x = Ret (r, p) \<Longrightarrow> process_ok p \<Longrightarrow> safe (f (r, p))) \<Longrightarrow> safe (cbind x f)"
  by (cases x) (auto simp: safe_def)

lemma process_ok_throw [simp]: "process_ok p \<Longrightarrow> process_ok (zend_throw_exception c e s p)"
  by (rule process_ok_quiet [OF quiet_throw])

lemma process_ok_helper [simp]: "process_ok p \<Longrightarrow> process_ok (perfidious_error_helper c e s p)"
  by (rule process_ok_quiet [OF quiet_helper])

lemma object_points:
  assumes "process_ok p" "objects p i = Some obj" "obj_handle obj = Some a"
  obtains h where "heap p a = Some h" "valid_handle h"
proof -
  have own: "ownership p" using assms(1) by (simp add: process_ok_def)
  have "owns p i a \<or> borrows p i a" using assms by (auto simp: owns_def borrows_def)
  with own have "heap p a \<noteq> None" by (meson ownershipD(6,8,10))
  with that show thesis using own ownershipD(3) by blast
qed

lemma safe_on_open_object:
  assumes "process_ok p" "objects p this \<noteq> None"
    and "\<And>a h. heap p a = Some h \<Longrightarrow> safe (body a p)"
  shows "safe (on_open_object this body p)"
proof -
  obtain obj where obj: "objects p this = Some obj" using assms(2) by auto
  show ?thesis
  proof (cases "obj_handle obj")
    case None
    then show ?thesis
      using obj assms(1) by (simp add: on_open_object_def perfidious_handle_obj_require_open_def)
  next
    case (Some a)
    with assms(1) obj obtain h where "heap p a = Some h" by (rule object_points)
    then show ?thesis
      using obj Some assms(3) by (simp add: on_open_object_def perfidious_handle_obj_require_open_def)
  qed
qed

context handle_operation
begin

lemma safe_at_handle:
  "process_ok p \<Longrightarrow> heap p a = Some h \<Longrightarrow> safe (cbind (at_handle a f p) (\<lambda>(r, p'). Ret (z, p')))"
  by (erule (1) at_handle_runs) simp

end

lemma safe_enable:
  "process_ok p \<Longrightarrow> objects p this \<noteq> None \<Longrightarrow> safe (PerfidiousHandle_enable os this p)"
  unfolding PerfidiousHandle_enable_def
  by (rule safe_on_open_object) (simp_all add: enable.safe_at_handle)

lemma safe_disable:
  "process_ok p \<Longrightarrow> objects p this \<noteq> None \<Longrightarrow> safe (PerfidiousHandle_disable os this p)"
  unfolding PerfidiousHandle_disable_def
  by (rule safe_on_open_object) (simp_all add: disable.safe_at_handle)

lemma safe_reset:
  "process_ok p \<Longrightarrow> objects p this \<noteq> None \<Longrightarrow> safe (PerfidiousHandle_reset os this p)"
  unfolding PerfidiousHandle_reset_def
  by (rule safe_on_open_object) (simp_all add: reset.safe_at_handle)

lemma report_trace: "perfidious_handle_report_ioctl_result os e p = (r, p') \<Longrightarrow> trace p' = trace p"
  by (auto simp: perfidious_handle_report_ioctl_result_def perfidious_handle_ioctl_error_def split: if_splits)

lemma enable_trace:
  "perfidious_handle_enable os h p = (r, h', p') \<Longrightarrow> metrics h \<noteq> [] \<Longrightarrow>
     \<exists>ok. trace p' = EvIoctl (leader_fd h) PERF_EVENT_IOC_ENABLE 0 ok # trace p"
  by (auto simp: perfidious_handle_enable_def switch_request_def
      dest!: try_set_enabled_run report_trace split: prod.splits)

lemma disable_trace:
  "perfidious_handle_disable os h p = (r, h', p') \<Longrightarrow> metrics h \<noteq> [] \<Longrightarrow>
     \<exists>ok. trace p' = EvIoctl (leader_fd h) PERF_EVENT_IOC_DISABLE 0 ok # trace p"
  by (auto simp: perfidious_handle_disable_def switch_request_def
      dest!: try_set_enabled_run report_trace split: prod.splits)

text \<open>Readers whose value the methods return and that make one system call.\<close>

locale boundary_reader = handle_reader os rd
  for os :: "'k linux_os"
    and rd :: "perfidious_handle \<Rightarrow> 'k process \<Rightarrow> (zval option \<times> 'k process) cval" +
  assumes one_read: "rd h p = Ret (v, p') \<Longrightarrow>
    \<exists>b. trace p' = EvRead (leader_fd h) (uint (perfidious_handle_read_buffer_size h)) b # trace p"
begin

text \<open>A read at the boundary, step by step: the handle is read as disabling left it, and enabling
  runs on what the read left.\<close>

lemma boundary_runs:
  assumes "group_read_contract os" "process_ok p" "heap p a = Some h"
  obtains (idle) v p' where "\<not> enabled h" "rd h p = Ret (v, p')"
      "read_at_boundary os rd a p = Ret (case v of None \<Rightarrow> ZNull | Some z \<Rightarrow> z, p')"
      "process_ok p'" "same_objects p p'"
  | (counting) r1 h1 p1 p2 v p3 r2 h2 p4 p' where "enabled h"
      "perfidious_handle_disable os h p = (r1, h1, p1)" "trace p2 = trace p1"
      "rd h1 p2 = Ret (v, p3)" "perfidious_handle_enable os h1 p3 = (r2, h2, p4)"
      "trace p' = trace p4"
      "read_at_boundary os rd a p = Ret (case v of None \<Rightarrow> ZNull | Some z \<Rightarrow> z, p')"
      "process_ok p'" "same_objects p p'"
proof (cases "enabled h")
  case False
  obtain v p' where rd: "rd h p = Ret (v, p')" "with_handle a rd p = Ret (v, p')" "process_ok p'"
    "quiet p p'" by (rule with_handle_runs [OF assms])
  moreover have "with_handle a (\<lambda>h p. Ret (enabled h, p)) p = Ret (False, p)"
    using assms(3) False by (simp add: with_handle_def)
  moreover have "same_objects p p'" using \<open>quiet p p'\<close> by (rule same_objects_quiet)
  ultimately show thesis
    using False by (intro idle) (simp_all add: read_at_boundary_def)
next
  case True
  obtain r1 h1 p1 p2 where d: "perfidious_handle_disable os h p = (r1, h1, p1)"
    "at_handle a (perfidious_handle_disable os) p = Ret (r1, p2)" "process_ok p2"
    "same_objects p p2" "heap p2 = (heap p)(a \<mapsto> h1)" "trace p2 = trace p1"
    by (rule disable.at_handle_runs [OF assms(2,3)])
  then have "heap p2 a = Some h1" by simp
  with assms(1) d(3) obtain v p3 where r: "rd h1 p2 = Ret (v, p3)" "with_handle a rd p2 = Ret (v, p3)"
    "process_ok p3" "quiet p2 p3" by (rule with_handle_runs)
  have "heap p3 a = Some h1" using r(4) \<open>heap p2 a = Some h1\<close> by (simp add: quiet_fields)
  with r(3) obtain r2 h2 p4 p' where e: "perfidious_handle_enable os h1 p3 = (r2, h2, p4)"
    "at_handle a (perfidious_handle_enable os) p3 = Ret (r2, p')" "process_ok p'"
    "same_objects p3 p'" "trace p' = trace p4" by (rule enable.at_handle_runs)
  have "with_handle a (\<lambda>h p. Ret (enabled h, p)) p = Ret (True, p)"
    using assms(3) True by (simp add: with_handle_def)
  moreover have "same_objects p p'"
    using d(4) same_objects_quiet [OF r(4)] e(4) by (blast intro: same_objects_trans)
  ultimately show thesis
    using True d r e by (intro counting) (simp_all add: read_at_boundary_def)
qed

lemma boundary_trace:
  assumes "group_read_contract os" "process_ok p" "heap p a = Some h" "valid_handle h"
  shows "\<exists>z p' d b e. read_at_boundary os rd a p = Ret (z, p') \<and>
    trace p' = (if enabled h then [EvIoctl (leader_fd h) PERF_EVENT_IOC_ENABLE 0 e] else [])
      @ [EvRead (leader_fd h) (uint (perfidious_handle_read_buffer_size h)) b]
      @ (if enabled h then [EvIoctl (leader_fd h) PERF_EVENT_IOC_DISABLE 0 d] else []) @ trace p"
  using assms(1-3)
proof (cases rule: boundary_runs)
  case (idle v p')
  then show ?thesis using one_read [OF idle(2)] by auto
next
  case (counting r1 h1 p1 p2 v p3 r2 h2 p4 p')
  note d = disable_trace [OF counting(2)]
  have m: "metrics h1 = metrics h" "metrics h \<noteq> []"
    using disable.keeps [OF counting(2)] assms(4) by (simp_all add: valid_handle_def)
  have l: "leader_fd h1 = leader_fd h" "perfidious_handle_read_buffer_size h1 = perfidious_handle_read_buffer_size h"
    using m by (simp_all add: leader_fd_def perfidious_handle_read_buffer_size_def)
  from d m obtain x where x: "trace p1 = EvIoctl (leader_fd h) PERF_EVENT_IOC_DISABLE 0 x # trace p" by blast
  from one_read [OF counting(4)] l obtain b where
    b: "trace p3 = EvRead (leader_fd h) (uint (perfidious_handle_read_buffer_size h)) b # trace p2" by auto
  from enable_trace [OF counting(5)] m l obtain y where
    y: "trace p4 = EvIoctl (leader_fd h) PERF_EVENT_IOC_ENABLE 0 y # trace p3" by auto
  show ?thesis using counting x b y by auto
qed

lemma safe_read_at_boundary:
  assumes "group_read_contract os" "process_ok p" "heap p a = Some h"
  shows "safe (read_at_boundary os rd a p)"
  using assms by (rule boundary_runs) simp_all

end

interpretation array_boundary: boundary_reader os "perfidious_handle_read_to_array os"
  by unfold_locales (blast dest: read_to_array_frame)

interpretation result_boundary: boundary_reader os "perfidious_handle_read_to_result os"
  by unfold_locales (blast dest: read_to_result_frame)

lemma safe_read:
  "group_read_contract os \<Longrightarrow> process_ok p \<Longrightarrow> objects p this \<noteq> None \<Longrightarrow>
     safe (PerfidiousHandle_read os this p)"
  unfolding PerfidiousHandle_read_def
  by (rule safe_on_open_object) (simp_all add: result_boundary.safe_read_at_boundary)

lemma safe_readArray:
  "group_read_contract os \<Longrightarrow> process_ok p \<Longrightarrow> objects p this \<noteq> None \<Longrightarrow>
     safe (PerfidiousHandle_readArray os this p)"
  unfolding PerfidiousHandle_readArray_def
  by (rule safe_on_open_object) (simp_all add: array_boundary.safe_read_at_boundary)

text \<open>Closing: an owned handle is released with its allocation, a borrowed one only forgotten.\<close>

lemma release_owned:
  assumes "process_ok p" "owns p i a" "x = None \<or> (\<exists>obj. x = Some obj \<and> obj_handle obj = None)"
    and q: "q = p \<or> q = p\<lparr>objects := (objects p)(i := x)\<rparr>"
  obtains r p' where "release_handle a (perfidious_handle_close os) q = Ret (r, p')"
    "process_ok (p'\<lparr>objects := (objects p)(i := x)\<rparr>)" "objects p' = objects q"
    "heap p' = (heap p)(a := None)"
proof -
  have qs: "heap q = heap p" "next_addr q = next_addr p" "next_object q = next_object p"
    "request_handle q = request_handle p" "descriptors q"
    using q assms(1) by (auto simp: process_ok_def descriptors_def)
  obtain h where h: "heap q a = Some h"
    using assms(1,2) qs(1) ownershipD(6) by (fastforce simp: process_ok_def)
  have "finite (dom (heap q))" using assms(1) qs(1) by (simp add: process_ok_def ownershipD(1))
  with qs(5) obtain r p1 p' where rel: "release_handle a (perfidious_handle_close os) q = Ret (r, p')"
    "descriptors p'" "heap p' = (heap q)(a := None)" "next_addr p' = next_addr q" "same_objects q p'"
    using h by (rule close.release_runs)
  let ?p = "p'\<lparr>objects := (objects p)(i := x)\<rparr>"
  have "ownership p" using assms(1) by (simp add: process_ok_def)
  then have "ownership ?p"
    by (rule ownership_drop [OF _ assms(2,3)]) (use rel qs in \<open>simp_all add: same_objects_def\<close>)
  moreover have "descriptors ?p" using rel(2) by (simp add: descriptors_def)
  ultimately show thesis
    using that [of r p'] rel qs by (simp add: process_ok_def same_objects_def)
qed

lemma process_ok_forget:
  assumes "process_ok p" "\<forall>a. \<not> owns p i a" "objects p i \<noteq> None"
    and "x = None \<or> (\<exists>obj. x = Some obj \<and> obj_handle obj = None)"
  shows "process_ok (p\<lparr>objects := (objects p)(i := x)\<rparr>)"
  using assms ownership_forget [of p i x "p\<lparr>objects := (objects p)(i := x)\<rparr>"]
  by (simp add: process_ok_def descriptors_def)

lemma safe_close:
  assumes "process_ok p" "objects p this \<noteq> None"
  shows "safe (PerfidiousHandle_close os this p)"
proof -
  obtain obj where obj: "objects p this = Some obj" using assms(2) by auto
  show ?thesis
  proof (cases "obj_handle obj")
    case None
    then show ?thesis using obj assms(1) by (simp add: PerfidiousHandle_close_def)
  next
    case (Some a)
    let ?x = "Some (obj\<lparr>obj_handle := None\<rparr>)" 
    let ?q = "p\<lparr>objects := (objects p)(this := ?x)\<rparr>"
    show ?thesis
    proof (cases "borrowed obj")
      case True
      then have "process_ok ?q"
        using obj assms(1) by (intro process_ok_forget) (auto simp: owns_def)
      with True obj Some show ?thesis by (simp add: PerfidiousHandle_close_def Let_def)
    next
      case False
      then have "owns p this a" using obj Some by (simp add: owns_def)
      with assms(1) obtain r p' where
        rel: "release_handle a (perfidious_handle_close os) ?q = Ret (r, p')"
        "process_ok (p'\<lparr>objects := (objects p)(this := ?x)\<rparr>)" "objects p' = objects ?q"
        by (rule release_owned [where x = ?x and q = ?q]) auto
      then have "process_ok p'" by (metis process.surjective process.update_convs(3) process.select_convs(3))
      with rel False obj Some show ?thesis by (simp add: PerfidiousHandle_close_def Let_def)
    qed
  qed
qed

lemma process_ok_dup:
  assumes "process_ok p" "same_php p p2" "trace p2 = EvDup d (Some fd) # trace p"
  shows "process_ok (p2\<lparr>kernel := k, streams := add_mset (int fd) (streams p2)\<rparr>)"
proof -
  let ?p = "p2\<lparr>kernel := k, streams := add_mset (int fd) (streams p2)\<rparr>"
  note eqs = same_php_process [OF assms(2)]
  have o: "owns ?p = owns p" "borrows ?p = borrows p" "has_owner ?p = has_owner p"
    by (intro owner_congs; simp add: eqs)+
  show ?thesis
    using assms(1,3) unfolding process_ok_def ownership_def descriptors_def o by (simp add: eqs)
qed

lemma safe_dup_to_stream:
  assumes ok: "process_ok p"
  shows "safe (dup_to_stream os i h p)"
proof (cases "i < 0 \<or> length (metrics h) \<le> nat i")
  case True
  with ok show ?thesis by (simp add: dup_to_stream_def)
next
  case False
  obtain r p2 where d: "sys_dupfd_cloexec os (m_fd (metrics h ! nat i)) p = (r, p2)" by fastforce
  from sys_dupfd_cloexec_trace [OF d] obtain x where x: "r = fd_of x"
    "trace p2 = EvDup (m_fd (metrics h ! nat i)) x # trace p" "same_php p p2" by blast
  obtain st k where st: "os_stream_from_fd os r (kernel p2) = (st, k)" by fastforce
  obtain c p4 where cl: "sys_close os r (p2\<lparr>kernel := k\<rparr>) = (c, p4)" by fastforce
  note def = dup_to_stream_def [of os i h p, unfolded d]
  show ?thesis
  proof (cases x)
    case None
    then have "quiet p p2" using x by (intro quiet_same_php) simp_all
    then have "process_ok p2" using ok by (rule process_ok_quiet)
    with def False None x(1) show ?thesis by simp
  next
    case (Some fd)
    have "same_php p p4" using x(3) sys_close_trace [OF cl] by (simp add: same_php_def)
    then have "quiet p p4"
      using Some x sys_close_trace [OF cl] by (intro quiet_same_php) simp_all
    then have "process_ok p4" using ok by (rule process_ok_quiet)
    moreover have "process_ok (p2\<lparr>kernel := k, streams := add_mset (int fd) (streams p2)\<rparr>)"
      using process_ok_dup [OF ok x(3)] x(2) Some by simp
    ultimately show ?thesis
      using def False Some x(1) st cl by (cases st) (simp_all add: Let_def)
  qed
qed

lemma safe_rawStream:
  assumes "process_ok p" "objects p this \<noteq> None"
  shows "safe (PerfidiousHandle_rawStream os this idx p)"
proof (cases idx)
  case None
  then show ?thesis using assms(1) by (simp add: PerfidiousHandle_rawStream_def)
next
  case (Some i)
  then show ?thesis
    unfolding PerfidiousHandle_rawStream_def
    using assms by (simp add: safe_on_open_object with_handle_def safe_dup_to_stream)
qed

text \<open>Destroying an object.\<close>

lemma obj_free_runs:
  assumes "process_ok p" "objects p this \<noteq> None"
  obtains p' where "perfidious_handle_obj_free os this p = Ret p'" "process_ok p'"
    "objects p' = (objects p)(this := None)"
proof -
  obtain obj where obj: "objects p this = Some obj" using assms(2) by auto
  show thesis
  proof (cases "\<exists>a. obj_handle obj = Some a \<and> \<not> borrowed obj")
    case True
    then obtain a where a: "obj_handle obj = Some a" "\<not> borrowed obj" by blast
    then have "owns p this a" using obj by (simp add: owns_def)
    with assms(1) obtain r p' where rel: "release_handle a (perfidious_handle_close os) p = Ret (r, p')"
      "process_ok (p'\<lparr>objects := (objects p)(this := None)\<rparr>)" "objects p' = objects p"
      by (rule release_owned [where x = None and q = p]) auto
    then show thesis using that a obj by (simp add: perfidious_handle_obj_free_def)
  next
    case False
    then have "process_ok (p\<lparr>objects := (objects p)(this := None)\<rparr>)"
      using obj assms(1) by (intro process_ok_forget) (auto simp: owns_def)
    moreover have "perfidious_handle_obj_free os this p = Ret (p\<lparr>objects := (objects p)(this := None)\<rparr>)"
      using False obj by (cases "obj_handle obj") (simp_all add: perfidious_handle_obj_free_def)
    ultimately show thesis by (intro that [of "p\<lparr>objects := (objects p)(this := None)\<rparr>"]) simp_all
  qed
qed

section \<open>Closed handles\<close>

text \<open>Once an object has no handle, \<open>close\<close> does nothing and every other method throws
  \<open>ClosedException\<close> and does nothing else.\<close>

definition is_closed :: "'k process \<Rightarrow> nat \<Rightarrow> bool" where
  "is_closed p this \<longleftrightarrow> (\<exists>obj. objects p this = Some obj \<and> obj_handle obj = None)"

lemma on_open_object_closed:
  "is_closed p this \<Longrightarrow>
     on_open_object this body p = Ret (ZNull, zend_throw_exception ClosedException 0 ''Handle is closed'' p)"
  by (auto simp: is_closed_def on_open_object_def perfidious_handle_obj_require_open_def)

lemma close_closes:
  assumes "PerfidiousHandle_close os this p = Ret (z, p')"
  shows "is_closed p' this"
proof -
  have keep: "objects p2 = objects p1" if "release_handle a (perfidious_handle_close os) p1 = Ret (r, p2)"
    for a p1 r p2
  proof -
    from that obtain h p3 where "perfidious_handle_close os h p1 = (r, p3)" "objects p2 = objects p3"
      by (auto simp: release_handle_def split: option.splits prod.splits)
    then show ?thesis using close.closes [of os h p1 r p3] by (cases p1; cases p3) auto
  qed
  from assms show ?thesis
    by (auto simp: PerfidiousHandle_close_def is_closed_def Let_def cbind_Ret_iff
        dest!: keep split: option.splits if_splits)
qed

end
