(* ===== verification/Request.thy ===== *)
theory Request
  imports Handle_Object Counter_Math
begin

text \<open>
  The functions \<open>open\<close> and \<open>request_handle\<close> of \<open>src/functions.c\<close> and the life cycle of the
  per-request handle in \<open>src/linux/platform.c\<close>, called from the module hooks of
  \<open>src/extension.c\<close>: a persistent group opened at the first request, reset and enabled at the
  start of each request, disabled and reset at its end, and closed when the process that opened
  it has forked or the globals go away.
\<close>

section \<open>Functions (functions.c)\<close>

text \<open>The check that runs when a pid above zero is given: nothing if the call may go on.\<close>

definition check_perfmon :: "'k linux_os \<Rightarrow> 'k process \<Rightarrow> bool \<times> 'k process" where
  "check_perfmon os p =
     (case lib_call (os_cap_get_proc os) p of (have_cap, p1) \<Rightarrow>
        if \<not> have_cap then (True, p1)
        else case lib_call (os_cap_get_flag os) p1 of (v, p2) \<Rightarrow>
          (let get_flag_error = errno p2
           in case lib_call (os_cap_free os) p2 of (freed, p3) \<Rightarrow>
             (let free_error = errno p3
              in if v = None
                 then (False, perfidious_error_helper IOException get_flag_error
                         (''cap_get_flag() failed: '' @ os_strerror os get_flag_error) p3)
                 else if \<not> freed
                 then (False, perfidious_error_helper IOException free_error
                         (''cap_free() failed: '' @ os_strerror os free_error) p3)
                 else if v = Some False
                 then (False, zend_throw_exception IOException 0
                         ''pid greater than zero and CAP_PERFMON not set'' p3)
                 else (True, p3))))"

fun all_strings :: "zval list \<Rightarrow> string list option" where
  "all_strings [] = Some []"
| "all_strings (ZString s # zs) = map_option (\<lambda>ss. s # ss) (all_strings zs)"
| "all_strings (z # zs) = None"

text \<open>The end of \<open>open\<close>: the object is created before the descriptors are acquired.\<close>

definition open_into_object ::
  "'k linux_os \<Rightarrow> string list \<Rightarrow> int \<Rightarrow> int \<Rightarrow> 'k process \<Rightarrow> (zval \<times> 'k process) cval" where
  "open_into_object os names pid cpu p =
     (case perfidious_handle_obj_create p of (this, p1) \<Rightarrow>
      case perfidious_handle_open_ex os names pid cpu False p1 of
        (None, p2) \<Rightarrow> cbind (perfidious_handle_obj_free os this p2) (\<lambda>p3. Ret (ZNull, p3))
      | (Some h, p2) \<Rightarrow>
          (case alloc_handle h p2 of (a, p3) \<Rightarrow>
             Ret (ZHandle this,
                  p3\<lparr>objects := (objects p3)(this \<mapsto> \<lparr>obj_handle = Some a, borrowed = False\<rparr>)\<rparr>)))"

text \<open>The checks of \<open>open\<close> before it does anything: the names, pid and CPU to open, or nothing once
  an error was raised. The checks of CPU and names come last.\<close>

definition checked_cpu_and_names ::
  "(php_key \<times> zval) list \<Rightarrow> int \<Rightarrow> zend_long \<Rightarrow> 'k process \<Rightarrow> (string list \<times> int \<times> int) option \<times> 'k process" where
  "checked_cpu_and_names event_names_ht pid cpu p =
     (if cpu < -1
      then (None, zend_throw_exception (ArgumentValueError 3) 0
                  ''must be -1 or a nonnegative CPU identifier'' p)
      else if INT_MAX < cpu
      then (None, zend_throw_exception OverflowException 0
                  (''cpu too large: '' @ show_int cpu @ '' > '' @ show_int INT_MAX) p)
      else if PERFIDIOUS_MAX_EVENT_NAMES < length event_names_ht
      then (None, zend_throw_exception OverflowException 0
                  (''too many event names: '' @ show_nat (length event_names_ht) @ '' > ''
                   @ show_nat PERFIDIOUS_MAX_EVENT_NAMES) p)
      else case all_strings (map snd event_names_ht) of
        None \<Rightarrow> (None, zend_throw_exception TypeError 0 ''All event names must be strings'' p)
      | Some names \<Rightarrow> (Some (names, pid, to_int32 cpu), p))"

definition open_arguments ::
  "'k linux_os \<Rightarrow> (php_key \<times> zval) list \<Rightarrow> zend_long \<Rightarrow> zend_long \<Rightarrow> 'k process
    \<Rightarrow> (string list \<times> int \<times> int) option \<times> 'k process" where
  "open_arguments os event_names_ht pid_zl cpu p =
     (case perfidious_zend_long_to_pid_t pid_zl p of
        (None, p1) \<Rightarrow> (None, p1)
      | (Some pid, p1) \<Rightarrow>
          (case (if 0 < pid then check_perfmon os p1 else (True, p1)) of (allowed, p2) \<Rightarrow>
             if \<not> allowed then (None, p2) else checked_cpu_and_names event_names_ht pid cpu p2))"

definition perfidious_open ::
  "'k linux_os \<Rightarrow> (php_key \<times> zval) list \<Rightarrow> zend_long \<Rightarrow> zend_long \<Rightarrow> 'k process
    \<Rightarrow> (zval \<times> 'k process) cval" where
  "perfidious_open os event_names_ht pid_zl cpu p =
     (case open_arguments os event_names_ht pid_zl cpu p of
        (None, p1) \<Rightarrow> Ret (ZNull, p1)
      | (Some (names, pid, cpu), p1) \<Rightarrow> open_into_object os names pid cpu p1)"

definition perfidious_request_handle :: "'k process \<Rightarrow> zval \<times> 'k process" where
  "perfidious_request_handle p =
     (if request_enable p
      then case exception_ce (request_handle_error p) of
        Some ce \<Rightarrow>
          (let error = request_handle_error p
           in (ZNull, perfidious_error_helper ce (code error) (message error)
                        (p\<lparr>request_handle_error := no_error\<rparr>)))
      | None \<Rightarrow>
          (case request_handle p of
             None \<Rightarrow> (ZNull, p)
           | Some a \<Rightarrow>
               if \<not> request_handle_ready p then (ZNull, p)
               else case perfidious_handle_obj_create p of (this, p1) \<Rightarrow>
                 (ZHandle this,
                  p1\<lparr>objects := (objects p1)(this \<mapsto> \<lparr>obj_handle = Some a, borrowed = True\<rparr>)\<rparr>))
      else (ZNull, p))"

section \<open>The handle of the request (linux/platform.c)\<close>

text \<open>\<open>php_explode\<close> with a positive limit: the last field keeps the rest of the text.\<close>

fun php_explode :: "char \<Rightarrow> string \<Rightarrow> nat \<Rightarrow> string list" where
  "php_explode delim [] limit = [[]]"
| "php_explode delim (c # s) limit =
     (if c = delim \<and> 1 < limit then [] # php_explode delim s (limit - 1)
      else case php_explode delim s limit of
             [] \<Rightarrow> [[c]]
           | f # fs \<Rightarrow> (c # f) # fs)"

definition perfidious_request_handle_record_error ::
  "'k linux_os \<Rightarrow> string \<Rightarrow> int \<Rightarrow> 'k process \<Rightarrow> 'k process" where
  "perfidious_request_handle_record_error os operation error_number p =
     (if error_number \<noteq> 0 \<and> exception_ce (request_handle_error p) = None
      then p\<lparr>request_handle_error := perfidious_error_set IOException error_number
               (''request handle unavailable after '' @ operation @ '' failed: ''
                @ os_strerror os error_number)\<rparr>
      else p)"

definition split_and_open ::
  "'k linux_os \<Rightarrow> string \<Rightarrow> 'k process \<Rightarrow> (perfidious_error + perfidious_handle) \<times> 'k process" where
  "split_and_open os names p =
     (let arr = php_explode CHR '','' names (PERFIDIOUS_MAX_EVENT_NAMES + 1)
      in if PERFIDIOUS_MAX_EVENT_NAMES < length arr
         then (Inl (perfidious_error_set OverflowException 0
                 (''too many request metric names: maximum is ''
                  @ show_nat PERFIDIOUS_MAX_EVENT_NAMES)), p)
         else perfidious_handle_try_open_ex os arr 0 (-1) True p)"

text \<open>Closing the handle of the globals without reporting, as the fork check and the globals
  destructor do.\<close>

definition drop_request_handle :: "'k linux_os \<Rightarrow> 'k process \<Rightarrow> 'k process cval" where
  "drop_request_handle os p =
     (case request_handle p of
        None \<Rightarrow> Ret p
      | Some a \<Rightarrow>
          cbind (release_handle a (perfidious_handle_try_close os) p)
            (\<lambda>(error_number, p1). Ret (p1\<lparr>request_handle := None\<rparr>)))"

definition perfidious_platform_globals_shutdown :: "'k linux_os \<Rightarrow> 'k process \<Rightarrow> 'k process cval" where
  "perfidious_platform_globals_shutdown os p = drop_request_handle os p"

text \<open>The stages of \<open>RINIT\<close>: notice a fork, open the group, reset and enable it.\<close>

definition rinit_fork_check :: "'k linux_os \<Rightarrow> 'k process \<Rightarrow> 'k process cval" where
  "rinit_fork_check os p =
     (let pid = os_getpid os (kernel p)
      in if request_handle_pid p \<noteq> pid
         then cbind (drop_request_handle os p)
                (\<lambda>p1. Ret (p1\<lparr>request_handle_pid := pid, request_handle_error := no_error\<rparr>))
         else Ret p)"

definition rinit_open :: "'k linux_os \<Rightarrow> 'k process \<Rightarrow> 'k process" where
  "rinit_open os p =
     (case (request_handle p, request_metrics p) of
        (None, Some names) \<Rightarrow>
          (case split_and_open os names p of
             (Inl error, p1) \<Rightarrow>
               if exception_ce error \<noteq> None \<and> exception_ce (request_handle_error p1) = None
               then p1\<lparr>request_handle_error := error\<rparr> else p1
           | (Inr h, p1) \<Rightarrow> (case alloc_handle h p1 of (a, p2) \<Rightarrow> p2\<lparr>request_handle := Some a\<rparr>))
      | _ \<Rightarrow> p)"

definition rinit_start :: "'k linux_os \<Rightarrow> 'k process \<Rightarrow> 'k process cval" where
  "rinit_start os p =
     (case request_handle p of
        None \<Rightarrow> Ret p
      | Some a \<Rightarrow>
          cbind (at_handle a (perfidious_handle_try_reset os) p) (\<lambda>(error_number, p1).
            if error_number \<noteq> 0
            then Ret (perfidious_request_handle_record_error os ''reset'' error_number p1)
            else cbind (at_handle a (\<lambda>h. perfidious_handle_try_set_enabled os h True) p1)
                   (\<lambda>(error_number, p2).
                      Ret ((perfidious_request_handle_record_error os ''enable'' error_number p2)
                             \<lparr>request_handle_ready := (error_number = 0)\<rparr>))))"

definition RINIT_perfidious_platform :: "'k linux_os \<Rightarrow> 'k process \<Rightarrow> 'k process cval" where
  "RINIT_perfidious_platform os p =
     cbind (rinit_fork_check os (p\<lparr>request_handle_ready := False\<rparr>))
       (\<lambda>p1. if \<not> request_enable p1 then Ret p1 else rinit_start os (rinit_open os p1))"

definition RSHUTDOWN_perfidious_platform :: "'k linux_os \<Rightarrow> 'k process \<Rightarrow> 'k process cval" where
  "RSHUTDOWN_perfidious_platform os p =
     cbind (case request_handle p of
              None \<Rightarrow> Ret p
            | Some a \<Rightarrow>
                cbind (at_handle a (\<lambda>h. perfidious_handle_try_set_enabled os h False) p)
                  (\<lambda>(e1, p1). cbind (at_handle a (perfidious_handle_try_reset os)
                       (perfidious_request_handle_record_error os ''disable'' e1 p1))
                  (\<lambda>(e2, p2). Ret (perfidious_request_handle_record_error os ''reset'' e2 p2))))
       (\<lambda>p3. Ret (p3\<lparr>request_handle_ready := False\<rparr>))"

section \<open>The information page (linux/platform.c)\<close>

datatype info_item =
    TableStart
  | TableEnd
  | ColspanHeader nat string
  | TableHeader "string list"
  | TableRow "string list"
  | InfoBox string

definition scaled_text :: "u64 option \<Rightarrow> string \<Rightarrow> string" where
  "scaled_text v suffix = (case v of None \<Rightarrow> ''overflow'' | Some n \<Rightarrow> show_nat (unat n) @ suffix)"

text \<open>One row per string key with an integer value; the raw value prints as unsigned.\<close>

fun metric_rows :: "u64 \<Rightarrow> u64 \<Rightarrow> (php_key \<times> zval) list \<Rightarrow> info_item list" where
  "metric_rows time_enabled time_running [] = []"
| "metric_rows time_enabled time_running ((KStr key, ZLong val) # rest) =
     (let perc = (if time_enabled = 0 then Some 0
                  else perfidious_scale_uint64 time_running 100 time_enabled);
          scaled = (if time_running = 0 then Some 0
                    else perfidious_scale_uint64 (to_u64 val) time_enabled time_running)
      in TableRow [c_str key, show_nat (unat (to_u64 val)), scaled_text scaled [], scaled_text perc ''%''])
     # metric_rows time_enabled time_running rest"
| "metric_rows time_enabled time_running (_ # rest) = metric_rows time_enabled time_running rest"

definition minfo_handle_metrics ::
  "'k linux_os \<Rightarrow> perfidious_handle \<Rightarrow> 'k process \<Rightarrow> (info_item list \<times> 'k process) cval" where
  "minfo_handle_metrics os h p =
     cbind (perfidious_handle_read_to_array_with_times os h p) (\<lambda>(r, p1).
       Ret (case r of
              None \<Rightarrow> [ColspanHeader 3 ''READ ERROR'']
            | Some (z_metrics, time_enabled, time_running) \<Rightarrow>
                if time_enabled < time_enabled_at_reset h \<or> time_running < time_running_at_reset h
                then [ColspanHeader 4 ''READ ERROR'']
                else metric_rows (time_enabled - time_enabled_at_reset h)
                       (time_running - time_running_at_reset h) z_metrics, p1))"

definition MINFO_perfidious_platform ::
  "'k linux_os \<Rightarrow> 'k process \<Rightarrow> (info_item list \<times> 'k process) cval" where
  "MINFO_perfidious_platform os p =
     (case request_handle p of
        None \<Rightarrow> Ret ([], p)
      | Some a \<Rightarrow>
          if \<not> request_enable p then Ret ([], p)
          else cbind (with_handle a (minfo_handle_metrics os) p) (\<lambda>(rows, p1).
            Ret ([TableStart, ColspanHeader 4 ''Request Metrics'',
                  TableHeader [''Event'', ''Counter'', ''Scaled'', ''% Running'']] @ rows @ [TableEnd], p1)))"

section \<open>Opening from PHP\<close>

lemma process_ok_cong:
  assumes "heap p' = heap p" "next_addr p' = next_addr p" "objects p' = objects p"
    "next_object p' = next_object p" "streams p' = streams p" "request_handle p' = request_handle p"
    "trace p' = trace p"
  shows "process_ok p' = process_ok p"
proof -
  have o: "owns p' = owns p" "borrows p' = borrows p" "has_owner p' = has_owner p"
    by (intro owner_congs; simp add: assms)+
  show ?thesis unfolding process_ok_def ownership_def descriptors_def o by (simp add: assms)
qed

lemma process_ok_updates [simp]:
  "process_ok (p\<lparr>kernel := k\<rparr>) = process_ok p"
  "process_ok (p\<lparr>exceptions := es\<rparr>) = process_ok p"
  "process_ok (p\<lparr>error_mode := em\<rparr>) = process_ok p"
  "process_ok (p\<lparr>request_enable := re\<rparr>) = process_ok p"
  "process_ok (p\<lparr>request_metrics := rm\<rparr>) = process_ok p"
  "process_ok (p\<lparr>request_handle_pid := rp\<rparr>) = process_ok p"
  "process_ok (p\<lparr>request_handle_ready := rr\<rparr>) = process_ok p"
  "process_ok (p\<lparr>request_handle_error := er\<rparr>) = process_ok p"
  by (rule process_ok_cong; simp)+

lemma quiet_lib_call: "lib_call f p = (r, p') \<Longrightarrow> quiet p p'"
  by (auto dest!: lib_call_trace intro: quiet_same_php)

lemma quiet_check_perfmon: "check_perfmon os p = (ok, p') \<Longrightarrow> quiet p p'"
proof -
  assume c: "check_perfmon os p = (ok, p')"
  obtain r1 p1 where l1: "lib_call (os_cap_get_proc os) p = (r1, p1)" by fastforce
  obtain r2 p2 where l2: "lib_call (os_cap_get_flag os) p1 = (r2, p2)" by fastforce
  obtain r3 p3 where l3: "lib_call (os_cap_free os) p2 = (r3, p3)" by fastforce
  have "quiet p p1" "quiet p p3"
    using quiet_lib_call [OF l1] quiet_lib_call [OF l2] quiet_lib_call [OF l3]
    by (blast intro: quiet_trans)+
  with c l1 l2 l3 show ?thesis
    by (auto simp: check_perfmon_def Let_def intro: quiet_trans split: if_splits)
qed

lemma all_strings_length: "all_strings zs = Some ss \<Longrightarrow> length ss = length zs"
  by (induction zs arbitrary: ss rule: all_strings.induct) auto

lemma process_ok_create:
  assumes "process_ok p"
  shows "process_ok (snd (perfidious_handle_obj_create p))"
proof -
  let ?p = "snd (perfidious_handle_obj_create p)"
  note def = perfidious_handle_obj_create_def
  have own: "ownership p" using assms by (simp add: process_ok_def)
  have fresh: "objects p (next_object p) = None" using ownershipD(5) [OF own] by simp
  have o: "owns ?p = owns p" "borrows ?p = borrows p"
    using fresh by (auto simp: owns_def borrows_def def fun_eq_iff)
  then have "has_owner ?p = has_owner p" by (simp add: has_owner_def def fun_eq_iff)
  with o have "ownership ?p"
    using ownershipD [OF own] by (intro ownershipI) (auto simp: def)
  then show ?thesis using assms by (simp add: process_ok_def descriptors_def def)
qed

text \<open>A handle that was just opened, given to a new owner.\<close>

lemma descriptors_alloc:
  assumes "descriptors p" "ownership p" "valid_handle h"
    and "live (trace p1) = live (trace p) + mset (handle_fds h)" "closes_live (trace p1)"
    and "heap p1 = (heap p)(next_addr p \<mapsto> h)" "streams p1 = streams p"
  shows "descriptors p1"
proof -
  have "next_addr p \<notin> dom (heap p)" using ownershipD(2) [OF assms(2)] by fastforce
  then have "heap_fds (heap p1) = mset (handle_fds h) + heap_fds (heap p)"
    using ownershipD(1) [OF assms(2)] by (simp add: assms(6) heap_fds_insert)
  with assms show ?thesis by (simp add: descriptors_def)
qed

lemma ownership_gain:
  assumes own: "ownership p" and h: "valid_handle h"
    and eqs: "heap p' = (heap p)(next_addr p \<mapsto> h)" "next_addr p' = Suc (next_addr p)"
      "next_object p' = next_object p"
    and owner: "request_handle p' = request_handle p \<and>
        (\<exists>i obj. objects p i = Some obj \<and> obj_handle obj = None \<and>
           objects p' = (objects p)(i \<mapsto> \<lparr>obj_handle = Some (next_addr p), borrowed = False\<rparr>))
      \<or> request_handle p = None \<and> request_handle p' = Some (next_addr p) \<and> objects p' = objects p"
  shows "ownership p'"
proof -
  note d = ownershipD [OF own]
  have fresh: "heap p (next_addr p) = None" using d(2) [of "next_addr p"] by (cases "heap p (next_addr p)") auto
  have no: "\<not> owns p i (next_addr p)" "request_handle p \<noteq> Some (next_addr p)" for i
    using d(6) [of i "next_addr p"] d(10) [of "next_addr p"] fresh by auto
  from owner show ?thesis
  proof
    assume o: "request_handle p' = request_handle p \<and>
        (\<exists>i obj. objects p i = Some obj \<and> obj_handle obj = None \<and>
           objects p' = (objects p)(i \<mapsto> \<lparr>obj_handle = Some (next_addr p), borrowed = False\<rparr>))"
    then obtain i obj where i: "objects p i = Some obj" "obj_handle obj = None"
      "objects p' = (objects p)(i \<mapsto> \<lparr>obj_handle = Some (next_addr p), borrowed = False\<rparr>)"
      and r: "request_handle p' = request_handle p" by blast
    have ow: "owns p' j b \<longleftrightarrow> owns p j b \<or> (j = i \<and> b = next_addr p)" for j b
      using i by (auto simp: owns_def)
    have bo: "borrows p' = borrows p" using i by (auto simp: borrows_def fun_eq_iff)
    have ho: "has_owner p' b \<longleftrightarrow> has_owner p b \<or> b = next_addr p" for b
      by (auto simp: has_owner_def ow r)
    have lt: "i < next_object p" using d(5) [of i] i(1) by (cases "i < next_object p") auto
    show ?thesis
    proof (rule ownershipI)
      fix j b assume "owns p' j b"
      then show "request_handle p' \<noteq> Some b" using d(7) no by (auto simp: ow r)
    next
      fix j k b assume "owns p' j b" "owns p' k b"
      then show "j = k" using d(9) no by (auto simp: ow)
    qed (use d(1) h lt in \<open>auto simp: eqs i(3) ow bo ho r split: if_splits
        dest: d(2,3,4,5,6,8,10) intro: less_SucI\<close>)
  next
    assume "request_handle p = None \<and> request_handle p' = Some (next_addr p) \<and> objects p' = objects p"
    then have r: "request_handle p = None" "request_handle p' = Some (next_addr p)" "objects p' = objects p"
      by simp_all
    have o: "owns p' = owns p" "borrows p' = borrows p" using r(3) by (intro owner_congs; simp)+
    have ho: "has_owner p' b \<longleftrightarrow> has_owner p b \<or> b = next_addr p" for b
      by (auto simp: has_owner_def o r)
    show ?thesis
    proof (rule ownershipI)
      fix j b assume "borrows p' j b"
      then show "request_handle p' = Some b" using d(8) r(1) by (auto simp: o)
    qed (use d(1) h r(1) no in \<open>auto simp: eqs r o ho split: if_splits
        dest: d(2,3,4,5,6,9) intro: less_SucI\<close>)
  qed
qed

lemma report_error_quiet: "quiet p (report_error e p)"
  by (simp add: report_error_def split: option.split)

text \<open>Opening on a process: what fails is quiet, what succeeds adds the descriptors of a valid
  handle and nothing else.\<close>

lemma open_failed_quiet:
  "perfidious_handle_try_open_ex os names pid cpu ps p = (Inl e, p') \<Longrightarrow> quiet p p'"
  by (auto dest!: try_open_ex_failed intro: quiet_same_php)

lemma opened_valid:
  assumes "perfidious_handle_try_open_ex os names pid cpu ps p = (Inr h, p')"
    and "length names \<le> PERFIDIOUS_MAX_EVENT_NAMES"
  shows "valid_handle h"
proof -
  have "map m_name (metrics h) = None # map Some names" using try_open_ex_opened [OF assms(1)] by simp
  then have "length (metrics h) = Suc (length names)" by (metis length_Cons length_map)
  with assms(2) show ?thesis by (auto simp: valid_handle_def)
qed

lemma safe_open_into_object:
  assumes ok: "process_ok p" and n: "length names \<le> PERFIDIOUS_MAX_EVENT_NAMES"
  shows "safe (open_into_object os names pid cpu p)"
proof -
  obtain this p1 where c: "perfidious_handle_obj_create p = (this, p1)" by fastforce
  have ok1: "process_ok p1" using process_ok_create [OF ok] c by simp
  have obj: "objects p1 this = Some \<lparr>obj_handle = None, borrowed = False\<rparr>"
    using c by (auto simp: perfidious_handle_obj_create_def)
  obtain r p2 where op: "perfidious_handle_try_open_ex os names pid cpu False p1 = (r, p2)" by fastforce
  show ?thesis
  proof (cases r)
    case (Inl e)
    have q: "quiet p1 (report_error e p2)"
      using open_failed_quiet op Inl report_error_quiet by (blast intro: quiet_trans)
    have "process_ok (report_error e p2)" using q ok1 by (rule process_ok_quiet)
    moreover have "objects (report_error e p2) this \<noteq> None" using obj by (simp add: quiet_fields [OF q])
    ultimately obtain p3 where "perfidious_handle_obj_free os this (report_error e p2) = Ret p3" "process_ok p3"
      by (rule obj_free_runs)
    with Inl op c show ?thesis by (simp add: open_into_object_def perfidious_handle_open_ex_def)
  next
    case (Inr h)
    have h: "valid_handle h" using op Inr n by (intro opened_valid) simp_all
    have t: "live (trace p2) = live (trace p1) + mset (handle_fds h)" "same_php p1 p2"
      "closes_live (trace p1) \<longrightarrow> closes_live (trace p2)"
      using try_open_ex_opened [OF op [unfolded Inr]] by simp_all
    note eqs = same_php_process [OF t(2)]
    let ?p = "p2\<lparr>heap := (heap p2)(next_addr p2 \<mapsto> h), next_addr := Suc (next_addr p2),
      objects := (objects p2)(this \<mapsto> \<lparr>obj_handle = Some (next_addr p2), borrowed = False\<rparr>)\<rparr>"
    have own: "ownership p1" and ds: "descriptors p1" using ok1 by (simp_all add: process_ok_def)
    have "descriptors ?p"
      by (rule descriptors_alloc [OF ds own h]) (use t ds in \<open>simp_all add: eqs descriptors_def\<close>)
    moreover have "ownership ?p"
    proof (rule ownership_gain [OF own h])
      show "request_handle ?p = request_handle p1 \<and>
        (\<exists>i obj. objects p1 i = Some obj \<and> obj_handle obj = None \<and>
           objects ?p = (objects p1)(i \<mapsto> \<lparr>obj_handle = Some (next_addr p1), borrowed = False\<rparr>))
        \<or> request_handle p1 = None \<and> request_handle ?p = Some (next_addr p1) \<and> objects ?p = objects p1"
        using obj by (intro disjI1 conjI exI [of _ this]) (auto simp: eqs)
    qed (simp_all add: eqs)
    ultimately show ?thesis
      using Inr op c by (simp add: open_into_object_def perfidious_handle_open_ex_def alloc_handle_def process_ok_def)
  qed
qed

lemma pid_conv_quiet: "perfidious_zend_long_to_pid_t z p = (r, p') \<Longrightarrow> quiet p p'"
  by (auto simp: perfidious_zend_long_to_pid_t_def split: if_splits)

text \<open>The checks open nothing, and pass on as many names as there are.\<close>

lemma open_arguments_quiet:
  assumes "open_arguments os ht pid_zl cpu p = (r, p')"
  shows "quiet p p' \<and> (\<forall>names pid c. r = Some (names, pid, c) \<longrightarrow>
    all_strings (map snd ht) = Some names \<and> length names \<le> PERFIDIOUS_MAX_EVENT_NAMES)"
proof -
  obtain r0 p1 where c: "perfidious_zend_long_to_pid_t pid_zl p = (r0, p1)" by fastforce
  note q1 = pid_conv_quiet [OF c]
  show ?thesis
  proof (cases r0)
    case None
    with c q1 assms show ?thesis by (simp add: open_arguments_def)
  next
    case (Some pid)
    obtain al p2 where al: "(if 0 < pid then check_perfmon os p1 else (True, p1)) = (al, p2)" by fastforce
    then have "quiet p1 p2" by (auto split: if_splits dest: quiet_check_perfmon)
    with q1 have q: "quiet p p2" by (rule quiet_trans)
    then have "quiet p (zend_throw_exception ce c s p2)" for ce c s by (rule quiet_trans) simp
    with c Some al q assms show ?thesis
      by (auto simp: open_arguments_def checked_cpu_and_names_def dest: all_strings_length split: option.splits if_splits)
  qed
qed

lemma safe_open:
  assumes ok: "process_ok p"
  shows "safe (perfidious_open os ht pid_zl cpu p)"
proof -
  obtain r p1 where c: "open_arguments os ht pid_zl cpu p = (r, p1)" by fastforce
  note a = open_arguments_quiet [OF c]
  have ok1: "process_ok p1" using a ok by (blast intro: process_ok_quiet)
  show ?thesis
  proof (cases r)
    case None
    with c ok1 show ?thesis by (simp add: perfidious_open_def)
  next
    case (Some x)
    with a ok1 c show ?thesis by (cases x) (simp add: perfidious_open_def safe_open_into_object)
  qed
qed

text \<open>What a successful opening leaves: a new object that owns a disabled group with the names given.\<close>

lemma opened_object:
  assumes "perfidious_open os ht pid_zl cpu p = Ret (ZHandle this, p')"
  obtains names a h where "all_strings (map snd ht) = Some names"
    "objects p' this = Some \<lparr>obj_handle = Some a, borrowed = False\<rparr>" "heap p' a = Some h"
    "named_group names h" "valid_handle h" "\<not> enabled h"
proof -
  obtain r p1 where c: "open_arguments os ht pid_zl cpu p = (r, p1)" by fastforce
  from assms c obtain names pid n where r: "r = Some (names, pid, n)"
    and o: "open_into_object os names pid n p1 = Ret (ZHandle this, p')"
    by (cases r) (auto simp: perfidious_open_def)
  have a: "all_strings (map snd ht) = Some names" "length names \<le> PERFIDIOUS_MAX_EVENT_NAMES"
    using open_arguments_quiet [OF c] r by blast+
  obtain i p2 where cr: "perfidious_handle_obj_create p1 = (i, p2)" by fastforce
  obtain x p3 where t: "perfidious_handle_try_open_ex os names pid n False p2 = (x, p3)" by fastforce
  show thesis
  proof (cases x)
    case (Inl e)
    then show thesis
      using o cr t by (auto simp: open_into_object_def perfidious_handle_open_ex_def cbind_Ret_iff)
  next
    case (Inr h)
    note h = try_open_ex_opened [OF t [unfolded Inr]]
    have "valid_handle h" using t Inr a(2) by (intro opened_valid) simp_all
    with h o cr t a(1) Inr show thesis
      by (intro that [of names "next_addr p3" h])
        (auto simp: open_into_object_def perfidious_handle_open_ex_def alloc_handle_def named_group_def)
  qed
qed

lemma process_ok_request_handle:
  assumes ok: "process_ok p"
  shows "process_ok (snd (perfidious_request_handle p))"
proof (cases "request_enable p \<and> exception_ce (request_handle_error p) = None \<and>
    request_handle p \<noteq> None \<and> request_handle_ready p")
  case False
  then show ?thesis
    using ok by (auto simp: perfidious_request_handle_def Let_def split: option.splits)
next
  case True
  then obtain a where a: "request_handle p = Some a" by auto
  let ?x = "\<lparr>obj_handle = Some a, borrowed = True\<rparr>"
  let ?p = "p\<lparr>next_object := Suc (next_object p), objects := (objects p)(next_object p \<mapsto> ?x)\<rparr>"
  have own: "ownership p" using ok by (simp add: process_ok_def)
  note d = ownershipD [OF own]
  have fresh: "objects p (next_object p) = None" using d(5) by simp
  have o: "owns ?p = owns p" "borrows ?p j b \<longleftrightarrow> borrows p j b \<or> j = next_object p \<and> b = a" for j b
    using fresh by (auto simp: owns_def borrows_def fun_eq_iff)
  then have "has_owner ?p = has_owner p" by (simp add: has_owner_def fun_eq_iff)
  with o have "ownership ?p" using d a by (intro ownershipI) auto
  then have "process_ok ?p" using ok by (simp add: process_ok_def descriptors_def)
  with True a show ?thesis
    by (auto simp: perfidious_request_handle_def perfidious_handle_obj_create_def)
qed

section \<open>The life cycle of the request handle\<close>

definition no_borrowers :: "'k process \<Rightarrow> bool" where
  "no_borrowers p \<longleftrightarrow> (\<forall>i a. \<not> borrows p i a)"

lemma drop_request_handle_runs:
  assumes ok: "process_ok p" and nb: "no_borrowers p"
  obtains p' where "drop_request_handle os p = Ret p'" "process_ok p'" "request_handle p' = None"
    "objects p' = objects p" "streams p' = streams p" "request_enable p' = request_enable p"
    "request_metrics p' = request_metrics p" "request_handle_ready p' = request_handle_ready p"
    "error_mode p' = error_mode p"
proof (cases "request_handle p")
  case None
  then show thesis using that [of p] ok by (simp add: drop_request_handle_def)
next
  case (Some a)
  have own: "ownership p" and ds: "descriptors p" using ok by (simp_all add: process_ok_def)
  note d = ownershipD [OF own]
  obtain h where h: "heap p a = Some h" using d(10) [OF Some] by auto
  obtain r p1 p' where rel: "release_handle a (perfidious_handle_try_close os) p = Ret (r, p')"
    "descriptors p'" "heap p' = (heap p)(a := None)" "next_addr p' = next_addr p" "same_objects p p'"
    by (rule try_close.release_runs [OF ds d(1) h])
  let ?p = "p'\<lparr>request_handle := None\<rparr>"
  have eqs: "objects ?p = objects p" "next_object ?p = next_object p"
    using rel(5) by (simp_all add: same_objects_def)
  have o: "owns ?p = owns p" "borrows ?p = borrows p" by (intro owner_congs; simp only: eqs)+
  have noa: "\<not> owns p i a" for i using d(7) Some by blast
  have ho: "has_owner ?p b" if "has_owner p b" "b \<noteq> a" for b
    using that Some unfolding has_owner_def o by auto
  have "ownership ?p"
  proof (rule ownershipI)
    fix i b assume "owns ?p i b"
    then have "owns p i b" by (simp only: o)
    then show "heap ?p b \<noteq> None" using d(6) noa rel(3) by (cases "b = a") auto
  qed (use d nb rel(3,4) ho in \<open>auto simp: eqs o no_borrowers_def split: if_splits\<close>)
  moreover have "descriptors ?p" using rel(2) by (simp add: descriptors_def)
  ultimately show thesis
    using that [of ?p] Some rel by (simp add: drop_request_handle_def process_ok_def same_objects_def)
qed

text \<open>What the hooks never touch: the objects, the streams, the configuration and the error mode.\<close>

definition same_user :: "'k process \<Rightarrow> 'k process \<Rightarrow> bool" where
  "same_user p p' \<longleftrightarrow> objects p' = objects p \<and> streams p' = streams p \<and>
     request_enable p' = request_enable p \<and> request_metrics p' = request_metrics p \<and>
     error_mode p' = error_mode p"

lemma same_user_refl [simp, intro]: "same_user p p"
  by (simp add: same_user_def)

lemma same_user_trans [trans]: "same_user a b \<Longrightarrow> same_user b c \<Longrightarrow> same_user a c"
  by (simp add: same_user_def)

lemma same_user_objects: "same_objects p p' \<Longrightarrow> same_user p p'"
  by (simp add: same_user_def same_objects_def)

lemma same_user_updates [simp]:
  "same_user p (p'\<lparr>request_handle := rh\<rparr>) = same_user p p'"
  "same_user p (p'\<lparr>request_handle_pid := rp\<rparr>) = same_user p p'"
  "same_user p (p'\<lparr>request_handle_ready := rr\<rparr>) = same_user p p'"
  "same_user p (p'\<lparr>request_handle_error := re\<rparr>) = same_user p p'"
  "same_user (p\<lparr>request_handle_ready := rr\<rparr>) p' = same_user p p'"
  by (simp_all add: same_user_def)

lemma record_error_simps [simp]:
  "heap (perfidious_request_handle_record_error os op e p) = heap p"
  "request_handle (perfidious_request_handle_record_error os op e p) = request_handle p"
  "request_handle_ready (perfidious_request_handle_record_error os op e p) = request_handle_ready p"
  "trace (perfidious_request_handle_record_error os op e p) = trace p"
  "exceptions (perfidious_request_handle_record_error os op e p) = exceptions p"
  "warnings (perfidious_request_handle_record_error os op e p) = warnings p"
  "process_ok (perfidious_request_handle_record_error os op e p) = process_ok p"
  "same_user q (perfidious_request_handle_record_error os op e p) = same_user q p"
  by (simp_all add: perfidious_request_handle_record_error_def same_user_def)

lemma fork_check_runs:
  assumes "process_ok p" "no_borrowers p"
  obtains p' where "rinit_fork_check os p = Ret p'" "process_ok p'" "same_user p p'"
    "request_handle_ready p' = request_handle_ready p" "request_handle_pid p' = os_getpid os (kernel p)"
    "request_handle_pid p \<noteq> request_handle_pid p' \<Longrightarrow>
       request_handle p' = None \<and> exception_ce (request_handle_error p') = None"
proof (cases "request_handle_pid p = os_getpid os (kernel p)")
  case True
  then show thesis using that [of p] assms(1) by (simp add: rinit_fork_check_def Let_def)
next
  case False
  obtain p1 where d: "drop_request_handle os p = Ret p1" "process_ok p1" "request_handle p1 = None"
    "objects p1 = objects p" "streams p1 = streams p" "request_enable p1 = request_enable p"
    "request_metrics p1 = request_metrics p" "request_handle_ready p1 = request_handle_ready p"
    "error_mode p1 = error_mode p"
    by (rule drop_request_handle_runs [OF assms])
  let ?p = "p1\<lparr>request_handle_pid := os_getpid os (kernel p), request_handle_error := no_error\<rparr>"
  show thesis
    using that [of ?p] d False
    by (simp add: rinit_fork_check_def Let_def same_user_def no_error_def)
qed

lemma php_explode_nonempty [simp]: "php_explode d s n \<noteq> []"
  by (cases s) (auto split: list.split)

lemma php_explode_length: "length (php_explode d s n) = min (Suc (count_list s d)) (max 1 n)"
proof (induction s arbitrary: n)
  case Nil
  then show ?case by simp
next
  case (Cons c s)
  show ?case
  proof (cases "c = d \<and> 1 < n")
    case True
    then show ?thesis using Cons.IH [of "n - 1"] by (auto simp: min_def max_def)
  next
    case False
    obtain f fs where f: "php_explode d s n = f # fs" using php_explode_nonempty by (meson neq_Nil_conv)
    have "length (php_explode d (c # s) n) = length (php_explode d s n)" using False f by auto
    then show ?thesis using False Cons.IH [of n] by (auto simp: min_def max_def)
  qed
qed

lemma rinit_open_runs:
  assumes ok: "process_ok p"
  shows "process_ok (rinit_open os p) \<and> same_user p (rinit_open os p) \<and>
    request_handle_ready (rinit_open os p) = request_handle_ready p"
proof (cases "\<exists>names. request_handle p = None \<and> request_metrics p = Some names")
  case False
  then show ?thesis using ok by (auto simp: rinit_open_def split: option.splits)
next
  case True
  then obtain names where n: "request_handle p = None" "request_metrics p = Some names" by blast
  obtain r p1 where s: "split_and_open os names p = (r, p1)" by fastforce
  note def = rinit_open_def [of os p, unfolded n option.case prod.case s]
  show ?thesis
  proof (cases r)
    case (Inl e)
    have q: "quiet p p1"
      using s Inl by (auto simp: split_and_open_def Let_def split: if_splits dest: open_failed_quiet)
    then have "process_ok p1" using ok by (rule process_ok_quiet)
    with def Inl same_user_objects [OF same_objects_quiet [OF q]] show ?thesis
      by (simp add: quiet_fields [OF q])
  next
    case (Inr h)
    let ?arr = "php_explode CHR '','' names (PERFIDIOUS_MAX_EVENT_NAMES + 1)"
    have op: "perfidious_handle_try_open_ex os ?arr 0 (-1) True p = (Inr h, p1)"
      and len: "length ?arr \<le> PERFIDIOUS_MAX_EVENT_NAMES"
      using s Inr by (auto simp: split_and_open_def Let_def split: if_splits)
    have h: "valid_handle h" using op len by (rule opened_valid)
    have t: "live (trace p1) = live (trace p) + mset (handle_fds h)" "same_php p p1"
      "closes_live (trace p) \<longrightarrow> closes_live (trace p1)"
      using try_open_ex_opened [OF op] by simp_all
    note eqs = same_php_process [OF t(2)]
    let ?p = "p1\<lparr>heap := (heap p1)(next_addr p1 \<mapsto> h), next_addr := Suc (next_addr p1),
      request_handle := Some (next_addr p1)\<rparr>"
    have own: "ownership p" and ds: "descriptors p" using ok by (simp_all add: process_ok_def)
    have "descriptors ?p"
      by (rule descriptors_alloc [OF ds own h]) (use t ds in \<open>simp_all add: eqs descriptors_def\<close>)
    moreover have "ownership ?p"
      by (rule ownership_gain [OF own h]) (use n in \<open>simp_all add: eqs\<close>)
    ultimately show ?thesis
      using def Inr by (simp add: alloc_handle_def process_ok_def same_user_def eqs)
  qed
qed

lemma rinit_start_runs:
  assumes ok: "process_ok p" and nr: "\<not> request_handle_ready p"
  obtains p' where "rinit_start os p = Ret p'" "process_ok p'" "same_user p p'"
    "request_handle_ready p' \<Longrightarrow>
       \<exists>a h. request_handle p' = Some a \<and> heap p' a = Some h \<and> enabled h"
proof (cases "request_handle p")
  case None
  then show thesis using that [of p] ok nr by (simp add: rinit_start_def)
next
  case (Some a)
  have "ownership p" using ok by (simp add: process_ok_def)
  then obtain h where h: "heap p a = Some h" using ownershipD(10) Some by blast
  obtain e1 h1 q1 p1 where r: "at_handle a (perfidious_handle_try_reset os) p = Ret (e1, p1)"
    "process_ok p1" "same_objects p p1" "heap p1 = (heap p)(a \<mapsto> h1)"
    by (rule try_reset.at_handle_runs [OF ok h])
  have rs: "same_user p p1" "request_handle p1 = Some a" "\<not> request_handle_ready p1"
    using r(3) Some nr by (simp_all add: same_objects_def same_user_def)
  show thesis
  proof (cases "e1 = 0")
    case False
    let ?p = "perfidious_request_handle_record_error os ''reset'' e1 p1"
    show thesis using that [of ?p] False r rs Some by (simp add: rinit_start_def)
  next
    case True
    have h1: "heap p1 a = Some h1" using r(4) by simp
    obtain e2 h2 q2 p2 where en: "perfidious_handle_try_set_enabled os h1 True p1 = (e2, h2, q2)"
      "at_handle a (\<lambda>h. perfidious_handle_try_set_enabled os h True) p1 = Ret (e2, p2)"
      "process_ok p2" "same_objects p1 p2" "heap p2 = (heap p1)(a \<mapsto> h2)"
      by (rule set_enabled.at_handle_runs [OF r(2) h1])
    have "e2 = 0 \<Longrightarrow> enabled h2" using try_set_enabled_run [OF en(1)] by simp
    moreover have "same_user p p2" "request_handle p2 = Some a"
      using rs en(4) by (auto simp: same_objects_def same_user_def)
    ultimately show thesis
      using that [of "(perfidious_request_handle_record_error os ''enable'' e2 p2)\<lparr>request_handle_ready := (e2 = 0)\<rparr>"]
        True r(1) Some en by (simp add: rinit_start_def)
  qed
qed

lemma RINIT_runs:
  assumes "process_ok p" "no_borrowers p"
  obtains p' where "RINIT_perfidious_platform os p = Ret p'" "process_ok p'" "same_user p p'"
    "request_handle_ready p' \<Longrightarrow>
       \<exists>a h. request_handle p' = Some a \<and> heap p' a = Some h \<and> enabled h"
proof -
  let ?q = "p\<lparr>request_handle_ready := False\<rparr>"
  have "borrows ?q = borrows p" by (rule borrows_cong) simp
  then have "process_ok ?q" "no_borrowers ?q" using assms by (simp_all add: no_borrowers_def)
  then obtain p1 where f: "rinit_fork_check os ?q = Ret p1" "process_ok p1" "same_user ?q p1"
    "request_handle_ready p1 = request_handle_ready ?q"
    by (rule fork_check_runs)
  note op = rinit_open_runs [OF f(2), of os]
  show thesis
  proof (cases "request_enable p1")
    case False
    then show thesis using that [of p1] f by (simp add: RINIT_perfidious_platform_def)
  next
    case True
    obtain p' where s: "rinit_start os (rinit_open os p1) = Ret p'" "process_ok p'"
      "same_user (rinit_open os p1) p'"
      "request_handle_ready p' \<Longrightarrow>
         \<exists>a h. request_handle p' = Some a \<and> heap p' a = Some h \<and> enabled h"
      using op f by (elim rinit_start_runs [rotated 2]) simp_all
    have "same_user p p'" using f(3) op s(3) by (auto intro: same_user_trans)
    then show thesis using that [of p'] True f s by (simp add: RINIT_perfidious_platform_def)
  qed
qed

lemma RSHUTDOWN_runs:
  assumes ok: "process_ok p"
  obtains p' where "RSHUTDOWN_perfidious_platform os p = Ret p'" "process_ok p'" "same_user p p'"
    "\<not> request_handle_ready p'" "request_handle p' = request_handle p"
proof (cases "request_handle p")
  case None
  then show thesis
    using that [of "p\<lparr>request_handle_ready := False\<rparr>"] ok by (simp add: RSHUTDOWN_perfidious_platform_def)
next
  case (Some a)
  have "ownership p" using ok by (simp add: process_ok_def)
  then obtain h where h: "heap p a = Some h" using ownershipD(10) Some by blast
  obtain e1 h1 q1 p1 where d:
    "at_handle a (\<lambda>h. perfidious_handle_try_set_enabled os h False) p = Ret (e1, p1)"
    "process_ok p1" "same_objects p p1" "heap p1 = (heap p)(a \<mapsto> h1)"
    by (rule set_enabled.at_handle_runs [OF ok h])
  let ?p1 = "perfidious_request_handle_record_error os ''disable'' e1 p1"
  have ok1: "process_ok ?p1" and h1: "heap ?p1 a = Some h1" using d by simp_all
  obtain e2 h2 q2 p2 where r: "at_handle a (perfidious_handle_try_reset os) ?p1 = Ret (e2, p2)"
    "process_ok p2" "same_objects ?p1 p2"
    by (rule try_reset.at_handle_runs [OF ok1 h1])
  have "same_user p p1" "same_user ?p1 p2" using d(3) r(3) by (simp_all add: same_user_objects)
  then have "same_user p p2" by (simp add: same_user_def perfidious_request_handle_record_error_def)
  moreover have "request_handle p2 = Some a" using d(3) r(3) Some by (simp add: same_objects_def)
  ultimately show thesis
    using that [of "(perfidious_request_handle_record_error os ''reset'' e2 p2)\<lparr>request_handle_ready := False\<rparr>"]
      Some d r by (simp add: RSHUTDOWN_perfidious_platform_def)
qed

interpretation minfo: handle_reader os "minfo_handle_metrics os"
proof
  fix h :: perfidious_handle and p :: "'a process"
  assume "group_read_contract os" "valid_handle h"
  from read_with_times.reads [OF this, of p]
  show "\<exists>r p'. minfo_handle_metrics os h p = Ret (r, p') \<and> quiet p p'"
    by (auto simp: minfo_handle_metrics_def)
qed

lemma MINFO_runs:
  assumes c: "group_read_contract os" and ok: "process_ok p"
  obtains rows p' where "MINFO_perfidious_platform os p = Ret (rows, p')" "process_ok p'" "quiet p p'"
proof (cases "request_enable p \<and> request_handle p \<noteq> None")
  case False
  then show thesis using that [of "[]" p] ok by (auto simp: MINFO_perfidious_platform_def split: option.splits)
next
  case True
  then obtain a where a: "request_handle p = Some a" by blast
  have "ownership p" using ok by (simp add: process_ok_def)
  then obtain h where h: "heap p a = Some h" using ownershipD(10) a by blast
  obtain r p' where "with_handle a (minfo_handle_metrics os) p = Ret (r, p')" "process_ok p'" "quiet p p'"
    by (rule minfo.with_handle_runs [OF c ok h])
  with that show thesis using True a by (simp add: MINFO_perfidious_platform_def)
qed

section \<open>Splitting the configured names\<close>

text \<open>Fields put together again.\<close>

fun join_fields :: "char \<Rightarrow> string list \<Rightarrow> string" where
  "join_fields d [] = []"
| "join_fields d [f] = f"
| "join_fields d (f # g # fs) = f @ d # join_fields d (g # fs)"

lemma join_fields_Cons: "fs \<noteq> [] \<Longrightarrow> join_fields d (f # fs) = f @ d # join_fields d fs"
  by (cases fs) simp_all

lemma join_fields_head: "join_fields d ((c # f) # fs) = c # join_fields d (f # fs)"
  by (cases fs) simp_all

lemma join_php_explode: "join_fields d (php_explode d s n) = s"
proof (induction s arbitrary: n)
  case Nil
  then show ?case by simp
next
  case (Cons c s)
  obtain f fs where f: "php_explode d s n = f # fs" using php_explode_nonempty by (meson neq_Nil_conv)
  show ?case
    using Cons.IH [of n] Cons.IH [of "n - 1"] f
    by (auto simp: join_fields_Cons join_fields_head)
qed

lemma php_explode_no_delim: "count_list s d < n \<Longrightarrow> f \<in> set (php_explode d s n) \<Longrightarrow> d \<notin> set f"
proof (induction s arbitrary: n f)
  case Nil
  then show ?case by simp
next
  case (Cons c s)
  obtain g gs where g: "php_explode d s n = g # gs" using php_explode_nonempty by (meson neq_Nil_conv)
  show ?case
  proof (cases "c = d")
    case True
    then show ?thesis using Cons.prems Cons.IH [of "n - 1" f] by (auto simp: less_diff_conv)
  next
    case False
    then show ?thesis using Cons.prems Cons.IH [of n] g by auto
  qed
qed

end
