(* ===== verification/Lifecycle.thy ===== *)
theory Lifecycle
  imports Request
begin

text \<open>
  The life of a PHP thread with the extension loaded, as a transition system: the module hooks of
  \<open>src/extension.c\<close>, the calls a script can make, the engine destroying objects and streams, and
  everything other processes do to the kernel. The engine runs script code between \<open>RINIT\<close> and
  \<open>RSHUTDOWN\<close>, and destroys what is left of a request before the next one starts.
\<close>

section \<open>Module hooks (extension.c)\<close>

definition DEFAULT_METRICS :: string where
  "DEFAULT_METRICS = ''perf::PERF_COUNT_HW_CPU_CYCLES:u,perf::PERF_COUNT_HW_INSTRUCTIONS:u''"

definition GINIT_perfidious :: "'k process \<Rightarrow> 'k process" where
  "GINIT_perfidious p =
     p\<lparr>request_enable := False, request_metrics := None, request_handle := None,
       request_handle_pid := 0, request_handle_ready := False, request_handle_error := no_error,
       error_mode := PERFIDIOUS_ERROR_MODE_THROW\<rparr>"

text \<open>\<open>enable_ini\<close> and \<open>metrics_ini\<close> are the settings the administrator gives, if any.\<close>

definition MINIT_perfidious_platform ::
  "'k linux_os \<Rightarrow> bool option \<Rightarrow> string option \<Rightarrow> 'k process \<Rightarrow> bool \<times> 'k process" where
  "MINIT_perfidious_platform os enable_ini metrics_ini p =
     (let pfm_ret = os_pfm_initialize os
      in if pfm_ret \<noteq> PFM_SUCCESS
         then (False, php_warning (''perfidious: cannot initialize libpfm: '' @ os_pfm_strerror os pfm_ret) p)
         else (True, p\<lparr>request_enable := (case enable_ini of None \<Rightarrow> False | Some b \<Rightarrow> b),
                       request_metrics := Some (case metrics_ini of None \<Rightarrow> DEFAULT_METRICS | Some s \<Rightarrow> s)\<rparr>))"

definition MINIT_perfidious ::
  "'k linux_os \<Rightarrow> bool option \<Rightarrow> string option \<Rightarrow> 'k process \<Rightarrow> bool \<times> 'k process" where
  "MINIT_perfidious os enable_ini metrics_ini p =
     (case MINIT_perfidious_platform os enable_ini metrics_ini
             (p\<lparr>error_mode := PERFIDIOUS_ERROR_MODE_WARNING\<rparr>) of
        (False, p1) \<Rightarrow> (False, p1)
      | (True, p1) \<Rightarrow> (True, p1\<lparr>error_mode := PERFIDIOUS_ERROR_MODE_THROW\<rparr>))"

definition MSHUTDOWN_perfidious :: "'k process \<Rightarrow> 'k process" where
  "MSHUTDOWN_perfidious p = p\<lparr>error_mode := PERFIDIOUS_ERROR_MODE_WARNING\<rparr>"

definition RINIT_perfidious :: "'k linux_os \<Rightarrow> 'k process \<Rightarrow> 'k process cval" where
  "RINIT_perfidious os p = RINIT_perfidious_platform os p"

definition RSHUTDOWN_perfidious :: "'k linux_os \<Rightarrow> 'k process \<Rightarrow> 'k process cval" where
  "RSHUTDOWN_perfidious os p = RSHUTDOWN_perfidious_platform os p"

definition GSHUTDOWN_perfidious :: "'k linux_os \<Rightarrow> 'k process \<Rightarrow> 'k process cval" where
  "GSHUTDOWN_perfidious os p = perfidious_platform_globals_shutdown os p"

definition PHP_PERFIDIOUS_VERSION :: string where
  "PHP_PERFIDIOUS_VERSION = ''0.3.1''"

definition PERFIDIOUS_MOTD :: string where
  "PERFIDIOUS_MOTD = ''Think not that I am come to send peace on earth: I came not to send peace, but a sword. Matthew 10:34''"

definition MINFO_perfidious :: "'k linux_os \<Rightarrow> 'k process \<Rightarrow> (info_item list \<times> 'k process) cval" where
  "MINFO_perfidious os p =
     cbind (MINFO_perfidious_platform os p) (\<lambda>(platform_items, p1).
       Ret ([TableStart,
             TableRow [''Version'', PHP_PERFIDIOUS_VERSION],
             TableRow [''Released'', ''2026-09-08''],
             TableRow [''Authors'', ''John Boehr <jbboehr@gmail.com> (lead)''],
             TableEnd] @ platform_items @ [InfoBox PERFIDIOUS_MOTD], p1))"

section \<open>What a script can call\<close>

datatype php_call =
    CallOpen "(php_key \<times> zval) list" zend_long zend_long
  | CallRequestHandle
  | CallClose nat
  | CallDisable nat
  | CallEnable nat
  | CallRawStream nat "zend_long option"
  | CallRead nat
  | CallReadArray nat
  | CallReset nat
  | CallNew

fun run_call :: "'k linux_os \<Rightarrow> php_call \<Rightarrow> 'k process \<Rightarrow> (zval \<times> 'k process) cval" where
  "run_call os (CallOpen ht pid cpu) p = perfidious_open os ht pid cpu p"
| "run_call os CallRequestHandle p = Ret (perfidious_request_handle p)"
| "run_call os (CallClose i) p = PerfidiousHandle_close os i p"
| "run_call os (CallDisable i) p = PerfidiousHandle_disable os i p"
| "run_call os (CallEnable i) p = PerfidiousHandle_enable os i p"
| "run_call os (CallRawStream i idx) p = PerfidiousHandle_rawStream os i idx p"
| "run_call os (CallRead i) p = PerfidiousHandle_read os i p"
| "run_call os (CallReadArray i) p = PerfidiousHandle_readArray os i p"
| "run_call os (CallReset i) p = PerfidiousHandle_reset os i p"
| "run_call os CallNew p = (case perfidious_handle_obj_create p of (this, p1) \<Rightarrow> Ret (ZHandle this, p1))"

text \<open>A method is called on an object that exists.\<close>

fun callable :: "php_call \<Rightarrow> 'k process \<Rightarrow> bool" where
  "callable (CallOpen ht pid cpu) p = True"
| "callable CallRequestHandle p = True"
| "callable (CallClose i) p = (objects p i \<noteq> None)"
| "callable (CallDisable i) p = (objects p i \<noteq> None)"
| "callable (CallEnable i) p = (objects p i \<noteq> None)"
| "callable (CallRawStream i idx) p = (objects p i \<noteq> None)"
| "callable (CallRead i) p = (objects p i \<noteq> None)"
| "callable (CallReadArray i) p = (objects p i \<noteq> None)"
| "callable (CallReset i) p = (objects p i \<noteq> None)"
| "callable CallNew p = True"

text \<open>A stream owns its descriptor and closes it when the engine destroys it.\<close>

definition free_stream :: "'k linux_os \<Rightarrow> int \<Rightarrow> 'k process \<Rightarrow> 'k process" where
  "free_stream os fd p =
     (case sys_close os fd p of (ok, p1) \<Rightarrow> p1\<lparr>streams := streams p1 - {#fd#}\<rparr>)"

section \<open>Steps\<close>

datatype phase = Idle | Running | Ending | Finished

primrec enter :: "phase \<Rightarrow> 's cval \<Rightarrow> (phase \<times> 's) cval" where
  "enter ph Undefined = Undefined"
| "enter ph (Ret p) = Ret (ph, p)"

definition stay :: "('r \<times> 's) cval \<Rightarrow> (phase \<times> 's) cval" where
  "stay x = cbind x (\<lambda>(r, p). Ret (Running, p))"

inductive step :: "'k linux_os \<Rightarrow> phase \<times> 'k process \<Rightarrow> (phase \<times> 'k process) cval \<Rightarrow> bool"
  for os :: "'k linux_os" where
  outside: "step os (ph, p) (Ret (ph, p\<lparr>kernel := k\<rparr>))"
| start: "step os (Idle, p) (enter Running (RINIT_perfidious os p))"
| call: "callable c p \<Longrightarrow> step os (Running, p) (stay (run_call os c p))"
| catch_exn: "step os (Running, p) (Ret (Running, p\<lparr>exceptions := []\<rparr>))"
| info: "step os (Running, p) (stay (MINFO_perfidious os p))"
| finish: "step os (Running, p) (enter Ending (RSHUTDOWN_perfidious os p))"
| free_object: "ph = Running \<or> ph = Ending \<Longrightarrow> objects p i \<noteq> None \<Longrightarrow>
    step os (ph, p) (enter ph (perfidious_handle_obj_free os i p))"
| free_stream: "ph = Running \<or> ph = Ending \<Longrightarrow> fd \<in># streams p \<Longrightarrow>
    step os (ph, p) (Ret (ph, free_stream os fd p))"
| idle: "objects p = Map.empty \<Longrightarrow> streams p = {#} \<Longrightarrow> step os (Ending, p) (Ret (Idle, p))"
| unload: "step os (Idle, p) (enter Finished (GSHUTDOWN_perfidious os p))"

inductive reachable :: "'k linux_os \<Rightarrow> phase \<times> 'k process \<Rightarrow> phase \<times> 'k process \<Rightarrow> bool"
  for os :: "'k linux_os" and s0 :: "phase \<times> 'k process" where
  initial: "reachable os s0 s0"
| steps: "reachable os s0 s \<Longrightarrow> step os s (Ret s') \<Longrightarrow> reachable os s0 s'"

inductive_cases step_Finished: "step os (Finished, p) r"
inductive_simps step_Idle_iff: "step os (Idle, p) r"

text \<open>A thread just after its globals were set up and the module was initialised.\<close>

definition loaded :: "'k process \<Rightarrow> bool" where
  "loaded p \<longleftrightarrow> heap p = Map.empty \<and> objects p = Map.empty \<and> streams p = {#} \<and>
     request_handle p = None \<and> live (trace p) = {#} \<and> closes_live (trace p)"

section \<open>The invariant\<close>

fun phase_ok :: "phase \<Rightarrow> 'k process \<Rightarrow> bool" where
  "phase_ok Idle p = (objects p = Map.empty \<and> streams p = {#})"
| "phase_ok Finished p = (objects p = Map.empty \<and> streams p = {#} \<and> request_handle p = None)"
| "phase_ok _ p = True"

definition state_ok :: "phase \<times> 'k process \<Rightarrow> bool" where
  "state_ok s \<longleftrightarrow> process_ok (snd s) \<and> phase_ok (fst s) (snd s)"

definition outcome_ok :: "(phase \<times> 'k process) cval \<Rightarrow> bool" where
  "outcome_ok r \<longleftrightarrow> (case r of Undefined \<Rightarrow> False | Ret s \<Rightarrow> state_ok s)"

lemma loaded_ok: "loaded p \<Longrightarrow> state_ok (Idle, p)"
  by (auto simp: loaded_def state_ok_def process_ok_def descriptors_def heap_fds_def total_over_def
      has_owner_def owns_def borrows_def intro!: ownershipI)

lemma safe_Ret: "process_ok (snd x) \<Longrightarrow> safe (Ret x)"
  by (cases x) simp

lemma safe_new: "process_ok p \<Longrightarrow> safe (case perfidious_handle_obj_create p of (this, p1) \<Rightarrow> Ret (ZHandle this, p1))"
  using process_ok_create [of p] by (cases "perfidious_handle_obj_create p") (simp add: safe_Ret)

lemma safe_run_call:
  assumes "group_read_contract os" "process_ok p" "callable c p"
  shows "safe (run_call os c p)"
  using assms
  by (cases c)
    (simp_all add: safe_open safe_close safe_disable safe_enable safe_rawStream safe_read
      safe_readArray safe_reset safe_Ret process_ok_request_handle safe_new)

lemma outcome_stay: "safe x \<Longrightarrow> outcome_ok (stay x)"
  by (cases x) (auto simp: safe_def stay_def outcome_ok_def state_ok_def)

lemma process_ok_free_stream:
  assumes ok: "process_ok p" and fd: "fd \<in># streams p"
  shows "process_ok (free_stream os fd p)"
proof -
  obtain r p1 where c: "sys_close os fd p = (r, p1)" by fastforce
  note t = sys_close_trace [OF c]
  note eqs = same_php_process [OF conjunct2 [OF t]]
  let ?p = "p1\<lparr>streams := streams p1 - {#fd#}\<rparr>"
  have o: "owns ?p = owns p" "borrows ?p = borrows p" "has_owner ?p = has_owner p"
    by (intro owner_congs; simp add: eqs)+
  have "live (trace p) = heap_fds (heap p) + streams p" "closes_live (trace p)"
    using ok by (simp_all add: process_ok_def descriptors_def)
  then have "descriptors ?p" using fd t by (simp add: descriptors_def eqs)
  moreover have "ownership ?p"
    using ok unfolding process_ok_def ownership_def o by (simp add: eqs)
  ultimately show ?thesis by (simp add: free_stream_def c process_ok_def)
qed

lemma step_ok:
  assumes "step os s r" "group_read_contract os" "state_ok s"
  shows "outcome_ok r"
  using assms
proof (cases rule: step.cases)
  case (start p)
  then have "process_ok p" "no_borrowers p" using assms(3) by (auto simp: state_ok_def no_borrowers_def borrows_def)
  then obtain p' where "RINIT_perfidious_platform os p = Ret p'" "process_ok p'" by (rule RINIT_runs)
  with start show ?thesis by (simp add: RINIT_perfidious_def outcome_ok_def state_ok_def)
next
  case (info p)
  then have "process_ok p" using assms(3) by (simp add: state_ok_def)
  with assms(2) obtain rows p' where "MINFO_perfidious_platform os p = Ret (rows, p')" "process_ok p'"
    by (rule MINFO_runs)
  with info show ?thesis by (simp add: MINFO_perfidious_def stay_def outcome_ok_def state_ok_def)
next
  case (finish p)
  then have "process_ok p" using assms(3) by (simp add: state_ok_def)
  then obtain p' where "RSHUTDOWN_perfidious_platform os p = Ret p'" "process_ok p'" by (rule RSHUTDOWN_runs)
  with finish show ?thesis by (simp add: RSHUTDOWN_perfidious_def outcome_ok_def state_ok_def)
next
  case (free_object ph p i)
  then have "process_ok p" using assms(3) by (simp add: state_ok_def)
  then obtain p' where "perfidious_handle_obj_free os i p = Ret p'" "process_ok p'"
    using free_object(4) by (rule obj_free_runs)
  with free_object show ?thesis by (auto simp: outcome_ok_def state_ok_def)
next
  case (unload p)
  then have ok: "process_ok p" "no_borrowers p" and e: "objects p = Map.empty" "streams p = {#}"
    using assms(3) by (auto simp: state_ok_def no_borrowers_def borrows_def)
  from ok obtain p' where "drop_request_handle os p = Ret p'" "process_ok p'" "request_handle p' = None"
    "objects p' = objects p" "streams p' = streams p" by (rule drop_request_handle_runs)
  with unload e show ?thesis
    by (simp add: GSHUTDOWN_perfidious_def perfidious_platform_globals_shutdown_def outcome_ok_def state_ok_def)
next
  case (outside ph p k)
  then show ?thesis using assms(3) by (cases ph) (simp_all add: outcome_ok_def state_ok_def)
next
  case (call c p)
  then show ?thesis using assms(2,3) by (simp add: state_ok_def outcome_stay safe_run_call)
qed (use assms(2,3) in \<open>auto simp: state_ok_def outcome_ok_def process_ok_free_stream\<close>)

lemma reachable_ok:
  assumes "reachable os s0 s" "group_read_contract os" "state_ok s0"
  shows "state_ok s"
  using assms(1)
proof induction
  case initial
  then show ?case using assms(3) .
next
  case (steps s s')
  then show ?case using step_ok [OF steps.hyps(2) assms(2)] by (simp add: outcome_ok_def)
qed

lemma heap_without_owner:
  assumes "process_ok p" "objects p = Map.empty" "request_handle p = None"
  shows "heap p = Map.empty"
proof (rule ccontr)
  assume "heap p \<noteq> Map.empty"
  then obtain a h where "heap p a = Some h" by (metis not_Some_eq ext)
  then have "has_owner p a" using assms(1) ownershipD(4) by (auto simp: process_ok_def)
  then show False using assms by (simp add: has_owner_def owns_def)
qed

section \<open>Silence of the hooks\<close>

text \<open>What every hook keeps of the script-visible side: exceptions and warnings.\<close>

definition silent :: "'k process \<Rightarrow> 'k process \<Rightarrow> bool" where
  "silent p p' \<longleftrightarrow> exceptions p' = exceptions p \<and> warnings p' = warnings p"

lemma silent_refl [simp, intro]: "silent p p"
  by (simp add: silent_def)

lemma silent_trans [trans]: "silent a b \<Longrightarrow> silent b c \<Longrightarrow> silent a c"
  by (simp add: silent_def)

lemma silent_same_php: "same_php p p' \<Longrightarrow> silent p p'"
  by (simp add: silent_def same_php_def)

lemma silent_updates [simp]:
  "silent p (p'\<lparr>heap := hp\<rparr>) = silent p p'"
  "silent p (p'\<lparr>next_addr := na\<rparr>) = silent p p'"
  "silent p (p'\<lparr>request_handle := rh\<rparr>) = silent p p'"
  "silent p (p'\<lparr>request_handle_pid := rp\<rparr>) = silent p p'"
  "silent p (p'\<lparr>request_handle_ready := rr\<rparr>) = silent p p'"
  "silent p (p'\<lparr>request_handle_error := re\<rparr>) = silent p p'"
  "silent (p\<lparr>request_handle_ready := rr\<rparr>) p' = silent p p'"
  "silent p (perfidious_request_handle_record_error os op e p') = silent p p'"
  "silent (perfidious_request_handle_record_error os op e p) p' = silent p p'"
  by (simp_all add: silent_def)

lemma silent_set_enabled:
  "at_handle a (\<lambda>h. perfidious_handle_try_set_enabled os h b) p = Ret (e, p') \<Longrightarrow> silent p p'"
  by (auto simp: at_handle_def split: option.splits prod.splits
      dest!: try_set_enabled_run intro: silent_same_php)

lemma silent_reset: "at_handle a (perfidious_handle_try_reset os) p = Ret (e, p') \<Longrightarrow> silent p p'"
  by (auto simp: at_handle_def split: option.splits prod.splits
      dest!: try_reset_frame intro: silent_same_php)

lemma silent_drop: "drop_request_handle os p = Ret p' \<Longrightarrow> silent p p'"
  by (auto simp: drop_request_handle_def release_handle_def cbind_Ret_iff
      split: option.splits prod.splits dest!: try_close_live intro: silent_same_php)

lemma silent_rinit_open: "silent p (rinit_open os p)"
proof -
  have "silent p p1" if "split_and_open os names p = (r, p1)" for names r p1
    using that by (auto simp: split_and_open_def Let_def silent_def same_php_def
        dest!: try_open_ex_run split: if_splits)
  then show ?thesis
    by (auto simp: rinit_open_def alloc_handle_def split: option.split prod.split sum.split)
qed

lemma silent_fork_check: "rinit_fork_check os p = Ret p' \<Longrightarrow> silent p p'"
  by (auto simp: rinit_fork_check_def Let_def cbind_Ret_iff dest!: silent_drop split: if_splits)

lemma silent_rinit_start: "rinit_start os p = Ret p' \<Longrightarrow> silent p p'"
  by (auto simp: rinit_start_def cbind_Ret_iff dest!: silent_reset silent_set_enabled
      intro: silent_trans split: option.splits if_splits)

lemma silent_RINIT:
  assumes "RINIT_perfidious_platform os p = Ret p'"
  shows "silent p p'"
proof -
  obtain p1 where f: "rinit_fork_check os (p\<lparr>request_handle_ready := False\<rparr>) = Ret p1"
    and r: "(if \<not> request_enable p1 then Ret p1 else rinit_start os (rinit_open os p1)) = Ret p'"
    using assms by (auto simp: RINIT_perfidious_platform_def cbind_Ret_iff)
  have "silent p p1" using silent_fork_check [OF f] by simp
  moreover have "silent p1 p'"
    using r silent_trans [OF silent_rinit_open [of p1 os] silent_rinit_start] by (auto split: if_splits)
  ultimately show ?thesis by (rule silent_trans)
qed

lemma silent_RSHUTDOWN: "RSHUTDOWN_perfidious_platform os p = Ret p' \<Longrightarrow> silent p p'"
  by (auto simp: RSHUTDOWN_perfidious_platform_def cbind_Ret_iff dest!: silent_reset silent_set_enabled
      intro: silent_trans split: option.splits)

section \<open>Requests\<close>

lemma record_error_recorded:
  "e \<noteq> 0 \<Longrightarrow> exception_ce (request_handle_error (perfidious_request_handle_record_error os op e p)) \<noteq> None"
  by (simp add: perfidious_request_handle_record_error_def)

text \<open>With the feature on and names configured, a request starts with a running group or with an
  error recorded.\<close>

lemma rinit_start_or_error:
  assumes "rinit_start os p = Ret p'" and "request_handle p = Some a"
  shows "request_handle_ready p' \<or> exception_ce (request_handle_error p') \<noteq> None"
proof -
  obtain e p1 where r: "at_handle a (perfidious_handle_try_reset os) p = Ret (e, p1)"
    using assms by (auto simp: rinit_start_def cbind_Ret_iff)
  show ?thesis
  proof (cases "e = 0")
    case False
    then have "p' = perfidious_request_handle_record_error os ''reset'' e p1"
      using assms r by (simp add: rinit_start_def)
    with record_error_recorded [OF False, of os "''reset''" p1] show ?thesis by simp
  next
    case True
    then obtain e2 p2 where "at_handle a (\<lambda>h. perfidious_handle_try_set_enabled os h True) p1 = Ret (e2, p2)"
      using assms r by (auto simp: rinit_start_def cbind_Ret_iff)
    then have "p' = (perfidious_request_handle_record_error os ''enable'' e2 p2)\<lparr>request_handle_ready := (e2 = 0)\<rparr>"
      using assms r True by (simp add: rinit_start_def)
    with record_error_recorded [of e2 os "''enable''" p2] show ?thesis by (cases "e2 = 0") simp_all
  qed
qed

lemma rinit_start_nothing: "request_handle p = None \<Longrightarrow> rinit_start os p = Ret p"
  by (simp add: rinit_start_def)

lemma rinit_open_or_error:
  assumes "request_metrics p \<noteq> None"
  shows "request_handle (rinit_open os p) \<noteq> None \<or>
    exception_ce (request_handle_error (rinit_open os p)) \<noteq> None"
proof (cases "request_handle p")
  case None
  obtain names where n: "request_metrics p = Some names" using assms by blast
  obtain r p1 where s: "split_and_open os names p = (r, p1)" by fastforce
  have "exception_ce e \<noteq> None" if "r = Inl e" for e
    using s that by (auto simp: split_and_open_def Let_def dest!: try_open_ex_failed split: if_splits)
  then show ?thesis
    using None n s by (cases r) (auto simp: rinit_open_def alloc_handle_def)
next
  case (Some a)
  then show ?thesis by (simp add: rinit_open_def)
qed

lemma RINIT_ready_or_error:
  assumes run: "RINIT_perfidious_platform os p = Ret p'" and "process_ok p" "no_borrowers p"
    and en: "request_enable p" "request_metrics p \<noteq> None"
  shows "request_handle_ready p' \<or> exception_ce (request_handle_error p') \<noteq> None"
proof -
  let ?q = "p\<lparr>request_handle_ready := False\<rparr>"
  have "borrows ?q = borrows p" by (rule borrows_cong) simp
  then have "process_ok ?q" "no_borrowers ?q" using assms by (simp_all add: no_borrowers_def)
  then obtain p1 where f: "rinit_fork_check os ?q = Ret p1" "same_user ?q p1" by (rule fork_check_runs)
  then have u: "request_enable p1" "request_metrics p1 \<noteq> None" using en by (simp_all add: same_user_def)
  have s: "rinit_start os (rinit_open os p1) = Ret p'"
    using run f u by (simp add: RINIT_perfidious_platform_def)
  show ?thesis
  proof (cases "request_handle (rinit_open os p1)")
    case None
    then have "p' = rinit_open os p1" using s rinit_start_nothing by (metis cval.inject)
    with None rinit_open_or_error [OF u(2), of os] show ?thesis by simp
  next
    case (Some a)
    with s show ?thesis by (rule rinit_start_or_error)
  qed
qed

text \<open>The end of a request: unless an error is on record, the group is off and its baselines are
  fresh.\<close>

lemma RSHUTDOWN_stops:
  assumes run: "RSHUTDOWN_perfidious_platform os p = Ret p'" and a: "request_handle p = Some a"
    and clean: "exception_ce (request_handle_error p') = None"
  shows "\<exists>h. heap p' a = Some h \<and> \<not> enabled h"
proof -
  obtain h where h: "heap p a = Some h"
    using run a by (cases "heap p a") (auto simp: RSHUTDOWN_perfidious_platform_def at_handle_def)
  obtain e1 h1 q1 where d: "perfidious_handle_try_set_enabled os h False p = (e1, h1, q1)" by (metis prod_cases3)
  let ?p1 = "perfidious_request_handle_record_error os ''disable'' e1 (q1\<lparr>heap := (heap q1)(a \<mapsto> h1)\<rparr>)"
  obtain e2 h2 q2 where r: "perfidious_handle_try_reset os h1 ?p1 = (e2, h2, q2)" by (metis prod_cases3)
  have p': "p' = (perfidious_request_handle_record_error os ''reset'' e2
      (q2\<lparr>heap := (heap q2)(a \<mapsto> h2)\<rparr>))\<lparr>request_handle_ready := False\<rparr>"
    using run a h d r by (simp add: RSHUTDOWN_perfidious_platform_def at_handle_def)
  have same: "same_php ?p1 q2" using try_reset_frame [OF r] by simp
  have "exception_ce (request_handle_error ?p1) = None"
    using clean p' same_php_process(11) [OF same]
    by (auto simp: perfidious_request_handle_record_error_def split: if_splits)
  then have "e1 = 0" using record_error_recorded by metis
  then have "\<not> enabled h1" using try_set_enabled_run [OF d] by simp
  with r have "\<not> enabled h2"
    by (cases rule: try_reset_cases) (auto dest: reset_at_boundary_frame)
  then show ?thesis using p' by simp
qed

end
