(* ===== verification/Lifecycle_Properties.thy ===== *)
theory Lifecycle_Properties
  imports Lifecycle Demo_Os
begin

text \<open>
  The properties of objects, requests and the life cycle of a PHP thread on Linux
  (\<open>src/handle.c\<close>, \<open>src/functions.c\<close>, \<open>src/linux/platform.c\<close>, \<open>src/extension.c\<close>).
\<close>

section \<open>A concrete thread\<close>

definition demo_process :: "bool \<Rightarrow> string option \<Rightarrow> demo process" where
  "demo_process en names = \<lparr>kernel = demo_kernel, errno = 0, trace = [], exceptions = [], warnings = [],
     error_mode = PERFIDIOUS_ERROR_MODE_THROW, heap = Map.empty, next_addr = 0, objects = Map.empty,
     next_object = 0, streams = {#}, request_enable = en, request_metrics = names,
     request_handle = None, request_handle_pid = 0, request_handle_ready = False,
     request_handle_error = no_error\<rparr>"

lemma demo_loaded: "loaded (demo_process en names)"
  by (simp add: loaded_def demo_process_def)

text \<open>One request after the other: a freshly loaded thread can start a request, end it, and
  unload.\<close>

lemma no_undefined_start:
  obtains p where "RINIT_perfidious demo_os (demo_process en names) = Ret p" "process_ok p"
    "objects p = Map.empty" "streams p = {#}"
proof -
  have "state_ok (Idle, demo_process en names)" by (rule loaded_ok [OF demo_loaded])
  then have "process_ok (demo_process en names)" "no_borrowers (demo_process en names)"
    by (simp_all add: state_ok_def no_borrowers_def borrows_def)
  then obtain p where "RINIT_perfidious_platform demo_os (demo_process en names) = Ret p" "process_ok p"
    "same_user (demo_process en names) p" by (rule RINIT_runs)
  with that show thesis by (simp add: RINIT_perfidious_def same_user_def demo_process_def)
qed

lemma demo_full_life:
  obtains p where "reachable demo_os (Idle, demo_process en names) (Finished, p)"
proof -
  obtain p1 where p1: "RINIT_perfidious demo_os (demo_process en names) = Ret p1" "process_ok p1"
    "objects p1 = Map.empty" "streams p1 = {#}" by (rule no_undefined_start)
  from p1(2) obtain p2 where p2: "RSHUTDOWN_perfidious_platform demo_os p1 = Ret p2" "process_ok p2"
    "same_user p1 p2" by (rule RSHUTDOWN_runs)
  have e: "objects p2 = Map.empty" "streams p2 = {#}" "no_borrowers p2"
    using p1 p2(3) by (simp_all add: same_user_def no_borrowers_def borrows_def)
  from p2(2) e(3) obtain p3 where p3: "drop_request_handle demo_os p2 = Ret p3"
    by (rule drop_request_handle_runs)
  have "step demo_os (Idle, demo_process en names) (Ret (Running, p1))"
    using step.start [of demo_os "demo_process en names"] p1(1) by simp
  moreover have "step demo_os (Running, p1) (Ret (Ending, p2))"
    using step.finish [of demo_os p1] p2(1) by (simp add: RSHUTDOWN_perfidious_def)
  moreover have "step demo_os (Ending, p2) (Ret (Idle, p2))" using e(1,2) by (rule step.idle)
  moreover have "step demo_os (Idle, p2) (Ret (Finished, p3))"
    using step.unload [of demo_os p2] p3
    by (simp add: GSHUTDOWN_perfidious_def perfidious_platform_globals_shutdown_def)
  ultimately show thesis by (meson that reachable.initial reachable.steps)
qed

section \<open>The whole life of a thread\<close>

text \<open>C1 (no_undefined_behaviour). From a freshly loaded module on, whatever the script calls,
  whenever the engine destroys objects and streams, and whatever the kernel answers (a full group
  read announcing the right number of events), no step follows a pointer to a released handle or
  reads out of bounds: every step has a defined outcome.\<close>

theorem no_undefined_behaviour:
  assumes "group_read_contract os" and "loaded p0"
    and "reachable os (Idle, p0) s" and "step os s r"
  shows "r \<noteq> Undefined"
proof -
  have "state_ok s" using reachable_ok [OF assms(3,1) loaded_ok [OF assms(2)]] .
  with step_ok [OF assms(4,1)] show ?thesis by (auto simp: outcome_ok_def)
qed

theorem no_undefined_behaviour_witness:
  "enter Running (RINIT_perfidious demo_os (demo_process True (Some ''a,b''))) \<noteq> Undefined"
  by (rule no_undefined_behaviour [OF demo_group_read demo_loaded reachable.initial step.start])

text \<open>C2 (single_owner). In every reachable state each open handle is owned by exactly one object
  or by the request globals, an object that borrows points to the handle of the request, and
  the open descriptors are exactly those of the open handles and of the streams handed out; no
  descriptor was ever closed twice.\<close>

theorem single_owner:
  assumes "group_read_contract os" and "loaded p0" and "reachable os (Idle, p0) (ph, p)"
  shows "(\<forall>a h. heap p a = Some h \<longrightarrow>
      (request_handle p = Some a \<and> (\<forall>i. \<not> owns p i a)) \<or> (request_handle p \<noteq> Some a \<and> (\<exists>!i. owns p i a))) \<and>
    (\<forall>i a. borrows p i a \<longrightarrow> request_handle p = Some a) \<and>
    live (trace p) = heap_fds (heap p) + streams p \<and> closes_live (trace p)"
proof -
  have "state_ok (ph, p)" using reachable_ok [OF assms(3,1) loaded_ok [OF assms(2)]] .
  then have own: "ownership p" and ds: "descriptors p" by (simp_all add: state_ok_def process_ok_def)
  note d = ownershipD [OF own]
  have "(request_handle p = Some a \<and> (\<forall>i. \<not> owns p i a)) \<or> (request_handle p \<noteq> Some a \<and> (\<exists>!i. owns p i a))"
    if "heap p a = Some h" for a h
    using d(4) [OF that] d(7,9) unfolding has_owner_def by blast
  with d(8) ds show ?thesis by (auto simp: descriptors_def)
qed

theorem single_owner_witness:
  "\<exists>p. RINIT_perfidious demo_os (demo_process True (Some ''a,b'')) = Ret p \<and>
     live (trace p) = heap_fds (heap p) + streams p \<and> closes_live (trace p)"
proof -
  obtain p where p: "RINIT_perfidious demo_os (demo_process True (Some ''a,b'')) = Ret p"
    using no_undefined_start by blast
  from p have "step demo_os (Idle, demo_process True (Some ''a,b'')) (Ret (Running, p))"
    using step.start [of demo_os "demo_process True (Some ''a,b'')"] by simp
  with reachable.initial have "reachable demo_os (Idle, demo_process True (Some ''a,b'')) (Running, p)"
    by (rule reachable.steps)
  from single_owner [OF demo_group_read demo_loaded this] p show ?thesis by blast
qed

text \<open>C3 (no_descriptor_leak). Between requests the only descriptors open are those of the handle
  of the request, and once the thread's globals are gone none is: nothing a script does, and no
  failure of the kernel, leaks a descriptor.\<close>

theorem no_descriptor_leak:
  assumes "group_read_contract os" and "loaded p0" and "reachable os (Idle, p0) (ph, p)"
  shows "(ph = Idle \<longrightarrow> live (trace p) = (case request_handle p of None \<Rightarrow> {#}
      | Some a \<Rightarrow> mset (handle_fds (the (heap p a))))) \<and>
    (ph = Finished \<longrightarrow> live (trace p) = {#})"
proof -
  have ok: "state_ok (ph, p)" using reachable_ok [OF assms(3,1) loaded_ok [OF assms(2)]] .
  then have pok: "process_ok p" and own: "ownership p" and ds: "descriptors p"
    by (simp_all add: state_ok_def process_ok_def)
  have fin: "live (trace p) = {#}" if "objects p = Map.empty" "streams p = {#}" "request_handle p = None"
    using heap_without_owner [OF pok that(1,3)] ds that(2) by (simp add: descriptors_def heap_fds_def total_over_def)
  have idle: "live (trace p) = mset (handle_fds (the (heap p a)))"
    if e: "objects p = Map.empty" "streams p = {#}" and a: "request_handle p = Some a" for a
  proof -
    obtain h where h: "heap p a = Some h" using ownershipD(10) [OF own a] by auto
    have "b = a" if "b \<in> dom (heap p)" for b
    proof -
      from that obtain g where "heap p b = Some g" by blast
      from ownershipD(4) [OF own this] a e show ?thesis by (simp add: has_owner_def owns_def)
    qed
    then have "dom (heap p) = {a}" using h by blast
    then show ?thesis using ds e by (simp add: descriptors_def heap_fds_def total_over_def)
  qed
  show ?thesis using ok fin idle by (auto simp: state_ok_def split: option.splits)
qed

theorem no_descriptor_leak_witness:
  "\<exists>p. reachable demo_os (Idle, demo_process True (Some ''a,b'')) (Finished, p) \<and> live (trace p) = {#}"
proof -
  obtain p where "reachable demo_os (Idle, demo_process True (Some ''a,b'')) (Finished, p)"
    by (rule demo_full_life)
  with no_descriptor_leak [OF demo_group_read demo_loaded this] show ?thesis by blast
qed

section \<open>Objects\<close>

text \<open>On an object whose handle is closed, \<open>close\<close> does nothing and
  every other method throws \<open>ClosedException\<close> and does nothing else; in particular none makes
  a system call. After \<open>close\<close> the object is closed.\<close>

lemma closed_handle_refuses:
  assumes "is_closed p this"
  shows "PerfidiousHandle_close os this p = Ret (ZNull, p) \<and>
    (\<forall>m \<in> {PerfidiousHandle_enable os this, PerfidiousHandle_disable os this,
        PerfidiousHandle_reset os this, PerfidiousHandle_read os this, PerfidiousHandle_readArray os this,
        PerfidiousHandle_rawStream os this (Some idx)}.
      m p = Ret (ZNull, zend_throw_exception ClosedException 0 ''Handle is closed'' p)) \<and>
    (\<forall>q z q'. PerfidiousHandle_close os this q = Ret (z, q') \<longrightarrow> is_closed q' this)"
  using assms on_open_object_closed [OF assms] close_closes
  by (auto simp: PerfidiousHandle_enable_def PerfidiousHandle_disable_def PerfidiousHandle_reset_def
      PerfidiousHandle_read_def PerfidiousHandle_readArray_def PerfidiousHandle_rawStream_def
      PerfidiousHandle_close_def is_closed_def)

text \<open>Closing the object that borrows the handle of the
  request makes no system call and leaves the handle as it is, so that a later request can use it;
  only the object forgets it.\<close>

lemma borrowed_close_keeps_request_handle:
  assumes "objects p this = Some obj" and "borrowed obj"
  shows "\<exists>p'. PerfidiousHandle_close os this p = Ret (ZNull, p') \<and> trace p' = trace p \<and>
    heap p' = heap p \<and> request_handle p' = request_handle p \<and> is_closed p' this"
  using assms by (cases "obj_handle obj") (auto simp: PerfidiousHandle_close_def Let_def is_closed_def)

section \<open>Requests\<close>

text \<open>C19 (request_starts_or_records). With the feature on and metric names configured, after the
  start of a request either the request handle is ready, and then the handle is open and enabled, or an
  error is on record for \<open>request_handle()\<close> to report. The hook itself raises no exception and no
  warning.\<close>

theorem request_starts_or_records:
  assumes "process_ok p" and "no_borrowers p" and "request_enable p" and "request_metrics p \<noteq> None"
  shows "\<exists>p'. RINIT_perfidious os p = Ret p' \<and>
    (request_handle_ready p' \<or> exception_ce (request_handle_error p') \<noteq> None) \<and>
    (request_handle_ready p' \<longrightarrow> (\<exists>a h. request_handle p' = Some a \<and> heap p' a = Some h \<and> enabled h)) \<and>
    exceptions p' = exceptions p \<and> warnings p' = warnings p"
proof -
  obtain p' where run: "RINIT_perfidious_platform os p = Ret p'"
    and ready: "request_handle_ready p' \<Longrightarrow> \<exists>a h. request_handle p' = Some a \<and> heap p' a = Some h \<and> enabled h"
    using RINIT_runs [OF assms(1,2)] by metis
  show ?thesis
    using RINIT_ready_or_error [OF run assms] silent_RINIT [OF run] ready run
    by (auto simp: RINIT_perfidious_def silent_def)
qed

theorem request_starts_or_records_witness:
  "\<exists>p'. RINIT_perfidious demo_os (demo_process True (Some ''a,bad'')) = Ret p' \<and>
    (request_handle_ready p' \<or> exception_ce (request_handle_error p') \<noteq> None) \<and> exceptions p' = []"
proof -
  let ?p = "demo_process True (Some ''a,bad'')"
  have "state_ok (Idle, ?p)" by (rule loaded_ok [OF demo_loaded])
  then have "process_ok ?p" "no_borrowers ?p"
    by (simp_all add: state_ok_def no_borrowers_def borrows_def)
  from request_starts_or_records [OF this, of demo_os] show ?thesis by (auto simp: demo_process_def)
qed



text \<open>C21 (recorded_error_delivered_once). A recorded error is thrown by the first call of
  \<open>request_handle()\<close> with its class, code and message, and is then gone: the call after it throws
  nothing. Recording never replaces an error that is already on record.\<close>

theorem recorded_error_delivered_once:
  assumes "request_enable p" and "error_mode p = PERFIDIOUS_ERROR_MODE_THROW"
    and "request_handle_error p = perfidious_error_set ce c s"
  shows "\<exists>p1. perfidious_request_handle p = (ZNull, p1) \<and>
    exceptions p1 = \<lparr>ex_class = ce, ex_code = c, ex_message = message (perfidious_error_set ce c s),
      ex_props = []\<rparr> # exceptions p \<and>
    exceptions (snd (perfidious_request_handle p1)) = exceptions p1 \<and>
    request_handle_error (perfidious_request_handle_record_error os op e p) = request_handle_error p"
proof -
  have "take 511 (message (perfidious_error_set ce c s)) = message (perfidious_error_set ce c s)"
    using length_error_message [of ce c s] by simp
  then show ?thesis
    using assms
    by (auto simp: perfidious_request_handle_def perfidious_error_helper_throw Let_def no_error_def
        perfidious_handle_obj_create_def perfidious_request_handle_record_error_def
        zend_throw_exception_def split: option.split)
qed

theorem recorded_error_delivered_once_witness:
  "\<exists>p1. perfidious_request_handle ((demo_process True None)\<lparr>request_handle_error :=
       perfidious_error_set IOException 13 ''x''\<rparr>) = (ZNull, p1) \<and>
     length (exceptions p1) = 1 \<and> exceptions (snd (perfidious_request_handle p1)) = exceptions p1"
  using recorded_error_delivered_once [of "(demo_process True None)\<lparr>request_handle_error :=
       perfidious_error_set IOException 13 ''x''\<rparr>" IOException 13 "''x''" demo_os "''reset''" 5]
  by (auto simp: demo_process_def)

text \<open>The end of a request makes the handle unavailable, raises
  nothing, keeps the handle open for the next request, and, unless an error is on record
  afterwards, leaves its group disabled.\<close>

lemma request_end_stops_counting:
  assumes "process_ok p"
  shows "\<exists>p'. RSHUTDOWN_perfidious os p = Ret p' \<and> \<not> request_handle_ready p' \<and>
    request_handle p' = request_handle p \<and> exceptions p' = exceptions p \<and> warnings p' = warnings p \<and>
    (\<forall>a. request_handle p = Some a \<longrightarrow> exception_ce (request_handle_error p') = None \<longrightarrow>
      (\<exists>h. heap p' a = Some h \<and> \<not> enabled h))"
proof -
  obtain p' where run: "RSHUTDOWN_perfidious_platform os p = Ret p'" and r: "\<not> request_handle_ready p'"
    "request_handle p' = request_handle p" using RSHUTDOWN_runs [OF assms] by metis
  show ?thesis
    using RSHUTDOWN_stops [OF run] silent_RSHUTDOWN [OF run] r run
    by (auto simp: RSHUTDOWN_perfidious_def silent_def)
qed

section \<open>Opening from PHP\<close>

text \<open>\<open>open()\<close> refuses a pid outside the native range and, for
  a pid that needs no capability, a CPU below -1 or above the native range, more than a thousand
  names, and a name that is not a string, with exactly one new exception and nothing else: no
  object, no descriptor, no system call.\<close>

lemma open_rejects_before_opening:
  assumes "pid_zl < PID_MIN \<or> PID_MAX < pid_zl \<or>
    (pid_zl \<le> 0 \<and> (cpu < -1 \<or> INT_MAX < cpu \<or> PERFIDIOUS_MAX_EVENT_NAMES < length ht \<or>
      all_strings (map snd ht) = None))"
  shows "\<exists>e. perfidious_open os ht pid_zl cpu p = Ret (ZNull, p\<lparr>exceptions := e # exceptions p\<rparr>)"
proof -
  have throw: "\<exists>e. zend_throw_exception c n s p = p\<lparr>exceptions := e # exceptions p\<rparr>" for c n s
    by (auto simp: zend_throw_exception_def)
  show ?thesis
  proof (cases "PID_MIN \<le> pid_zl \<and> pid_zl \<le> PID_MAX")
    case False
    then obtain s where "perfidious_zend_long_to_pid_t pid_zl p
        = (None, zend_throw_exception OverflowException 0 s p)"
      by (cases "PID_MAX < pid_zl") (auto simp: perfidious_zend_long_to_pid_t_def not_le)
    then show ?thesis using throw by (simp add: perfidious_open_def open_arguments_def checked_cpu_and_names_def)
  next
    case True
    then have "perfidious_zend_long_to_pid_t pid_zl p = (Some pid_zl, p)" "pid_zl \<le> 0"
      using assms
      by (auto simp: perfidious_zend_long_to_pid_t_def PID_MIN_def PID_MAX_def to_int32_id)
    then show ?thesis
      using True assms throw
      by (simp add: perfidious_open_def open_arguments_def checked_cpu_and_names_def split: option.split) auto
  qed
qed

text \<open>Without the effective capability
  \<open>CAP_PERFMON\<close>, \<open>open()\<close> for a pid above zero throws an \<open>IOException\<close> and opens nothing.\<close>

lemma open_other_process_needs_capability:
  assumes "0 < pid_zl" and "pid_zl \<le> PID_MAX"
    and "os_cap_get_proc os (kernel p) = (True, e1, k1)" and "os_cap_get_flag os k1 = (Some False, e2, k2)"
    and "os_cap_free os k2 = (True, e3, k3)"
  shows "\<exists>p'. perfidious_open os ht pid_zl cpu p = Ret (ZNull, p') \<and> trace p' = trace p \<and>
    objects p' = objects p \<and> heap p' = heap p \<and> ex_class (hd (exceptions p')) = IOException"
proof -
  have "0 < to_int32 pid_zl"
    using assms(1,2) by (subst to_int32_id) (simp_all add: PID_MAX_def)
  then show ?thesis
    using assms
    by (simp add: perfidious_open_def open_arguments_def checked_cpu_and_names_def perfidious_zend_long_to_pid_t_def check_perfmon_def lib_call_def
        PID_MIN_def PID_MAX_def Let_def zend_throw_exception_def)
qed

text \<open>The configured list of metric names is refused exactly when it
  has more than a thousand fields, with an \<open>OverflowException\<close> on record and no system call;
  otherwise the group is opened for precisely its comma-separated fields, in order, for the
  calling thread on any CPU, to outlive the request.\<close>

lemma request_metric_limit:
  "(if 1000 \<le> count_list names CHR '',''
    then \<exists>e. split_and_open os names p = (Inl e, p) \<and> exception_ce e = Some OverflowException
    else \<exists>fs. split_and_open os names p = perfidious_handle_try_open_ex os fs 0 (-1) True p \<and>
      join_fields CHR '','' fs = names \<and> length fs = Suc (count_list names CHR '','') \<and>
      list_all (\<lambda>f. CHR '','' \<notin> set f) fs)"
proof -
  let ?fs = "php_explode CHR '','' names 1001"
  have len: "length ?fs = min (Suc (count_list names CHR '','')) 1001" by (simp add: php_explode_length)
  show ?thesis
  proof (cases "1000 \<le> count_list names CHR '',''")
    case True
    then have "1000 < length ?fs" using len by simp
    then show ?thesis
      using True by (simp add: split_and_open_def PERFIDIOUS_MAX_EVENT_NAMES_def Let_def)
  next
    case False
    then have "length ?fs = Suc (count_list names CHR '','')" "\<not> 1000 < length ?fs" using len by simp_all
    moreover have "list_all (\<lambda>f. CHR '','' \<notin> set f) ?fs"
      using False php_explode_no_delim [of names "CHR '',''" 1001] by (auto simp: list_all_iff)
    ultimately show ?thesis
      using False join_php_explode [of "CHR '',''" names 1001]
      by (auto simp: split_and_open_def PERFIDIOUS_MAX_EVENT_NAMES_def Let_def intro!: exI [of _ ?fs])
  qed
qed

text \<open>Calling \<open>read()\<close> on an enabled handle makes exactly three
  system calls on the leader, in this order: disable, one read of the whole group, enable; a
  handle that is not enabled is read with one call and stays disabled. The same holds of
  \<open>readArray()\<close>.\<close>

lemma read_method_brackets_the_read:
  assumes "group_read_contract os" and "process_ok p" and "objects p this = Some obj"
    and "obj_handle obj = Some a" and "heap p a = Some h"
    and "meth = PerfidiousHandle_read os this \<or> meth = PerfidiousHandle_readArray os this"
  shows "\<exists>z p' d b e. meth p = Ret (z, p') \<and>
    trace p' = (if enabled h then [EvIoctl (leader_fd h) PERF_EVENT_IOC_ENABLE 0 e] else [])
      @ [EvRead (leader_fd h) (uint (perfidious_handle_read_buffer_size h)) b]
      @ (if enabled h then [EvIoctl (leader_fd h) PERF_EVENT_IOC_DISABLE 0 d] else []) @ trace p"
proof -
  have "valid_handle h" using assms(2,5) by (auto simp: process_ok_def dest: ownershipD(3))
  from result_boundary.boundary_trace [OF assms(1,2,5) this]
    array_boundary.boundary_trace [OF assms(1,2,5) this] assms(3,4,6)
  show ?thesis
    by (auto simp: PerfidiousHandle_read_def PerfidiousHandle_readArray_def on_open_object_def
        perfidious_handle_obj_require_open_def)
qed

lemma demo_opened:
  obtains p h where "perfidious_open demo_os [(KInt 0, ZString ''a'')] 0 (-1) (demo_process False None) = Ret (ZHandle 0, p)"
    "process_ok p" "objects p 0 = Some \<lparr>obj_handle = Some 0, borrowed = False\<rparr>" "heap p 0 = Some h"
    "leader_fd h = 3" "\<not> enabled h"
proof -
  have "state_ok (Idle, demo_process False None)" by (rule loaded_ok [OF demo_loaded])
  then have "process_ok (demo_process False None)" by (simp add: state_ok_def)
  from safe_open [OF this, of demo_os "[(KInt 0, ZString ''a'')]" 0 "-1"]
  have safe: "safe (perfidious_open demo_os [(KInt 0, ZString ''a'')] 0 (-1) (demo_process False None))" .
  have pid: "perfidious_zend_long_to_pid_t 0 q = (Some 0, q)" for q :: "demo process"
    by (simp add: perfidious_zend_long_to_pid_t_def PID_MAX_def PID_MIN_def to_int32_id)
  have "\<exists>p h. perfidious_open demo_os [(KInt 0, ZString ''a'')] 0 (-1) (demo_process False None) = Ret (ZHandle 0, p) \<and>
    objects p 0 = Some \<lparr>obj_handle = Some 0, borrowed = False\<rparr> \<and> heap p 0 = Some h \<and> leader_fd h = 3 \<and> \<not> enabled h"
    by (simp add: perfidious_open_def open_arguments_def checked_cpu_and_names_def pid INT_MAX_def PERFIDIOUS_MAX_EVENT_NAMES_def open_into_object_def
        perfidious_handle_obj_create_def perfidious_handle_open_ex_def perfidious_handle_try_open_ex_def
        alloc_handle_def demo_process_def demo_os_def demo_kernel_def demo_open_def sys_perf_event_open_def
        sys_ioctl_id_def called_def new_handle_def c_str_def PFM_SUCCESS_def leader_fd_def Let_def)
  with safe that show thesis by (metis safe_simps(2))
qed

section \<open>Module start and the information page\<close>

text \<open>While the module starts, errors are warnings; a successful start
  turns them into exceptions, registers the configuration or its defaults, and reports nothing; if
  libpfm cannot be initialised the start fails with one warning, no exception, and errors remain
  warnings. Shutdown turns them back into warnings.\<close>

lemma module_error_mode:
  "(if os_pfm_initialize os = PFM_SUCCESS
    then \<exists>p'. MINIT_perfidious os en names p = (True, p') \<and> error_mode p' = PERFIDIOUS_ERROR_MODE_THROW \<and>
      warnings p' = warnings p \<and> exceptions p' = exceptions p \<and> request_enable p' = (en = Some True) \<and>
      request_metrics p' = (if names = None then Some DEFAULT_METRICS else names)
    else \<exists>p' w. MINIT_perfidious os en names p = (False, p') \<and> warnings p' = w # warnings p \<and>
      exceptions p' = exceptions p \<and> error_mode p' = PERFIDIOUS_ERROR_MODE_WARNING) \<and>
   error_mode (MSHUTDOWN_perfidious p) = PERFIDIOUS_ERROR_MODE_WARNING"
  by (auto simp: MINIT_perfidious_def MINIT_perfidious_platform_def MSHUTDOWN_perfidious_def Let_def
      php_warning_def split: option.splits)

text \<open>A row of the information page shows, for a counter value that
  is not negative and a group that ran for part of the time since its last reset, the raw value,
  the value extrapolated to the whole time (value times enabled over running, rounded down), and
  the percentage of the time it ran, which is at most 100; an extrapolation beyond 64 bits
  shows as overflow.\<close>

lemma info_row_extrapolates:
  assumes "0 \<le> val" and "val \<le> ZEND_LONG_MAX" and "tr \<noteq> 0" and "tr \<le> te"
  shows "metric_rows te tr [(KStr key, ZLong val)] =
    [TableRow [c_str key, show_nat (nat val),
       if nat val * unat te div unat tr < 2 ^ 64 then show_nat (nat val * unat te div unat tr) else ''overflow'',
       show_nat (unat tr * 100 div unat te) @ ''%'']] \<and>
    unat tr * 100 div unat te \<le> 100"
proof -
  have te: "te \<noteq> 0" using assms(3,4) by (metis word_le_0_iff)
  have v: "unat (to_u64 val) = nat val"
    using assms(1,2) uint_of_int_64 [of val]
    by (simp add: to_u64_def ZEND_LONG_MAX_def unat_eq_nat_uint)
  have le: "unat tr \<le> unat te" using assms(4) by (simp add: word_le_nat_alt)
  have b: "unat tr * 100 div unat te \<le> 100"
    using le te by (metis div_le_mono mult.commute mult_le_mono1 nonzero_mult_div_cancel_right unat_eq_zero)
  have p: "perfidious_scale_uint64 tr 100 te \<noteq> None" using wide.complete [OF te, of tr 100] b by simp
  then obtain q where q: "perfidious_scale_uint64 tr 100 te = Some q" "unat q = unat tr * 100 div unat te"
    using wide.sound [OF te, of tr 100] by auto
  show ?thesis
  proof (cases "nat val * unat te div unat tr < 2 ^ 64")
    case True
    then obtain s where "perfidious_scale_uint64 (to_u64 val) te tr = Some s"
      "unat s = nat val * unat te div unat tr"
      using wide.complete [OF assms(3), of "to_u64 val" te] wide.sound [OF assms(3), of "to_u64 val" te] v by auto
    with True q te assms(3) v b show ?thesis by (simp add: scaled_text_def)
  next
    case False
    then have "perfidious_scale_uint64 (to_u64 val) te tr = None"
      using wide.fails_iff [OF assms(3), of "to_u64 val" te] v by simp
    with False q te assms(3) v b show ?thesis by (simp add: scaled_text_def)
  qed
qed

section \<open>The shape of the information page\<close>

text \<open>The number of columns an item takes, if it belongs in a table.\<close>

fun columns :: "info_item \<Rightarrow> nat option" where
  "columns (ColspanHeader n s) = Some n"
| "columns (TableHeader cells) = Some (length cells)"
| "columns (TableRow cells) = Some (length cells)"
| "columns _ = None"

text \<open>A sequence of boxes and of tables; \<open>open_table\<close> is the width of the table that has begun, which is not
  known before its first row. Every row of a table has the same width.\<close>

fun page_ok :: "nat option option \<Rightarrow> info_item list \<Rightarrow> bool" where
  "page_ok open_table [] = (open_table = None)"
| "page_ok None (TableStart # is) = page_ok (Some None) is"
| "page_ok None (InfoBox s # is) = page_ok None is"
| "page_ok None (i # is) = False"
| "page_ok (Some w) (TableEnd # is) = page_ok None is"
| "page_ok (Some w) (i # is) =
     (case columns i of None \<Rightarrow> False | Some n \<Rightarrow> (w = None \<or> w = Some n) \<and> page_ok (Some (Some n)) is)"

lemma four_columns: "Suc (Suc (Suc (Suc 0))) = 4"
  by simp

lemma page_ok_rows: "page_ok (Some (Some 4)) (metric_rows te tr kvs @ is) = page_ok (Some (Some 4)) is"
  by (induction te tr kvs rule: metric_rows.induct) (simp_all add: Let_def four_columns)

text \<open>Whether the page shows the metrics of the request group but cannot read them.\<close>

definition page_read_fails :: "'k linux_os \<Rightarrow> 'k process \<Rightarrow> bool" where
  "page_read_fails os p =
     (request_enable p \<and>
      (case request_handle p of None \<Rightarrow> False | Some a \<Rightarrow>
         (case with_handle a (perfidious_handle_read_to_array_with_times os) p of
            Ret (None, _) \<Rightarrow> True | _ \<Rightarrow> False)))"

lemmas page_defs = MINFO_perfidious_def MINFO_perfidious_platform_def page_read_fails_def minfo_handle_metrics_def

text \<open>C40 (info_page_is_rectangular). The information page is a sequence of well-formed tables and boxes, every row
  of a table as wide as its first, exactly when the read of the request group it shows, if it shows one, does not
  fail: the row that reports the failure spans three columns of a table of four.\<close>

theorem info_page_is_rectangular:
  "case MINFO_perfidious os p of
     Undefined \<Rightarrow> True | Ret (items, p') \<Rightarrow> page_ok None items = (\<not> page_read_fails os p)"
proof (cases "request_enable p")
  case True
  show ?thesis
  proof (cases "request_handle p")
    case (Some a)
    then show ?thesis using True
      by (cases "heap p a"; cases "perfidious_handle_read_to_array_with_times os (the (heap p a)) p")
        (auto simp: page_defs with_handle_def page_ok_rows four_columns split: option.splits)
  qed (simp add: page_defs True)
qed (simp add: page_defs split: option.split)

end
