(* ===== verification/Sampler.thy ===== *)
theory Sampler
  imports Engine
begin

text \<open>
  The portable sampler of \<open>src/sampler.c\<close> and \<open>src/sampler.h\<close>: metrics and scopes, the class
  \<open>Sampler\<close> with its samples and deltas, and the reference counts that tie samples to the
  sampler they came from. The platform part is a record of operations, one per function that
  \<open>sampler.h\<close> declares, over a state of arbitrary type; the theories of the platforms supply it.

  A platform read may wait for as long as signals interrupt it, so it returns an option, \<open>None\<close>
  being a call that does not return. Using a reference count that was freed gives \<open>Undefined\<close>.
\<close>

section \<open>Metrics and scopes (sampler.h)\<close>

datatype perfidious_metric_id =
    PERFIDIOUS_METRIC_CPU_TIME
  | PERFIDIOUS_METRIC_PAGE_FAULTS
  | PERFIDIOUS_METRIC_CONTEXT_SWITCHES
  | PERFIDIOUS_METRIC_CPU_CYCLES
  | PERFIDIOUS_METRIC_INSTRUCTIONS

text \<open>The loops over the enumeration run in this order.\<close>

definition all_metrics :: "perfidious_metric_id list" where
  "all_metrics = [PERFIDIOUS_METRIC_CPU_TIME, PERFIDIOUS_METRIC_PAGE_FAULTS,
     PERFIDIOUS_METRIC_CONTEXT_SWITCHES, PERFIDIOUS_METRIC_CPU_CYCLES, PERFIDIOUS_METRIC_INSTRUCTIONS]"

fun metric_number :: "perfidious_metric_id \<Rightarrow> nat" where
  "metric_number PERFIDIOUS_METRIC_CPU_TIME = 0"
| "metric_number PERFIDIOUS_METRIC_PAGE_FAULTS = 1"
| "metric_number PERFIDIOUS_METRIC_CONTEXT_SWITCHES = 2"
| "metric_number PERFIDIOUS_METRIC_CPU_CYCLES = 3"
| "metric_number PERFIDIOUS_METRIC_INSTRUCTIONS = 4"

definition PERFIDIOUS_METRIC_MASK :: "perfidious_metric_id \<Rightarrow> u32" where
  "PERFIDIOUS_METRIC_MASK metric = push_bit (metric_number metric) 1"

datatype perfidious_scope_id = PERFIDIOUS_SCOPE_CURRENT_PROCESS | PERFIDIOUS_SCOPE_CURRENT_THREAD

text \<open>An array with one entry per metric.\<close>

type_synonym snapshot = "perfidious_metric_id \<Rightarrow> u64"

section \<open>The platform interface (sampler.h)\<close>

text \<open>\<open>None\<close> as a result is \<open>FAILURE\<close>.\<close>

record ('m, 's) sampler_backend =
  platform_sampler_supported_metrics :: "u32 \<Rightarrow> perfidious_scope_id \<Rightarrow> 'm \<Rightarrow> u32 option \<times> 'm"
  platform_sampler_open :: "u32 \<Rightarrow> perfidious_scope_id \<Rightarrow> 'm \<Rightarrow> 's option \<times> 'm"
  platform_sampler_read :: "'s \<Rightarrow> 'm \<Rightarrow> (snapshot option \<times> 's \<times> 'm) option"
  platform_sampler_close :: "'s \<Rightarrow> 'm \<Rightarrow> 'm"
  hrtime_current :: "'m \<Rightarrow> u64 \<times> 'm"

section \<open>The metric table (sampler.c)\<close>

fun perfidious_metric_definitions :: "perfidious_metric_id \<Rightarrow> string \<times> string \<times> string" where
  "perfidious_metric_definitions PERFIDIOUS_METRIC_CPU_TIME = (''cpu-time'', ''CpuTime'', ''Nanoseconds'')"
| "perfidious_metric_definitions PERFIDIOUS_METRIC_PAGE_FAULTS = (''page-faults'', ''PageFaults'', ''Count'')"
| "perfidious_metric_definitions PERFIDIOUS_METRIC_CONTEXT_SWITCHES =
     (''context-switches'', ''ContextSwitches'', ''Count'')"
| "perfidious_metric_definitions PERFIDIOUS_METRIC_CPU_CYCLES = (''cpu-cycles'', ''CpuCycles'', ''Count'')"
| "perfidious_metric_definitions PERFIDIOUS_METRIC_INSTRUCTIONS = (''instructions'', ''Instructions'', ''Count'')"

definition perfidious_metric_name :: "perfidious_metric_id \<Rightarrow> string" where
  "perfidious_metric_name metric = fst (perfidious_metric_definitions metric)"

definition perfidious_metric_case_name :: "perfidious_metric_id \<Rightarrow> string" where
  "perfidious_metric_case_name metric = fst (snd (perfidious_metric_definitions metric))"

definition perfidious_metric_unit_case_name :: "perfidious_metric_id \<Rightarrow> string" where
  "perfidious_metric_unit_case_name metric = snd (snd (perfidious_metric_definitions metric))"

text \<open>A class name in the extension's namespace.\<close>

definition in_namespace :: "string \<Rightarrow> string" where
  "in_namespace s = ''Perfidious'' @ [CHR 0x5C] @ s"

text \<open>The enum cases that \<open>perfidious_sampler_minit\<close> registers.\<close>

definition metric_case :: "perfidious_metric_id \<Rightarrow> zval" where
  "metric_case metric = ZEnum ''Metric'' (perfidious_metric_case_name metric) (Some (perfidious_metric_name metric))"

definition scope_case :: "perfidious_scope_id \<Rightarrow> zval" where
  "scope_case scope =
     (if scope = PERFIDIOUS_SCOPE_CURRENT_PROCESS
      then ZEnum ''Scope'' ''CurrentProcess'' (Some ''current-process'')
      else ZEnum ''Scope'' ''CurrentThread'' (Some ''current-thread''))"

definition perfidious_metric_from_zval ::
  "zval \<Rightarrow> ('k, 'e, 'z) machine_scheme \<Rightarrow> perfidious_metric_id option \<times> ('k, 'e, 'z) machine_scheme" where
  "perfidious_metric_from_zval val m =
     (case val of
        ZEnum cls c (Some name) \<Rightarrow>
          if cls = ''Metric''
          then case List.find (\<lambda>candidate. perfidious_metric_name candidate = name) all_metrics of
            Some metric \<Rightarrow> (Some metric, m)
          | None \<Rightarrow> (None, zend_throw_exception Error 0
              (''Unknown '' @ in_namespace ''Metric'' @ '' backing value '' @ [CHR 0x22] @ c_str name @ [CHR 0x22]) m)
          else (None, zend_throw_exception TypeError 0
                 (''All metrics must be instances of '' @ in_namespace ''Metric'') m)
      | _ \<Rightarrow> (None, zend_throw_exception TypeError 0
               (''All metrics must be instances of '' @ in_namespace ''Metric'') m))"

definition perfidious_scope_from_zval :: "zval option \<Rightarrow> perfidious_scope_id" where
  "perfidious_scope_from_zval val =
     (if val = None \<or> val = Some (scope_case PERFIDIOUS_SCOPE_CURRENT_THREAD)
      then PERFIDIOUS_SCOPE_CURRENT_THREAD else PERFIDIOUS_SCOPE_CURRENT_PROCESS)"

definition sampler_overflow_message :: string where
  "sampler_overflow_message = ''Sampler counter value is too large to represent as a PHP integer''"

definition perfidious_uint64_to_long ::
  "u64 \<Rightarrow> ('k, 'e, 'z) machine_scheme \<Rightarrow> zend_long option \<times> ('k, 'e, 'z) machine_scheme" where
  "perfidious_uint64_to_long val m =
     (if to_u64 ZEND_LONG_MAX < val
      then (None, zend_throw_exception OverflowException 0 sampler_overflow_message m)
      else (Some (sint val), m))"

text \<open>The 128-byte buffer \<open>names\<close> holds at most 127 characters; the call that does not fit still
  writes what it can.\<close>

fun rejected_names :: "u32 \<Rightarrow> perfidious_metric_id list \<Rightarrow> string \<Rightarrow> string" where
  "rejected_names rejected [] names = names"
| "rejected_names rejected (metric # ms) names =
     (if rejected AND PERFIDIOUS_METRIC_MASK metric = 0 then rejected_names rejected ms names
      else let written = (if names = [] then [] else '', '') @ perfidious_metric_name metric
           in if 128 - length names \<le> length written
              then names @ take (128 - length names - 1) written
              else rejected_names rejected ms (names @ written))"

definition rejected_metrics :: "u32 \<Rightarrow> perfidious_metric_id list \<Rightarrow> perfidious_metric_id list" where
  "rejected_metrics rejected metric_order =
     filter (\<lambda>metric. rejected AND PERFIDIOUS_METRIC_MASK metric \<noteq> 0) metric_order"

text \<open>A list of values as a PHP array.\<close>

definition php_list :: "zval list \<Rightarrow> zval" where
  "php_list zs = ZArray (zip (map (KInt \<circ> int) [0..<length zs]) zs)"

definition perfidious_throw_unsupported_metrics ::
  "perfidious_scope_id \<Rightarrow> perfidious_metric_id list \<Rightarrow> u32 \<Rightarrow> ('k, 'e, 'z) machine_scheme
    \<Rightarrow> ('k, 'e, 'z) machine_scheme" where
  "perfidious_throw_unsupported_metrics scope metric_order rejected m =
     (if exceptions m \<noteq> [] then m
      else m\<lparr>exceptions := [\<lparr>ex_class = UnsupportedMetricException, ex_code = 0,
        ex_message = ''Metrics ['' @ rejected_names rejected metric_order []
          @ ''] are not supported for scope ''
          @ (if scope = PERFIDIOUS_SCOPE_CURRENT_PROCESS then ''current-process'' else ''current-thread''),
        ex_props = [(''scope'', scope_case scope),
          (''unsupportedMetrics'', php_list (map metric_case (rejected_metrics rejected metric_order)))]\<rparr>]\<rparr>)"

section \<open>Objects (sampler.c)\<close>

record 's perfidious_sampler_obj =
  so_sampler :: "'s option"
  so_identity :: "nat option"
  so_origin :: snapshot
  so_time_origin_ns :: u64
  so_metrics :: u32
  so_metric_order :: "perfidious_metric_id list"

record perfidious_sample_obj =
  sa_identity :: "nat option"
  sa_values :: snapshot
  sa_time_ns :: u64
  sa_metrics :: u32

record perfidious_sample_delta_obj =
  de_values :: snapshot
  de_metrics :: u32
  de_elapsedTimeNs :: zend_long

text \<open>The machine with the objects of the three classes and the reference counts of the
  identities. Numbers are never used twice.\<close>

record ('m, 's) sampler_world =
  engine :: 'm
  samplers :: "nat \<rightharpoonup> 's perfidious_sampler_obj"
  samples :: "nat \<rightharpoonup> perfidious_sample_obj"
  deltas :: "nat \<rightharpoonup> perfidious_sample_delta_obj"
  identities :: "nat \<rightharpoonup> u32"
  fresh :: nat

text \<open>New objects are zeroed; the number of an object is its address.\<close>

definition perfidious_sampler_obj_create :: "('m, 's) sampler_world \<Rightarrow> nat \<times> ('m, 's) sampler_world" where
  "perfidious_sampler_obj_create w =
     (fresh w,
      w\<lparr>samplers := (samplers w)(fresh w \<mapsto>
          \<lparr>so_sampler = None, so_identity = None, so_origin = (\<lambda>_. 0), so_time_origin_ns = 0, so_metrics = 0,
           so_metric_order = []\<rparr>), fresh := Suc (fresh w)\<rparr>)"

definition perfidious_sample_obj_create :: "('m, 's) sampler_world \<Rightarrow> nat \<times> ('m, 's) sampler_world" where
  "perfidious_sample_obj_create w =
     (fresh w,
      w\<lparr>samples := (samples w)(fresh w \<mapsto>
          \<lparr>sa_identity = None, sa_values = (\<lambda>_. 0), sa_time_ns = 0, sa_metrics = 0\<rparr>), fresh := Suc (fresh w)\<rparr>)"

definition perfidious_sample_delta_obj_create :: "('m, 's) sampler_world \<Rightarrow> nat \<times> ('m, 's) sampler_world" where
  "perfidious_sample_delta_obj_create w =
     (fresh w,
      w\<lparr>deltas := (deltas w)(fresh w \<mapsto> \<lparr>de_values = (\<lambda>_. 0), de_metrics = 0, de_elapsedTimeNs = 0\<rparr>),
        fresh := Suc (fresh w)\<rparr>)"

definition perfidious_sample_identity_release ::
  "nat option \<Rightarrow> ('m, 's) sampler_world \<Rightarrow> ('m, 's) sampler_world cval" where
  "perfidious_sample_identity_release ident w =
     (case ident of
        None \<Rightarrow> Ret w
      | Some a \<Rightarrow>
          (case identities w a of
             None \<Rightarrow> Undefined
           | Some n \<Rightarrow> Ret (w\<lparr>identities := (identities w)(a := (if n - 1 = 0 then None else Some (n - 1)))\<rparr>)))"

definition retain_identity ::
  "nat option \<Rightarrow> ('m, 's) sampler_world \<Rightarrow> ('m, 's) sampler_world cval" where
  "retain_identity ident w =
     (case ident of
        None \<Rightarrow> Undefined
      | Some a \<Rightarrow>
          (case identities w a of
             None \<Rightarrow> Undefined
           | Some n \<Rightarrow> Ret (w\<lparr>identities := (identities w)(a \<mapsto> n + 1)\<rparr>)))"

text \<open>Closing the native sampler of an object, if it has one.\<close>

definition close_native ::
  "('m, 's) sampler_backend \<Rightarrow> nat \<Rightarrow> ('m, 's) sampler_world \<Rightarrow> ('m, 's) sampler_world" where
  "close_native be this w =
     (case samplers w this of
        None \<Rightarrow> w
      | Some obj \<Rightarrow>
          (case so_sampler obj of
             None \<Rightarrow> w
           | Some s \<Rightarrow> w\<lparr>engine := platform_sampler_close be s (engine w),
                         samplers := (samplers w)(this \<mapsto> obj\<lparr>so_sampler := None\<rparr>)\<rparr>))"

definition perfidious_sampler_obj_free ::
  "('m, 's) sampler_backend \<Rightarrow> nat \<Rightarrow> ('m, 's) sampler_world \<Rightarrow> ('m, 's) sampler_world cval" where
  "perfidious_sampler_obj_free be this w =
     (let w1 = close_native be this w
      in case samplers w1 this of
           None \<Rightarrow> Undefined
         | Some obj \<Rightarrow>
             cbind (perfidious_sample_identity_release (so_identity obj) w1)
               (\<lambda>w2. Ret (w2\<lparr>samplers := (samplers w2)(this := None)\<rparr>)))"

definition perfidious_sample_obj_free ::
  "nat \<Rightarrow> ('m, 's) sampler_world \<Rightarrow> ('m, 's) sampler_world cval" where
  "perfidious_sample_obj_free this w =
     (case samples w this of
        None \<Rightarrow> Undefined
      | Some obj \<Rightarrow>
          cbind (perfidious_sample_identity_release (sa_identity obj) w)
            (\<lambda>w1. Ret (w1\<lparr>samples := (samples w1)(this := None)\<rparr>)))"

section \<open>Methods (sampler.c)\<close>

type_synonym ('k, 'e, 'z, 's) world = "(('k, 'e, 'z) machine_scheme, 's) sampler_world"

text \<open>Throwing in a world.\<close>

definition throwing :: "exn_class \<Rightarrow> string \<Rightarrow> ('k, 'e, 'z, 's) world \<Rightarrow> ('k, 'e, 'z, 's) world" where
  "throwing c msg w = w\<lparr>engine := zend_throw_exception c 0 msg (engine w)\<rparr>"

definition PerfidiousMetric_unit ::
  "zval \<Rightarrow> ('k, 'e, 'z, 's) world \<Rightarrow> zval \<times> ('k, 'e, 'z, 's) world" where
  "PerfidiousMetric_unit this w =
     (case perfidious_metric_from_zval this (engine w) of
        (None, m) \<Rightarrow> (ZNull, w\<lparr>engine := m\<rparr>)
      | (Some metric, m) \<Rightarrow>
          (ZEnum ''MetricUnit'' (perfidious_metric_unit_case_name metric) None, w\<lparr>engine := m\<rparr>))"

text \<open>The loop over the requested metrics: the mask and the order so far.\<close>

fun collect_metrics ::
  "zval list \<Rightarrow> u32 \<Rightarrow> perfidious_metric_id list \<Rightarrow> ('k, 'e, 'z) machine_scheme
    \<Rightarrow> (u32 \<times> perfidious_metric_id list) option \<times> ('k, 'e, 'z) machine_scheme" where
  "collect_metrics [] metrics metric_order m = (Some (metrics, metric_order), m)"
| "collect_metrics (val # vals) metrics metric_order m =
     (case perfidious_metric_from_zval val m of
        (None, m1) \<Rightarrow> (None, m1)
      | (Some metric, m1) \<Rightarrow>
          let mask = PERFIDIOUS_METRIC_MASK metric
          in if metrics AND mask \<noteq> 0
             then (None, zend_throw_exception ValueError 0
                    (in_namespace ''Sampler::open(): Argument #1 ($metrics) must not contain duplicate metrics'') m1)
             else collect_metrics vals (metrics OR mask) (metric_order @ [metric]) m1)"

text \<open>The end of \<open>open\<close>: the object exists before the native sampler is acquired, so a failure is
  cleaned up by destroying the object. The result is the new object, if any.\<close>

definition open_sampler ::
  "(('k, 'e, 'z) machine_scheme, 's) sampler_backend \<Rightarrow> u32 \<Rightarrow> perfidious_metric_id list
    \<Rightarrow> perfidious_scope_id \<Rightarrow> ('k, 'e, 'z, 's) world \<Rightarrow> (nat option \<times> ('k, 'e, 'z, 's) world) cval option" where
  "open_sampler be metrics metric_order scope w =
     (case perfidious_sampler_obj_create w of (this, w0) \<Rightarrow>
      let ident = fresh w0; obj = the (samplers w0 this)\<lparr>so_identity := Some ident\<rparr>;
          w1 = w0\<lparr>samplers := (samplers w0)(this \<mapsto> obj),
                  identities := (identities w0)(ident \<mapsto> 1), fresh := Suc ident\<rparr>;
          give_up = (\<lambda>w'. cbind (perfidious_sampler_obj_free be this w') (\<lambda>w''. Ret (None, w'')))
      in case platform_sampler_open be metrics scope (engine w1) of
           (None, m1) \<Rightarrow> Some (give_up (w1\<lparr>engine := m1\<rparr>))
         | (Some s, m1) \<Rightarrow>
             (case platform_sampler_read be s m1 of
                None \<Rightarrow> None
              | Some (None, s1, m2) \<Rightarrow>
                  Some (give_up (w1\<lparr>engine := m2,
                                   samplers := (samplers w1)(this \<mapsto> obj\<lparr>so_sampler := Some s1\<rparr>)\<rparr>))
              | Some (Some origin, s1, m2) \<Rightarrow>
                  (case hrtime_current be m2 of (t, m3) \<Rightarrow>
                     Some (Ret (Some this,
                       w1\<lparr>engine := m3,
                          samplers := (samplers w1)(this \<mapsto>
                            obj\<lparr>so_sampler := Some s1, so_origin := origin, so_time_origin_ns := t,
                                so_metrics := metrics, so_metric_order := metric_order\<rparr>)\<rparr>)))))"

lemma open_sampler_unfold:
  "open_sampler be metrics metric_order scope w =
     (let this = fresh w; ident = Suc (fresh w);
          obj = \<lparr>so_sampler = None, so_identity = Some ident, so_origin = (\<lambda>_. 0),
                 so_time_origin_ns = 0, so_metrics = 0, so_metric_order = []\<rparr>;
          w1 = w\<lparr>samplers := (samplers w)(this \<mapsto> obj),
                 identities := (identities w)(ident \<mapsto> 1), fresh := Suc (Suc (fresh w))\<rparr>;
          give_up = (\<lambda>w'. cbind (perfidious_sampler_obj_free be this w') (\<lambda>w''. Ret (None, w'')))
      in case platform_sampler_open be metrics scope (engine w1) of
           (None, m1) \<Rightarrow> Some (give_up (w1\<lparr>engine := m1\<rparr>))
         | (Some s, m1) \<Rightarrow>
             (case platform_sampler_read be s m1 of
                None \<Rightarrow> None
              | Some (None, s1, m2) \<Rightarrow>
                  Some (give_up (w1\<lparr>engine := m2,
                                   samplers := (samplers w1)(this \<mapsto> obj\<lparr>so_sampler := Some s1\<rparr>)\<rparr>))
              | Some (Some origin, s1, m2) \<Rightarrow>
                  (case hrtime_current be m2 of (t, m3) \<Rightarrow>
                     Some (Ret (Some this,
                       w1\<lparr>engine := m3,
                          samplers := (samplers w1)(this \<mapsto>
                            obj\<lparr>so_sampler := Some s1, so_origin := origin, so_time_origin_ns := t,
                                so_metrics := metrics, so_metric_order := metric_order\<rparr>)\<rparr>)))))"
  by (simp add: open_sampler_def perfidious_sampler_obj_create_def Let_def cong: option.case_cong prod.case_cong)

definition PerfidiousSampler_open ::
  "(('k, 'e, 'z) machine_scheme, 's) sampler_backend \<Rightarrow> zval list \<Rightarrow> zval option
    \<Rightarrow> ('k, 'e, 'z, 's) world \<Rightarrow> (nat option \<times> ('k, 'e, 'z, 's) world) cval option" where
  "PerfidiousSampler_open be metrics_array scope_value w =
     (if metrics_array = []
      then Some (Ret (None, throwing ValueError
             (in_namespace ''Sampler::open(): Argument #1 ($metrics) must not be empty'') w))
      else case collect_metrics metrics_array 0 [] (engine w) of
        (None, m1) \<Rightarrow> Some (Ret (None, w\<lparr>engine := m1\<rparr>))
      | (Some (metrics, metric_order), m1) \<Rightarrow>
          (let scope = perfidious_scope_from_zval scope_value
           in case platform_sampler_supported_metrics be metrics scope m1 of
                (None, m2) \<Rightarrow> Some (Ret (None, w\<lparr>engine := m2\<rparr>))
              | (Some supported, m2) \<Rightarrow>
                  if metrics AND NOT supported \<noteq> 0
                  then Some (Ret (None, w\<lparr>engine :=
                         perfidious_throw_unsupported_metrics scope metric_order
                           (metrics AND NOT supported) m2\<rparr>))
                  else open_sampler be metrics metric_order scope (w\<lparr>engine := m2\<rparr>)))"

definition PerfidiousSampler_metrics ::
  "nat \<Rightarrow> ('m, 's) sampler_world \<Rightarrow> (zval \<times> ('m, 's) sampler_world) cval" where
  "PerfidiousSampler_metrics this w =
     (case samplers w this of
        None \<Rightarrow> Undefined
      | Some obj \<Rightarrow> Ret (php_list (map metric_case (so_metric_order obj)), w))"

text \<open>The loop of \<open>read\<close> over the collected metrics: the values since the origin, or the message and
  class of the exception at the first metric that fails.\<close>

fun sample_values ::
  "perfidious_metric_id list \<Rightarrow> u32 \<Rightarrow> snapshot \<Rightarrow> snapshot \<Rightarrow> snapshot \<Rightarrow> (exn_class \<times> string) + snapshot" where
  "sample_values [] metrics origin current vals = Inr vals"
| "sample_values (metric # ms) metrics origin current vals =
     (if metrics AND PERFIDIOUS_METRIC_MASK metric = 0 then sample_values ms metrics origin current vals
      else if current metric < origin metric
      then Inl (IOException, ''Sampler '' @ perfidious_metric_name metric @ '' counter moved backwards'')
      else if to_u64 ZEND_LONG_MAX < current metric - origin metric
      then Inl (OverflowException, ''Sampler '' @ perfidious_metric_name metric
             @ '' counter is too large to represent as a PHP integer'')
      else sample_values ms metrics origin current (vals(metric := current metric - origin metric)))"

definition PerfidiousSampler_read ::
  "(('k, 'e, 'z) machine_scheme, 's) sampler_backend \<Rightarrow> nat \<Rightarrow> ('k, 'e, 'z, 's) world
    \<Rightarrow> (nat option \<times> ('k, 'e, 'z, 's) world) cval option" where
  "PerfidiousSampler_read be this w =
     (case samplers w this of
        None \<Rightarrow> Some Undefined
      | Some obj \<Rightarrow>
          (case so_sampler obj of
             None \<Rightarrow> Some (Ret (None, throwing ClosedException ''Sampler is closed'' w))
           | Some s \<Rightarrow>
               (case platform_sampler_read be s (engine w) of
                  None \<Rightarrow> None
                | Some (r, s1, m1) \<Rightarrow>
                    (let w1 = w\<lparr>engine := m1, samplers := (samplers w)(this \<mapsto> obj\<lparr>so_sampler := Some s1\<rparr>)\<rparr>
                     in case r of
                          None \<Rightarrow> Some (Ret (None, w1))
                        | Some current \<Rightarrow>
                            (case hrtime_current be m1 of (time_ns, m2) \<Rightarrow>
                               let w2 = w1\<lparr>engine := m2\<rparr>
                               in if time_ns < so_time_origin_ns obj
                                  then Some (Ret (None, throwing IOException ''Monotonic clock moved backwards'' w2))
                                  else Some (cbind (retain_identity (so_identity obj) w2) (\<lambda>w3.
                                    case perfidious_sample_obj_create w3 of (i, w4') \<Rightarrow>
                                    let sample = the (samples w4' i)\<lparr>sa_identity := so_identity obj,
                                          sa_time_ns := time_ns - so_time_origin_ns obj, sa_metrics := so_metrics obj\<rparr>;
                                        w4 = w4'\<lparr>samples := (samples w4')(i \<mapsto> sample)\<rparr>
                                    in case sample_values all_metrics (so_metrics obj) (so_origin obj) current (\<lambda>_. 0) of
                                         Inl (c, msg) \<Rightarrow>
                                           cbind (perfidious_sample_obj_free i w4) (\<lambda>w5. Ret (None, throwing c msg w5))
                                       | Inr vals \<Rightarrow>
                                           Ret (Some i, w4\<lparr>samples := (samples w4)(i \<mapsto> sample\<lparr>sa_values := vals\<rparr>)\<rparr>))))))))"

lemma PerfidiousSampler_read_unfold:
  "PerfidiousSampler_read be this w =
     (case samplers w this of
        None \<Rightarrow> Some Undefined
      | Some obj \<Rightarrow>
          (case so_sampler obj of
             None \<Rightarrow> Some (Ret (None, throwing ClosedException ''Sampler is closed'' w))
           | Some s \<Rightarrow>
               (case platform_sampler_read be s (engine w) of
                  None \<Rightarrow> None
                | Some (r, s1, m1) \<Rightarrow>
                    (let w1 = w\<lparr>engine := m1, samplers := (samplers w)(this \<mapsto> obj\<lparr>so_sampler := Some s1\<rparr>)\<rparr>
                     in case r of
                          None \<Rightarrow> Some (Ret (None, w1))
                        | Some current \<Rightarrow>
                            (case hrtime_current be m1 of (time_ns, m2) \<Rightarrow>
                               let w2 = w1\<lparr>engine := m2\<rparr>
                               in if time_ns < so_time_origin_ns obj
                                  then Some (Ret (None, throwing IOException ''Monotonic clock moved backwards'' w2))
                                  else Some (cbind (retain_identity (so_identity obj) w2) (\<lambda>w3.
                                    let i = fresh w3;
                                        sample = \<lparr>sa_identity = so_identity obj, sa_values = (\<lambda>_. 0),
                                          sa_time_ns = time_ns - so_time_origin_ns obj, sa_metrics = so_metrics obj\<rparr>;
                                        w4 = w3\<lparr>fresh := Suc i, samples := (samples w3)(i \<mapsto> sample)\<rparr>
                                    in case sample_values all_metrics (so_metrics obj) (so_origin obj) current (\<lambda>_. 0) of
                                         Inl (c, msg) \<Rightarrow>
                                           cbind (perfidious_sample_obj_free i w4) (\<lambda>w5. Ret (None, throwing c msg w5))
                                       | Inr vals \<Rightarrow>
                                           Ret (Some i, w4\<lparr>samples := (samples w4)(i \<mapsto> sample\<lparr>sa_values := vals\<rparr>)\<rparr>))))))))"
  by (simp add: PerfidiousSampler_read_def perfidious_sample_obj_create_def Let_def
      cong: option.case_cong prod.case_cong sum.case_cong if_cong)

definition PerfidiousSampler_close ::
  "('m, 's) sampler_backend \<Rightarrow> nat \<Rightarrow> ('m, 's) sampler_world \<Rightarrow> ('m, 's) sampler_world cval" where
  "PerfidiousSampler_close be this w =
     (case samplers w this of None \<Rightarrow> Undefined | Some obj \<Rightarrow> Ret (close_native be this w))"

definition perfidious_sample_value ::
  "zval \<Rightarrow> u32 \<Rightarrow> snapshot \<Rightarrow> ('k, 'e, 'z, 's) world \<Rightarrow> zval \<times> ('k, 'e, 'z, 's) world" where
  "perfidious_sample_value metric_value metrics vals w =
     (case perfidious_metric_from_zval metric_value (engine w) of
        (None, m) \<Rightarrow> (ZNull, w\<lparr>engine := m\<rparr>)
      | (Some metric, m) \<Rightarrow>
          if metrics AND PERFIDIOUS_METRIC_MASK metric = 0
          then (ZNull, throwing ValueError
                  (''Metric '' @ perfidious_metric_name metric @ '' was not collected by this sampler'')
                  (w\<lparr>engine := m\<rparr>))
          else case perfidious_uint64_to_long (vals metric) m of
            (None, m1) \<Rightarrow> (ZNull, w\<lparr>engine := m1\<rparr>)
          | (Some result, m1) \<Rightarrow> (ZLong result, w\<lparr>engine := m1\<rparr>))"

definition PerfidiousSample_value ::
  "nat \<Rightarrow> zval \<Rightarrow> ('k, 'e, 'z, 's) world \<Rightarrow> (zval \<times> ('k, 'e, 'z, 's) world) cval" where
  "PerfidiousSample_value this metric_value w =
     (case samples w this of
        None \<Rightarrow> Undefined
      | Some obj \<Rightarrow> Ret (perfidious_sample_value metric_value (sa_metrics obj) (sa_values obj) w))"

text \<open>The loop of \<open>since\<close>.\<close>

fun delta_values ::
  "perfidious_metric_id list \<Rightarrow> u32 \<Rightarrow> snapshot \<Rightarrow> snapshot \<Rightarrow> snapshot \<Rightarrow> string + snapshot" where
  "delta_values [] metrics earlier later vals = Inr vals"
| "delta_values (metric # ms) metrics earlier later vals =
     (if metrics AND PERFIDIOUS_METRIC_MASK metric = 0 then delta_values ms metrics earlier later vals
      else if later metric < earlier metric
      then Inl (''Sampler '' @ perfidious_metric_name metric @ '' counter moved backwards between samples'')
      else delta_values ms metrics earlier later (vals(metric := later metric - earlier metric)))"

definition PerfidiousSample_since ::
  "nat \<Rightarrow> nat \<Rightarrow> ('k, 'e, 'z, 's) world \<Rightarrow> (nat option \<times> ('k, 'e, 'z, 's) world) cval" where
  "PerfidiousSample_since this earlier_value w =
     (case (samples w this, samples w earlier_value) of
        (Some obj, Some earlier) \<Rightarrow>
          if sa_identity obj \<noteq> sa_identity earlier
          then Ret (None, throwing ValueError ''Samples must come from the same sampler'' w)
          else if sa_time_ns obj < sa_time_ns earlier
          then Ret (None, throwing ValueError ''The earlier sample must not be newer than this sample'' w)
          else (case perfidious_uint64_to_long (sa_time_ns obj - sa_time_ns earlier) (engine w) of
            (None, m) \<Rightarrow> Ret (None, w\<lparr>engine := m\<rparr>)
          | (Some elapsed_time_ns, m) \<Rightarrow>
              (case delta_values all_metrics (sa_metrics obj) (sa_values earlier) (sa_values obj) (\<lambda>_. 0) of
                 Inl msg \<Rightarrow> Ret (None, throwing IOException msg (w\<lparr>engine := m\<rparr>))
               | Inr vals \<Rightarrow>
                   (case perfidious_sample_delta_obj_create (w\<lparr>engine := m\<rparr>) of (i, w1) \<Rightarrow>
                     Ret (Some i,
                       w1\<lparr>deltas := (deltas w1)(i \<mapsto>
                         \<lparr>de_values = vals, de_metrics = sa_metrics obj,
                          de_elapsedTimeNs = elapsed_time_ns\<rparr>)\<rparr>))))
      | _ \<Rightarrow> Undefined)"

lemma PerfidiousSample_since_unfold:
  "PerfidiousSample_since this earlier_value w =
     (case (samples w this, samples w earlier_value) of
        (Some obj, Some earlier) \<Rightarrow>
          if sa_identity obj \<noteq> sa_identity earlier
          then Ret (None, throwing ValueError ''Samples must come from the same sampler'' w)
          else if sa_time_ns obj < sa_time_ns earlier
          then Ret (None, throwing ValueError ''The earlier sample must not be newer than this sample'' w)
          else (case perfidious_uint64_to_long (sa_time_ns obj - sa_time_ns earlier) (engine w) of
            (None, m) \<Rightarrow> Ret (None, w\<lparr>engine := m\<rparr>)
          | (Some elapsed_time_ns, m) \<Rightarrow>
              (case delta_values all_metrics (sa_metrics obj) (sa_values earlier) (sa_values obj) (\<lambda>_. 0) of
                 Inl msg \<Rightarrow> Ret (None, throwing IOException msg (w\<lparr>engine := m\<rparr>))
               | Inr vals \<Rightarrow>
                   Ret (Some (fresh w),
                     w\<lparr>engine := m, fresh := Suc (fresh w),
                       deltas := (deltas w)(fresh w \<mapsto>
                         \<lparr>de_values = vals, de_metrics = sa_metrics obj,
                          de_elapsedTimeNs = elapsed_time_ns\<rparr>)\<rparr>)))
      | _ \<Rightarrow> Undefined)"
  by (simp add: PerfidiousSample_since_def perfidious_sample_delta_obj_create_def
      cong: option.case_cong prod.case_cong sum.case_cong if_cong)

definition PerfidiousSampleDelta_value ::
  "nat \<Rightarrow> zval \<Rightarrow> ('k, 'e, 'z, 's) world \<Rightarrow> (zval \<times> ('k, 'e, 'z, 's) world) cval" where
  "PerfidiousSampleDelta_value this metric_value w =
     (case deltas w this of
        None \<Rightarrow> Undefined
      | Some obj \<Rightarrow> Ret (perfidious_sample_value metric_value (de_metrics obj) (de_values obj) w))"

section \<open>Masks and the metric table\<close>

lemma all_metrics_complete [simp]: "metric \<in> set all_metrics"
  by (cases metric) (simp_all add: all_metrics_def)

lemma distinct_all_metrics [simp]: "distinct all_metrics"
  by (simp add: all_metrics_def)

lemma metric_number_bound: "metric_number metric < 32"
  by (cases metric) simp_all

lemma metric_number_inject [simp]: "metric_number a = metric_number b \<longleftrightarrow> a = b"
  by (cases a; cases b) simp_all

lemma bit_mask [simp]:
  "bit (PERFIDIOUS_METRIC_MASK a) n \<longleftrightarrow> n = metric_number a"
  using metric_number_bound [of a]
  by (auto simp: PERFIDIOUS_METRIC_MASK_def push_bit_eq_mult bit_exp_iff)

text \<open>Testing a mask reads one bit.\<close>

lemma mask_test: "w AND PERFIDIOUS_METRIC_MASK a = 0 \<longleftrightarrow> \<not> bit w (metric_number a)"
proof
  assume z: "w AND PERFIDIOUS_METRIC_MASK a = 0"
  have "bit (w AND PERFIDIOUS_METRIC_MASK a) (metric_number a) = bit w (metric_number a)"
    by (simp add: bit_and_iff)
  then show "\<not> bit w (metric_number a)" using z by simp
next
  assume "\<not> bit w (metric_number a)"
  then show "w AND PERFIDIOUS_METRIC_MASK a = 0" by (intro bit_eqI) (auto simp: bit_and_iff)
qed

definition collected :: "u32 \<Rightarrow> perfidious_metric_id set" where
  "collected w = {a. bit w (metric_number a)}"

lemma collected_mask_test: "w AND PERFIDIOUS_METRIC_MASK a = 0 \<longleftrightarrow> a \<notin> collected w"
  by (simp add: collected_def mask_test)

lemma collected_simps [simp]:
  "collected 0 = {}"
  "collected (v OR PERFIDIOUS_METRIC_MASK a) = insert a (collected v)"
  "collected (PERFIDIOUS_METRIC_MASK a) = {a}"
  by (auto simp: collected_def bit_or_iff)

lemma mask_nonzero [simp]: "PERFIDIOUS_METRIC_MASK a \<noteq> 0"
  using collected_simps(1,3) by (metis insert_not_empty)

lemma collected_or: "collected (v OR w) = collected v \<union> collected w"
  by (auto simp: collected_def bit_or_iff)

lemma collected_and_not: "collected (v AND NOT w) = collected v - collected w"
  using metric_number_bound by (auto simp: collected_def bit_and_iff bit_not_iff)

lemma metric_name_inject [simp]: "perfidious_metric_name a = perfidious_metric_name b \<longleftrightarrow> a = b"
  by (cases a; cases b) (simp_all add: perfidious_metric_name_def)

lemma find_metric_name: "List.find (\<lambda>c. c = a) all_metrics = Some a"
  by (cases a) (simp_all add: all_metrics_def)

lemma metric_from_case [simp]: "perfidious_metric_from_zval (metric_case a) m = (Some a, m)"
  by (simp add: perfidious_metric_from_zval_def metric_case_def find_metric_name)

lemma metric_from_zval_result:
  "perfidious_metric_from_zval z m = (Some a, m') \<Longrightarrow> m' = m"
  "perfidious_metric_from_zval z m = (None, m') \<Longrightarrow> \<exists>c s. m' = zend_throw_exception c 0 s m"
  by (auto simp: perfidious_metric_from_zval_def split: zval.splits option.splits if_splits)

section \<open>Collecting the requested metrics\<close>

lemma collect_metrics_run:
  assumes "collect_metrics vals v ord m = (r, m')" "distinct ord" "collected v = set ord"
  shows "case r of
      Some (v', ord') \<Rightarrow> m' = m \<and> distinct ord' \<and> collected v' = set ord' \<and> length ord' = length ord + length vals
    | None \<Rightarrow> \<exists>c s. m' = zend_throw_exception c 0 s m"
  using assms
proof (induction vals arbitrary: v ord)
  case Nil
  then show ?case by auto
next
  case (Cons val vals)
  obtain a m1 where f: "perfidious_metric_from_zval val m = (a, m1)" by fastforce
  show ?case
  proof (cases a)
    case None
    then show ?thesis using Cons.prems(1) f metric_from_zval_result(2) by auto
  next
    case (Some metric)
    have m1: "m1 = m" using f Some metric_from_zval_result(1) by auto
    show ?thesis
    proof (cases "metric \<in> set ord")
      case True
      then have "v AND PERFIDIOUS_METRIC_MASK metric \<noteq> 0" using Cons.prems(3) by (simp add: collected_mask_test)
      then show ?thesis using Cons.prems(1) f Some m1 by (auto simp: Let_def)
    next
      case False
      then have "v AND PERFIDIOUS_METRIC_MASK metric = 0" using Cons.prems(3) by (simp add: collected_mask_test)
      then have "collect_metrics vals (v OR PERFIDIOUS_METRIC_MASK metric) (ord @ [metric]) m = (r, m')"
        using Cons.prems(1) f Some m1 by (simp add: Let_def)
      from Cons.IH [OF this] False Cons.prems show ?thesis by (auto split: option.splits)
    qed
  qed
qed

lemma collect_metrics_cases:
  "distinct ms \<Longrightarrow> set ms \<inter> collected v = {} \<Longrightarrow>
     \<exists>v'. collect_metrics (map metric_case ms) v ord m = (Some (v', ord @ ms), m) \<and>
       collected v' = collected v \<union> set ms"
proof (induction ms arbitrary: v ord)
  case Nil
  then show ?case by simp
next
  case (Cons a ms)
  have "v AND PERFIDIOUS_METRIC_MASK a = 0" using Cons.prems by (simp add: collected_mask_test)
  moreover have "\<exists>v'. collect_metrics (map metric_case ms) (v OR PERFIDIOUS_METRIC_MASK a) (ord @ [a]) m
      = (Some (v', (ord @ [a]) @ ms), m) \<and> collected v' = collected (v OR PERFIDIOUS_METRIC_MASK a) \<union> set ms"
    using Cons.prems by (intro Cons.IH) auto
  ultimately show ?case by (auto simp: Let_def)
qed

text \<open>There are five metrics, so an order without repetitions never outgrows its array.\<close>

lemma distinct_order_bound: "distinct (ord :: perfidious_metric_id list) \<Longrightarrow> length ord \<le> 5"
proof -
  assume d: "distinct ord"
  have "set ord \<subseteq> set all_metrics" by (auto intro: all_metrics_complete)
  then have "card (set ord) \<le> card (set all_metrics)" by (rule card_mono [OF finite_set])
  then show ?thesis using d distinct_card [of all_metrics] by (simp add: distinct_card all_metrics_def)
qed

section \<open>Unsupported metrics\<close>

fun comma_join :: "string list \<Rightarrow> string" where
  "comma_join [] = []"
| "comma_join [s] = s"
| "comma_join (s # t # ss) = s @ '', '' @ comma_join (t # ss)"

lemma comma_join_snoc: "ss \<noteq> [] \<Longrightarrow> comma_join (ss @ [s]) = comma_join ss @ '', '' @ s"
  by (induction ss rule: comma_join.induct) auto

lemma metric_name_length: "0 < length (perfidious_metric_name a)" "length (perfidious_metric_name a) \<le> 16"
  by (cases a; simp add: perfidious_metric_name_def)+

lemma comma_join_length:
  "length (comma_join (map perfidious_metric_name ms)) \<le> 18 * length ms"
proof (induction ms rule: induct_list012)
  case (3 a b ms)
  then show ?case using metric_name_length(2) [of a] by simp
next
  case (2 a)
  then show ?case using metric_name_length(2) [of a] by simp
qed simp

lemma comma_join_empty: "comma_join (map perfidious_metric_name ms) = [] \<longleftrightarrow> ms = []"
  using metric_name_length(1) by (cases ms rule: remdups_adj.cases) auto

lemma rejected_names_join:
  assumes "length (done @ ms) \<le> 5"
  shows "rejected_names rej ms (comma_join (map perfidious_metric_name done))
    = comma_join (map perfidious_metric_name (done @ rejected_metrics rej ms))"
  using assms
proof (induction ms arbitrary: "done")
  case Nil
  then show ?case by (simp add: rejected_metrics_def)
next
  case (Cons a ms)
  let ?names = "comma_join (map perfidious_metric_name done)"
  let ?written = "(if ?names = [] then [] else '', '') @ perfidious_metric_name a"
  show ?case
  proof (cases "rej AND PERFIDIOUS_METRIC_MASK a = 0")
    case True
    then show ?thesis using Cons.IH [of "done"] Cons.prems by (simp add: rejected_metrics_def)
  next
    case False
    have len: "length ?names \<le> 18 * length done" by (rule comma_join_length)
    have "length done \<le> 4" using Cons.prems by simp
    then have fits: "\<not> 128 - length ?names \<le> length ?written"
      using len metric_name_length(2) [of a] by auto
    have "?names @ ?written = comma_join (map perfidious_metric_name (done @ [a]))"
      using comma_join_snoc [of "map perfidious_metric_name done"] comma_join_empty [of "done"]
      by (cases "done = []") auto
    with fits False Cons.IH [of "done @ [a]"] Cons.prems show ?thesis
      by (simp add: rejected_metrics_def Let_def)
  qed
qed

section \<open>Values of samples and deltas\<close>

interpretation sampler_to_long: checked_to_long perfidious_uint64_to_long "\<lambda>v. sampler_overflow_message"
  by unfold_locales (simp_all add: perfidious_uint64_to_long_def zend_long_max_guard sint_eq_uint_64)

lemma sample_values_iff:
  "distinct ms \<Longrightarrow>
     sample_values ms v start now vals = Inr r \<longleftrightarrow>
       (\<forall>a \<in> set ms \<inter> collected v. start a \<le> now a \<and> uint (now a - start a) < 2 ^ 63) \<and>
       r = (\<lambda>a. if a \<in> set ms \<inter> collected v then now a - start a else vals a)"
proof (induction ms arbitrary: vals)
  case Nil
  then show ?case by auto
next
  case (Cons b ms)
  show ?case
  proof (cases "b \<in> collected v \<and> start b \<le> now b \<and> uint (now b - start b) < 2 ^ 63")
    case True
    then have "sample_values (b # ms) v start now vals
        = sample_values ms v start now (vals(b := now b - start b))"
      by (simp add: collected_mask_test zend_long_max_guard not_less [symmetric])
    moreover have "(\<lambda>a. if a \<in> set ms \<inter> collected v then now a - start a else (vals(b := now b - start b)) a)
        = (\<lambda>a. if a \<in> set (b # ms) \<inter> collected v then now a - start a else vals a)"
      using True by auto
    ultimately show ?thesis using Cons True by simp
  next
    case False
    show ?thesis
    proof (cases "b \<in> collected v")
      case True
      with False have "\<exists>e. sample_values (b # ms) v start now vals = Inl e"
        by (auto simp: collected_mask_test zend_long_max_guard not_less not_le)
      with True False show ?thesis by auto
    next
      case False
      then have "sample_values (b # ms) v start now vals = sample_values ms v start now vals"
        by (simp add: collected_mask_test)
      moreover have "set (b # ms) \<inter> collected v = set ms \<inter> collected v" using False by auto
      ultimately show ?thesis using Cons by (simp only: distinct.simps)
    qed
  qed
qed

lemma sample_values_all:
  "sample_values all_metrics v start now (\<lambda>_. 0) = Inr r \<longleftrightarrow>
     (\<forall>a \<in> collected v. start a \<le> now a \<and> uint (now a - start a) < 2 ^ 63) \<and>
     r = (\<lambda>a. if a \<in> collected v then now a - start a else 0)"
  using sample_values_iff [OF distinct_all_metrics, of v start now "\<lambda>_. 0" r] by auto

lemma delta_values_iff:
  "distinct ms \<Longrightarrow>
     delta_values ms v early late vals = Inr r \<longleftrightarrow>
       (\<forall>a \<in> set ms \<inter> collected v. early a \<le> late a) \<and>
       r = (\<lambda>a. if a \<in> set ms \<inter> collected v then late a - early a else vals a)"
proof (induction ms arbitrary: vals)
  case Nil
  then show ?case by auto
next
  case (Cons b ms)
  show ?case
  proof (cases "b \<in> collected v")
    case False
    then have "set (b # ms) \<inter> collected v = set ms \<inter> collected v" by auto
    with False Cons show ?thesis by (simp add: collected_mask_test)
  next
    case True
    have "(\<lambda>a. if a \<in> set ms \<inter> collected v then late a - early a else (vals(b := late b - early b)) a)
        = (\<lambda>a. if a \<in> set (b # ms) \<inter> collected v then late a - early a else vals a)"
      using True by auto
    with True Cons show ?thesis
      by (cases "early b \<le> late b") (auto simp: collected_mask_test not_le not_less)
  qed
qed

lemma delta_values_all:
  "delta_values all_metrics v early late (\<lambda>_. 0) = Inr r \<longleftrightarrow>
     (\<forall>a \<in> collected v. early a \<le> late a) \<and> r = (\<lambda>a. if a \<in> collected v then late a - early a else 0)"
  using delta_values_iff [OF distinct_all_metrics, of v early late "\<lambda>_. 0" r] by auto

section \<open>Reference counts\<close>

definition references :: "('m, 's) sampler_world \<Rightarrow> nat \<Rightarrow> nat" where
  "references w a = total_over (\<lambda>obj. of_bool (so_identity obj = Some a)) (samplers w)
     + total_over (\<lambda>obj. of_bool (sa_identity obj = Some a)) (samples w)"

text \<open>Every sampler and sample has an identity, every identity counts its references, and the
  numbers from \<open>fresh\<close> on are unused.\<close>

definition counted :: "('m, 's) sampler_world \<Rightarrow> bool" where
  "counted w \<longleftrightarrow>
     finite (dom (samplers w)) \<and> finite (dom (samples w)) \<and>
     (\<forall>i obj. samplers w i = Some obj \<longrightarrow> so_identity obj \<noteq> None) \<and>
     (\<forall>i obj. samples w i = Some obj \<longrightarrow> sa_identity obj \<noteq> None) \<and>
     (\<forall>a. identities w a = (if references w a = 0 then None else Some (of_nat (references w a)))) \<and>
     (\<forall>a. references w a < 2 ^ 32) \<and>
     (\<forall>i \<ge> fresh w. samplers w i = None \<and> samples w i = None \<and> references w i = 0)"

lemma counted_identity:
  "counted w \<Longrightarrow> samplers w i = Some obj \<Longrightarrow> \<exists>a. so_identity obj = Some a"
  "counted w \<Longrightarrow> samples w i = Some obj' \<Longrightarrow> \<exists>a. sa_identity obj' = Some a"
  unfolding counted_def by blast+

lemma references_pos_sampler:
  assumes "counted w" "samplers w i = Some obj" "so_identity obj = Some a"
  shows "0 < references w a"
  using total_over_remove [of "samplers w" i obj "\<lambda>obj. of_bool (so_identity obj = Some a) :: nat"] assms
  by (simp add: counted_def references_def)

lemma references_pos_sample:
  assumes "counted w" "samples w i = Some obj" "sa_identity obj = Some a"
  shows "0 < references w a"
  using total_over_remove [of "samples w" i obj "\<lambda>obj. of_bool (sa_identity obj = Some a) :: nat"] assms
  by (simp add: counted_def references_def)

lemma identity_alive: "counted w \<Longrightarrow> 0 < references w a \<Longrightarrow> identities w a = Some (of_nat (references w a))"
  by (simp add: counted_def)

lemma of_nat_minus_1_u32: "0 < n \<Longrightarrow> n < 2 ^ 32 \<Longrightarrow> ((of_nat n :: u32) - 1 = 0 \<longleftrightarrow> n = 1) \<and> (of_nat n :: u32) - 1 = of_nat (n - 1)"
proof -
  assume n: "0 < n" "n < 2 ^ 32"
  have e: "(of_nat n :: u32) - 1 = of_nat (n - 1)" using n(1) by (simp add: of_nat_diff)
  have "unat (of_nat (n - 1) :: u32) = n - 1" using n(2) by (subst unat_of_nat) simp
  then have z: "(of_nat (n - 1) :: u32) = 0 \<longleftrightarrow> n - 1 = 0"
    using unat_eq_zero [of "of_nat (n - 1) :: u32"] by argo
  have "n - 1 = 0 \<longleftrightarrow> n = 1" using n(1) by auto
  then show ?thesis unfolding e z by blast
qed

text \<open>Dropping a reference together with the object that held it.\<close>

lemma counted_drop:
  assumes c: "counted w" and a: "0 < references w a"
    and fin: "finite (dom (samplers w'))" "finite (dom (samples w'))"
    and sub: "\<And>i obj. samplers w' i = Some obj \<Longrightarrow> \<exists>obj'. samplers w i = Some obj' \<and> so_identity obj = so_identity obj'"
      "\<And>i obj. samples w' i = Some obj \<Longrightarrow> samples w i = Some obj"
    and refs: "\<And>b. references w' b = references w b - of_bool (b = a)"
    and ids: "identities w' = (identities w)(a := (if the (identities w a) - 1 = 0 then None else Some (the (identities w a) - 1)))"
    and fr: "fresh w' = fresh w"
  shows "counted w'"
proof -
  have al: "identities w a = Some (of_nat (references w a))" by (rule identity_alive [OF c a])
  have lt: "references w b < 2 ^ 32" for b using c by (simp add: counted_def)
  have "identities w' b = (if references w' b = 0 then None else Some (of_nat (references w' b)))" for b
  proof (cases "b = a")
    case True
    then show ?thesis using of_nat_minus_1_u32 [OF a lt] al a by (auto simp: ids refs)
  next
    case False
    then show ?thesis using c by (simp add: ids refs counted_def)
  qed
  moreover have "references w' b < 2 ^ 32" for b using lt [of b] by (simp add: refs)
  moreover have "samplers w' i = None \<and> samples w' i = None \<and> references w' i = 0" if "fresh w' \<le> i" for i
  proof -
    have "samplers w i = None" "samples w i = None" "references w i = 0"
      using c that by (simp_all add: counted_def fr)
    then show ?thesis using sub [of i] refs [of i] by (cases "samplers w' i"; cases "samples w' i") auto
  qed
  moreover have "so_identity obj \<noteq> None" if "samplers w' i = Some obj" for i obj
    using sub(1) [OF that] c by (auto simp: counted_def)
  moreover have "sa_identity obj \<noteq> None" if "samples w' i = Some obj" for i obj
    using sub(2) [OF that] c by (auto simp: counted_def)
  ultimately show ?thesis unfolding counted_def using fin by blast
qed

lemma sample_free_runs:
  assumes c: "counted w" and s: "samples w i = Some obj"
  obtains w' where "perfidious_sample_obj_free i w = Ret w'" "counted w'" "engine w' = engine w"
    "samplers w' = samplers w" "samples w' = (samples w)(i := None)" "fresh w' = fresh w" "deltas w' = deltas w"
proof -
  obtain a where a: "sa_identity obj = Some a" using counted_identity(2) [OF c s] by blast
  have pos: "0 < references w a" by (rule references_pos_sample [OF c s a])
  let ?n = "of_nat (references w a) :: u32"
  let ?w = "w\<lparr>identities := (identities w)(a := (if ?n - 1 = 0 then None else Some (?n - 1))),
    samples := (samples w)(i := None)\<rparr>"
  have al: "identities w a = Some ?n" by (rule identity_alive [OF c pos])
  have run: "perfidious_sample_obj_free i w = Ret ?w"
    using s a al by (simp add: perfidious_sample_obj_free_def perfidious_sample_identity_release_def)
  have "counted ?w"
  proof (rule counted_drop [OF c pos])
    fix b
    show "references ?w b = references w b - of_bool (b = a)"
      using total_over_remove [of "samples w" i obj "\<lambda>obj. of_bool (sa_identity obj = Some b) :: nat"] c s a
      by (simp add: references_def counted_def)
  qed (use c al in \<open>auto simp: counted_def split: if_splits\<close>)
  with run that [of ?w] show thesis by simp
qed

lemma close_native_frame:
  "samples (close_native be i w) = samples w" "identities (close_native be i w) = identities w"
  "fresh (close_native be i w) = fresh w" "deltas (close_native be i w) = deltas w"
  "samplers w i = Some obj \<Longrightarrow> samplers (close_native be i w) = (samplers w)(i \<mapsto> obj\<lparr>so_sampler := None\<rparr>)"
  by (cases obj; auto simp: close_native_def split: option.split)+

lemma counted_same_identity:
  assumes c: "counted w" and i: "samplers w i = Some obj" "so_identity obj' = so_identity obj"
    and eqs: "samplers w' = (samplers w)(i \<mapsto> obj')" "samples w' = samples w" "identities w' = identities w"
      "fresh w' = fresh w"
  shows "counted w'"
proof -
  have "references w' = references w"
  proof
    fix a
    show "references w' a = references w a"
      using total_over_replace [of "samplers w" i obj "\<lambda>obj. of_bool (so_identity obj = Some a) :: nat" obj'] c i
      by (simp add: references_def eqs counted_def)
  qed
  then show ?thesis using c i unfolding counted_def eqs by (auto split: if_splits)
qed

lemma close_native_counted: "counted w \<Longrightarrow> samplers w i = Some obj \<Longrightarrow> counted (close_native be i w)"
  by (rule counted_same_identity [where obj' = "obj\<lparr>so_sampler := None\<rparr>"]) (simp_all add: close_native_frame)

lemma sampler_free_runs:
  assumes c: "counted w" and s: "samplers w i = Some obj"
  obtains w' where "perfidious_sampler_obj_free be i w = Ret w'" "counted w'"
    "engine w' = engine (close_native be i w)" "samplers w' = (samplers w)(i := None)"
    "samples w' = samples w" "fresh w' = fresh w"
proof -
  let ?c = "close_native be i w"
  let ?obj = "obj\<lparr>so_sampler := None\<rparr>"
  have c1: "counted ?c" by (rule close_native_counted [OF c s])
  have s1: "samplers ?c i = Some ?obj" using close_native_frame(5) [OF s] by simp
  obtain a where a: "so_identity ?obj = Some a" using counted_identity(1) [OF c1 s1] by blast
  have pos: "0 < references ?c a" by (rule references_pos_sampler [OF c1 s1 a])
  let ?n = "of_nat (references ?c a) :: u32"
  let ?w = "?c\<lparr>identities := (identities ?c)(a := (if ?n - 1 = 0 then None else Some (?n - 1))),
    samplers := (samplers ?c)(i := None)\<rparr>"
  have al: "identities ?c a = Some ?n" by (rule identity_alive [OF c1 pos])
  have run: "perfidious_sampler_obj_free be i w = Ret ?w"
    using s1 a al by (simp add: perfidious_sampler_obj_free_def perfidious_sample_identity_release_def Let_def)
  have "counted ?w"
  proof (rule counted_drop [OF c1 pos])
    fix b
    show "references ?w b = references ?c b - of_bool (b = a)"
      using total_over_remove [of "samplers ?c" i ?obj "\<lambda>obj. of_bool (so_identity obj = Some b) :: nat"] c1 s1 a
      by (simp add: references_def counted_def)
  qed (use c1 al in \<open>auto simp: counted_def split: if_splits\<close>)
  with run that [of ?w] close_native_frame(5) [OF s, of be] show thesis
    by (simp add: close_native_frame)
qed

text \<open>A new object: it holds a new reference to an identity, old or new.\<close>

lemma counted_gain:
  assumes c: "counted w" and room: "Suc (references w a) < 2 ^ 32"
    and fin: "finite (dom (samplers w'))" "finite (dom (samples w'))"
    and objs: "\<And>i obj. samplers w' i = Some obj \<Longrightarrow> so_identity obj \<noteq> None"
      "\<And>i obj. samples w' i = Some obj \<Longrightarrow> sa_identity obj \<noteq> None"
    and refs: "\<And>b. references w' b = references w b + of_bool (b = a)"
    and ids: "identities w' = (identities w)(a \<mapsto> of_nat (Suc (references w a)))"
    and fr: "\<And>i. fresh w' \<le> i \<Longrightarrow> samplers w' i = None \<and> samples w' i = None"
      "fresh w \<le> fresh w'" "a < fresh w'"
  shows "counted w'"
proof -
  have "identities w' b = (if references w' b = 0 then None else Some (of_nat (references w' b)))" for b
    using c by (cases "b = a") (simp_all add: ids refs counted_def)
  moreover have "references w' b < 2 ^ 32" for b
    using c room by (cases "b = a") (simp_all add: refs counted_def)
  moreover have "references w' i = 0" if "fresh w' \<le> i" for i
    using c that fr by (simp add: refs counted_def)
  ultimately show ?thesis unfolding counted_def using fin objs fr by blast
qed

lemma counted_fresh: "counted w \<Longrightarrow> fresh w \<le> i \<Longrightarrow> samplers w i = None \<and> samples w i = None \<and> references w i = 0"
  by (simp add: counted_def)

lemma counted_engine [simp]: "counted (w\<lparr>engine := m\<rparr>) = counted w"
  by (simp add: counted_def references_def)

lemma counted_new_sampler:
  assumes c: "counted w" and obj: "so_identity obj = Some (Suc (fresh w))"
  shows "counted (w\<lparr>samplers := (samplers w)(fresh w \<mapsto> obj),
    identities := (identities w)(Suc (fresh w) \<mapsto> 1), fresh := Suc (Suc (fresh w))\<rparr>)" (is "counted ?w")
proof -
  have fin: "finite (dom (samplers w))" "finite (dom (samples w))" using c by (simp_all add: counted_def)
  have z: "references w (Suc (fresh w)) = 0" "samplers w (fresh w) = None"
    using counted_fresh [OF c] by simp_all
  have refs: "references ?w b = references w b + of_bool (b = Suc (fresh w))" for b
    using total_over_insert [OF fin(1) z(2), of "\<lambda>obj. of_bool (so_identity obj = Some b) :: nat" obj] obj
    by (auto simp: references_def)
  have "so_identity ob \<noteq> None" if "samplers ?w i = Some ob" for i ob
    using that obj counted_identity(1) [OF c, of i ob] by (auto split: if_splits)
  moreover have "sa_identity ob \<noteq> None" if "samples ?w i = Some ob" for i ob
    using that counted_identity(2) [OF c, of i ob] by auto
  ultimately show ?thesis
    using c fin z refs counted_fresh [OF c]
    by (intro counted_gain [OF c, of "Suc (fresh w)"]) auto
qed

lemma counted_new_sample:
  assumes c: "counted w" and s: "samplers w i = Some sobj" "so_identity sobj = Some a"
    and room: "Suc (references w a) < 2 ^ 32" and obj: "sa_identity obj = Some a"
  shows "counted (w\<lparr>identities := (identities w)(a \<mapsto> of_nat (Suc (references w a))),
    samples := (samples w)(fresh w \<mapsto> obj), fresh := Suc (fresh w)\<rparr>)" (is "counted ?w")
proof -
  have fin: "finite (dom (samplers w))" "finite (dom (samples w))" using c by (simp_all add: counted_def)
  have z: "samples w (fresh w) = None" using counted_fresh [OF c] by simp
  have lt: "a < fresh w"
    using references_pos_sampler [OF c s] counted_fresh [OF c, of a] by (cases "a < fresh w") auto
  have refs: "references ?w b = references w b + of_bool (b = a)" for b
    using total_over_insert [OF fin(2) z, of "\<lambda>obj. of_bool (sa_identity obj = Some b) :: nat" obj] obj
    by (auto simp: references_def)
  have "sa_identity ob \<noteq> None" if "samples ?w j = Some ob" for j ob
    using that obj counted_identity(2) [OF c, of j ob] by (auto split: if_splits)
  moreover have "so_identity ob \<noteq> None" if "samplers ?w j = Some ob" for j ob
    using that counted_identity(1) [OF c, of j ob] by auto
  ultimately show ?thesis
    using c fin refs counted_fresh [OF c] room lt
    by (intro counted_gain [OF c, of a]) auto
qed

section \<open>The contract of a platform\<close>

definition native_owned :: "('s \<Rightarrow> 'r multiset) \<Rightarrow> 's perfidious_sampler_obj \<Rightarrow> 'r multiset" where
  "native_owned owned obj = (case so_sampler obj of None \<Rightarrow> {#} | Some s \<Rightarrow> owned s)"

text \<open>The native resources in use are those of the samplers that are open, besides \<open>B\<close>.\<close>

definition accounted ::
  "('m \<Rightarrow> 'r multiset) \<Rightarrow> ('s \<Rightarrow> 'r multiset) \<Rightarrow> 'r multiset \<Rightarrow> ('m, 's) sampler_world \<Rightarrow> bool" where
  "accounted resources owned B w \<longleftrightarrow>
     resources (engine w) = B + total_over (native_owned owned) (samplers w)"

text \<open>What \<open>sampler.h\<close> asks of a platform: opening acquires what the sampler owns, or on failure
  nothing and reports a diagnostic; reading acquires and releases nothing and reports its failures;
  closing releases what the sampler owns; success is silent.\<close>

locale platform_sampler =
  fixes be :: "(('k, 'e, 'z) machine_scheme, 's) sampler_backend"
    and resources :: "('k, 'e, 'z) machine_scheme \<Rightarrow> 'r multiset"
    and owned :: "'s \<Rightarrow> 'r multiset"
  assumes resources_exceptions: "resources (m\<lparr>exceptions := es\<rparr>) = resources m"
    and supported: "platform_sampler_supported_metrics be v scope m = (vo, m') \<Longrightarrow>
      resources m' = resources m \<and> (if vo = None then diagnosed m m' else exceptions m' = exceptions m)"
    and opened: "platform_sampler_open be v scope m = (Some s, m') \<Longrightarrow>
      resources m' = resources m + owned s \<and> exceptions m' = exceptions m"
    and open_failed: "platform_sampler_open be v scope m = (None, m') \<Longrightarrow>
      resources m' = resources m \<and> diagnosed m m'"
    and read_keeps: "platform_sampler_read be s m = Some (r, s', m') \<Longrightarrow>
      resources m' = resources m \<and> owned s' = owned s \<and>
      (if r = None then diagnosed m m' else exceptions m' = exceptions m)"
    and closed: "resources (platform_sampler_close be s m) = resources m - owned s \<and>
      exceptions (platform_sampler_close be s m) = exceptions m"
    and clock: "hrtime_current be m = (t, m') \<Longrightarrow> resources m' = resources m \<and> exceptions m' = exceptions m"
begin

abbreviation world_ok :: "'r multiset \<Rightarrow> ('k, 'e, 'z, 's) world \<Rightarrow> bool" where
  "world_ok B w \<equiv> counted w \<and> accounted resources owned B w"

lemma resources_throw [simp]: "resources (zend_throw_exception c n msg m) = resources m"
  by (simp add: zend_throw_exception_def resources_exceptions)

lemma close_native_ok:
  assumes w: "world_ok B w" and i: "samplers w i = Some obj"
  shows "world_ok B (close_native be i w) \<and> exceptions (engine (close_native be i w)) = exceptions (engine w) \<and>
    samplers (close_native be i w) = (samplers w)(i \<mapsto> obj\<lparr>so_sampler := None\<rparr>)"
proof -
  let ?obj = "obj\<lparr>so_sampler := None\<rparr>"
  have fin: "finite (dom (samplers w))" using w by (simp add: counted_def)
  have split: "total_over (native_owned owned) (samplers w)
      = native_owned owned obj + total_over (native_owned owned) ((samplers w)(i := None))"
    by (rule total_over_remove [OF fin i])
  have drop: "total_over (native_owned owned) ((samplers w)(i \<mapsto> ?obj))
      = total_over (native_owned owned) ((samplers w)(i := None))"
    using total_over_insert [of "(samplers w)(i := None)" i "native_owned owned" ?obj] fin
    by (simp add: native_owned_def)
  have "accounted resources owned B (close_native be i w)"
    using w split drop i closed
    by (cases "so_sampler obj") (auto simp: accounted_def close_native_def native_owned_def fun_upd_idem_iff)
  moreover have "exceptions (engine (close_native be i w)) = exceptions (engine w)"
    using i closed by (auto simp: close_native_def split: option.split)
  ultimately show ?thesis using close_native_counted close_native_frame(5) w i by blast
qed

lemma sampler_free_ok:
  assumes w: "world_ok B w" and i: "samplers w i = Some obj"
  obtains w' where "perfidious_sampler_obj_free be i w = Ret w'" "world_ok B w'"
    "exceptions (engine w') = exceptions (engine w)" "samplers w' = (samplers w)(i := None)"
    "samples w' = samples w"
proof -
  note cl = close_native_ok [OF w i]
  obtain w' where f: "perfidious_sampler_obj_free be i w = Ret w'" "counted w'"
    "engine w' = engine (close_native be i w)" "samplers w' = (samplers w)(i := None)" "samples w' = samples w"
    using sampler_free_runs [OF conjunct1 [OF w] i] by metis
  have fin: "finite (dom (samplers w))" using w by (simp add: counted_def)
  have "total_over (native_owned owned) ((samplers w)(i \<mapsto> obj\<lparr>so_sampler := None\<rparr>))
      = total_over (native_owned owned) ((samplers w)(i := None))"
    using total_over_insert [of "(samplers w)(i := None)" i "native_owned owned" "obj\<lparr>so_sampler := None\<rparr>"] fin
    by (simp add: native_owned_def)
  then have "accounted resources owned B w'" using cl f by (simp add: accounted_def)
  then show thesis using that f cl by simp
qed

end

context platform_sampler
begin

text \<open>The outcome of a call: defined, a well-kept world, and on failure exactly one new exception.\<close>

definition call_ok ::
  "'r multiset \<Rightarrow> ('k, 'e, 'z, 's) world \<Rightarrow> (nat option \<times> ('k, 'e, 'z, 's) world) cval \<Rightarrow> bool" where
  "call_ok B w x \<longleftrightarrow> (case x of
     Undefined \<Rightarrow> False
   | Ret (r, w') \<Rightarrow> world_ok B w' \<and>
       (if r = None then diagnosed (engine w) (engine w')
        else exceptions (engine w') = exceptions (engine w)))"

lemma call_ok_Ret [simp]:
  "call_ok B w (Ret (r, w')) \<longleftrightarrow> world_ok B w' \<and>
     (if r = None then diagnosed (engine w) (engine w')
      else exceptions (engine w') = exceptions (engine w))"
  by (simp add: call_ok_def)

text \<open>A world with a new sampler, whose object is still being filled, and what giving it up leaves.\<close>

definition with_sampler ::
  "'s perfidious_sampler_obj \<Rightarrow> ('k, 'e, 'z) machine_scheme \<Rightarrow> ('k, 'e, 'z, 's) world \<Rightarrow> ('k, 'e, 'z, 's) world" where
  "with_sampler obj m w = w\<lparr>samplers := (samplers w)(fresh w \<mapsto> obj),
     identities := (identities w)(Suc (fresh w) \<mapsto> 1), fresh := Suc (Suc (fresh w)), engine := m\<rparr>"

lemma with_sampler_ok:
  assumes w: "world_ok B w" and obj: "so_identity obj = Some (Suc (fresh w))"
    and res: "resources m = resources (engine w) + native_owned owned obj"
  shows "world_ok B (with_sampler obj m w)"
proof -
  have fin: "finite (dom (samplers w))" and none: "samplers w (fresh w) = None"
    using w counted_fresh [of w "fresh w"] by (simp_all add: counted_def)
  have "counted (w\<lparr>samplers := (samplers w)(fresh w \<mapsto> obj),
      identities := (identities w)(Suc (fresh w) \<mapsto> 1), fresh := Suc (Suc (fresh w))\<rparr>)"
    using w obj by (intro counted_new_sampler) simp_all
  then have "counted (with_sampler obj m w)" unfolding with_sampler_def by (subst counted_engine)
  then show ?thesis
    using w res total_over_insert [OF fin none, of "native_owned owned" obj]
    by (simp add: with_sampler_def accounted_def ac_simps)
qed

lemma given_up_ok:
  assumes w: "world_ok B w" and obj: "so_identity obj = Some (Suc (fresh w))"
    and res: "resources m = resources (engine w) + native_owned owned obj" and d: "diagnosed (engine w) m"
  shows "call_ok B w (cbind (perfidious_sampler_obj_free be (fresh w) (with_sampler obj m w)) (\<lambda>w'. Ret (None, w')))"
proof -
  have "samplers (with_sampler obj m w) (fresh w) = Some obj" by (simp add: with_sampler_def)
  with with_sampler_ok [OF w obj res] obtain w' where
    "perfidious_sampler_obj_free be (fresh w) (with_sampler obj m w) = Ret w'" "world_ok B w'"
    "exceptions (engine w') = exceptions m"
    by (rule sampler_free_ok) (simp add: with_sampler_def)
  with d show ?thesis by (simp add: diagnosed_def)
qed

lemma open_sampler_ok:
  assumes w: "world_ok B w" and run: "open_sampler be v ord scope w = Some x"
  shows "call_ok B w x"
proof -
  let ?obj = "\<lparr>so_sampler = None, so_identity = Some (Suc (fresh w)), so_origin = (\<lambda>_. 0),
    so_time_origin_ns = 0, so_metrics = 0, so_metric_order = []\<rparr> :: 's perfidious_sampler_obj"
  note shape = open_sampler_unfold Let_def with_sampler_def
  obtain so m1 where op: "platform_sampler_open be v scope (engine w) = (so, m1)" by fastforce
  show ?thesis
  proof (cases so)
    case None
    note o = open_failed [OF op [unfolded None]]
    have "x = cbind (perfidious_sampler_obj_free be (fresh w) (with_sampler ?obj m1 w)) (\<lambda>w'. Ret (None, w'))"
      using run op None by (cases w) (simp add: shape)
    with given_up_ok [OF w, of ?obj m1] o show ?thesis by (simp add: native_owned_def)
  next
    case (Some s)
    note o = opened [OF op [unfolded Some]]
    obtain ro s1 m2 where rd: "platform_sampler_read be s m1 = Some (ro, s1, m2)"
      using run op Some by (auto simp: open_sampler_unfold Let_def split: option.splits)
    note r = read_keeps [OF rd]
    show ?thesis
    proof (cases ro)
      case None
      let ?obj1 = "?obj\<lparr>so_sampler := Some s1\<rparr>"
      have "x = cbind (perfidious_sampler_obj_free be (fresh w) (with_sampler ?obj1 m2 w)) (\<lambda>w'. Ret (None, w'))"
        using run op Some rd None by (cases w) (simp add: shape)
      with given_up_ok [OF w, of ?obj1 m2] o r None show ?thesis by (simp add: native_owned_def diagnosed_def)
    next
      case origin: (Some origin)
      obtain t m3 where h: "hrtime_current be m2 = (t, m3)" by fastforce
      let ?obj1 = "?obj\<lparr>so_sampler := Some s1, so_origin := origin, so_time_origin_ns := t,
        so_metrics := v, so_metric_order := ord\<rparr>"
      have "x = Ret (Some (fresh w), with_sampler ?obj1 m3 w)"
        using run op Some rd origin h by (cases w) (simp add: shape)
      moreover have "engine (with_sampler ?obj1 m3 w) = m3" by (simp add: with_sampler_def)
      ultimately show ?thesis
        using with_sampler_ok [OF w, of ?obj1 m3] o r clock [OF h] origin by (simp add: native_owned_def)
    qed
  qed
qed

lemma world_ok_engine:
  "world_ok B w \<Longrightarrow> resources m = resources (engine w) \<Longrightarrow> world_ok B (w\<lparr>engine := m\<rparr>)"
  by (simp add: accounted_def)

lemma open_ok:
  assumes w: "world_ok B w" and quiet: "exceptions (engine w) = []"
    and run: "PerfidiousSampler_open be vals scope w = Some x"
  shows "call_ok B w x"
proof -
  have thrown: "call_ok B w (Ret (None, w\<lparr>engine := zend_throw_exception c n s (engine w)\<rparr>))" for c n s
    using world_ok_engine [OF w, of "zend_throw_exception c n s (engine w)"] by (simp add: diagnosed_def)
  show ?thesis
  proof (cases "vals = []")
    case True
    with run thrown show ?thesis by (auto simp: PerfidiousSampler_open_def throwing_def)
  next
    case ne: False
    obtain co m1 where cm: "collect_metrics vals 0 [] (engine w) = (co, m1)" by fastforce
    note c = collect_metrics_run [OF cm]
    show ?thesis
    proof (cases co)
      case None
      then obtain cl s where "m1 = zend_throw_exception cl 0 s (engine w)" using c by auto
      with run ne cm None thrown show ?thesis by (auto simp: PerfidiousSampler_open_def)
    next
      case (Some vo)
      then obtain v ord where vo: "co = Some (v, ord)" by (cases vo) auto
      have m1: "m1 = engine w" using c vo by simp
      let ?scope = "perfidious_scope_from_zval scope"
      obtain su m2 where s: "platform_sampler_supported_metrics be v ?scope (engine w) = (su, m2)" by fastforce
      note sp = supported [OF s]
      have w2: "world_ok B (w\<lparr>engine := m2\<rparr>)" using world_ok_engine [OF w] sp by simp
      show ?thesis
      proof (cases su)
        case None
        then show ?thesis
          using run ne cm vo m1 s sp w2 by (auto simp: PerfidiousSampler_open_def Let_def)
      next
        case (Some sup')
        show ?thesis
        proof (cases "v AND NOT sup' = 0")
          case True
          then have "open_sampler be v ord ?scope (w\<lparr>engine := m2\<rparr>) = Some x"
            using run ne cm vo m1 s Some by (simp add: PerfidiousSampler_open_def Let_def)
          from open_sampler_ok [OF w2 this] sp Some show ?thesis
            by (cases x) (auto simp: call_ok_def diagnosed_def split: prod.splits if_splits)
        next
          case False
          then have x: "x = Ret (None, w\<lparr>engine :=
              perfidious_throw_unsupported_metrics ?scope ord (v AND NOT sup') m2\<rparr>)"
            using run ne cm vo m1 s Some by (simp add: PerfidiousSampler_open_def Let_def)
          have "exceptions m2 = []" using sp Some quiet by simp
          then show ?thesis
            using x world_ok_engine [OF w] sp resources_exceptions quiet
            by (simp add: diagnosed_def perfidious_throw_unsupported_metrics_def accounted_def)
        qed
      qed
    qed
  qed
qed

text \<open>The world after the native sampler has been read.\<close>

lemma native_read_ok:
  assumes w: "world_ok B w" and i: "samplers w this = Some obj" "so_sampler obj = Some s"
    and rd: "platform_sampler_read be s (engine w) = Some (ro, s1, m1)"
  defines "w1 \<equiv> w\<lparr>engine := m1, samplers := (samplers w)(this \<mapsto> obj\<lparr>so_sampler := Some s1\<rparr>)\<rparr>"
  shows "world_ok B w1" and "references w1 a = references w a"
proof -
  let ?obj = "obj\<lparr>so_sampler := Some s1\<rparr>"
  have fin: "finite (dom (samplers w))" using w by (simp add: counted_def)
  have "total_over (native_owned owned) ((samplers w)(this \<mapsto> ?obj)) = total_over (native_owned owned) (samplers w)"
    using read_keeps [OF rd] i(2) by (intro total_over_replace [OF fin i(1)]) (simp add: native_owned_def)
  moreover have "counted w1"
    unfolding w1_def by (rule counted_same_identity [OF conjunct1 [OF w] i(1), of ?obj]) simp_all
  ultimately show "world_ok B w1" using w read_keeps [OF rd] by (simp add: accounted_def w1_def)
  have "total_over (\<lambda>obj. of_bool (so_identity obj = Some a) :: nat) ((samplers w)(this \<mapsto> ?obj))
      = total_over (\<lambda>obj. of_bool (so_identity obj = Some a)) (samplers w)"
    by (rule total_over_replace [OF fin i(1)]) simp
  then show "references w1 a = references w a" by (simp add: references_def w1_def)
qed

text \<open>A new sample shares the identity of its sampler; destroying it at once gives the reference back.\<close>

lemma new_sample_ok:
  assumes w: "world_ok B w" and i: "samplers w this = Some obj" and room: "\<And>a. Suc (references w a) < 2 ^ 32"
  obtains w3 where "retain_identity (so_identity obj) w = Ret w3"
    "engine w3 = engine w" "samples w3 = samples w" "fresh w3 = fresh w"
    "\<And>sa. sa_identity sa = so_identity obj \<Longrightarrow>
       world_ok B (w3\<lparr>samples := (samples w)(fresh w \<mapsto> sa), fresh := Suc (fresh w)\<rparr>)"
    "\<And>sa. sa_identity sa = so_identity obj \<Longrightarrow>
       \<exists>w5. perfidious_sample_obj_free (fresh w)
           (w3\<lparr>samples := (samples w)(fresh w \<mapsto> sa), fresh := Suc (fresh w)\<rparr>) = Ret w5 \<and>
         world_ok B w5 \<and> engine w5 = engine w"
proof -
  have c: "counted w" using w by simp
  obtain a where a: "so_identity obj = Some a" using counted_identity(1) [OF c i] by blast
  have al: "identities w a = Some (of_nat (references w a))"
    by (rule identity_alive [OF c references_pos_sampler [OF c i a]])
  let ?w3 = "w\<lparr>identities := (identities w)(a \<mapsto> of_nat (Suc (references w a)))\<rparr>"
  let ?w4 = "\<lambda>sa. ?w3\<lparr>samples := (samples w)(fresh w \<mapsto> sa), fresh := Suc (fresh w)\<rparr>"
  have c4: "counted (?w4 sa)" if "sa_identity sa = so_identity obj" for sa
    using counted_new_sample [OF c i a _ that [unfolded a]] room [of a] by simp
  have "\<exists>w5. perfidious_sample_obj_free (fresh w) (?w4 sa) = Ret w5 \<and> world_ok B w5 \<and> engine w5 = engine w"
    if "sa_identity sa = so_identity obj" for sa
  proof -
    have "samples (?w4 sa) (fresh w) = Some sa" by simp
    with c4 [OF that] obtain w5 where "perfidious_sample_obj_free (fresh w) (?w4 sa) = Ret w5" "counted w5"
      "engine w5 = engine (?w4 sa)" "samplers w5 = samplers (?w4 sa)" by (rule sample_free_runs)
    with w show ?thesis by (auto simp: accounted_def)
  qed
  then show thesis
    using that [of ?w3] c4 w a al by (simp add: retain_identity_def accounted_def add.commute)
qed

lemma read_ok:
  assumes w: "world_ok B w" and i: "samplers w this = Some obj"
    and room: "\<And>a. Suc (references w a) < 2 ^ 32"
    and run: "PerfidiousSampler_read be this w = Some x"
  shows "call_ok B w x"
proof (cases "so_sampler obj")
  case None
  then have "x = Ret (None, throwing ClosedException ''Sampler is closed'' w)"
    using run i by (simp add: PerfidiousSampler_read_unfold)
  then show ?thesis
    using world_ok_engine [OF w] by (simp add: throwing_def diagnosed_def)
next
  case (Some s)
  obtain ro s1 m1 where rd: "platform_sampler_read be s (engine w) = Some (ro, s1, m1)"
    using run i Some by (auto simp: PerfidiousSampler_read_unfold split: option.splits)
  note r = read_keeps [OF rd]
  let ?w1 = "w\<lparr>engine := m1, samplers := (samplers w)(this \<mapsto> obj\<lparr>so_sampler := Some s1\<rparr>)\<rparr>"
  note w1 = native_read_ok [OF w i Some rd]
  obtain t m2 where h: "hrtime_current be m1 = (t, m2)" by fastforce
  note cl = clock [OF h]
  let ?w2 = "?w1\<lparr>engine := m2\<rparr>"
  have w2: "world_ok B ?w2" using world_ok_engine [OF w1(1)] cl by simp
  have "references ?w2 a = references ?w1 a" for a by (simp add: references_def)
  then have room2: "Suc (references ?w2 a) < 2 ^ 32" for a using w1(2) room by simp
  consider (failed) "ro = None" | (behind) now where "ro = Some now" "t < so_time_origin_ns obj"
    | (sample) now where "ro = Some now" "\<not> t < so_time_origin_ns obj" by (cases ro) auto
  then show ?thesis
  proof cases
    case failed
    then have "x = Ret (None, ?w1)" using run i Some rd by (simp add: PerfidiousSampler_read_unfold Let_def)
    with w1(1) r failed show ?thesis by simp
  next
    case behind
    then have "x = Ret (None, throwing IOException ''Monotonic clock moved backwards'' ?w2)"
      using run i Some rd h by (simp add: PerfidiousSampler_read_unfold Let_def)
    with world_ok_engine [OF w2] cl r behind show ?thesis by (simp add: throwing_def diagnosed_def)
  next
    case sample
    have ex2: "exceptions m2 = exceptions (engine w)" using cl r sample by simp
    obtain w3 where n: "retain_identity (so_identity obj) ?w2 = Ret w3"
      "engine w3 = m2" "samples w3 = samples w" "fresh w3 = fresh w"
      "\<And>sa. sa_identity sa = so_identity obj \<Longrightarrow>
         world_ok B (w3\<lparr>samples := (samples w)(fresh w \<mapsto> sa), fresh := Suc (fresh w)\<rparr>)"
      "\<And>sa. sa_identity sa = so_identity obj \<Longrightarrow>
         \<exists>w5. perfidious_sample_obj_free (fresh w)
             (w3\<lparr>samples := (samples w)(fresh w \<mapsto> sa), fresh := Suc (fresh w)\<rparr>) = Ret w5 \<and>
           world_ok B w5 \<and> engine w5 = m2"
      by (rule new_sample_ok [OF w2 _ room2, of this "obj\<lparr>so_sampler := Some s1\<rparr>"]) simp_all
    let ?sa = "\<lparr>sa_identity = so_identity obj, sa_values = (\<lambda>_. 0),
      sa_time_ns = t - so_time_origin_ns obj, sa_metrics = so_metrics obj\<rparr>"
    obtain w5 where f: "perfidious_sample_obj_free (fresh w)
        (w3\<lparr>samples := (samples w)(fresh w \<mapsto> ?sa), fresh := Suc (fresh w)\<rparr>) = Ret w5"
      "world_ok B w5" "engine w5 = m2" using n(6) [of ?sa] by auto
    show ?thesis
    proof (cases "sample_values all_metrics (so_metrics obj) (so_origin obj) now (\<lambda>_. 0)")
      case (Inr vals)
      then have "x = Ret (Some (fresh w), w3\<lparr>samples := (samples w)(fresh w \<mapsto> ?sa\<lparr>sa_values := vals\<rparr>), fresh := Suc (fresh w)\<rparr>)"
        using run i Some rd sample h n(1-4) by (cases w3) (simp add: PerfidiousSampler_read_unfold Let_def)
      with n(2) n(5) [of "?sa\<lparr>sa_values := vals\<rparr>"] ex2 show ?thesis by simp
    next
      case (Inl e)
      then obtain c msg where "e = (c, msg)" by (cases e)
      with Inl have "x = Ret (None, throwing c msg w5)"
        using run i Some rd sample h n(1-4) f(1) by (cases w3) (simp add: PerfidiousSampler_read_unfold Let_def)
      with f(2,3) ex2 show ?thesis by (simp add: throwing_def diagnosed_def accounted_def)
    qed
  qed
qed

end

end
