(* ===== verification/Sampler_Life.thy ===== *)
theory Sampler_Life
  imports Sampler
begin

text \<open>
  The life of sampler objects: every method of \<open>src/sampler.c\<close> as a script may call it, and
  the destruction of objects by the engine, as steps of a world. Over any platform that meets its
  contract the invariant of the world holds after every sequence of them.
\<close>

section \<open>Calls\<close>

datatype sampler_call =
    UnitOf zval
  | OpenSampler "zval list" "zval option"
  | MetricsOf nat
  | ReadSampler nat
  | CloseSampler nat
  | ValueOf nat zval
  | SinceOf nat nat
  | DeltaValueOf nat zval
  | DestroySampler nat
  | DestroySample nat
  | DestroyDelta nat

text \<open>The result of a call is dropped, the world kept; \<open>None\<close> is a call that does not return.\<close>

fun run_sampler_call ::
  "(('k, 'e, 'z) machine_scheme, 's) sampler_backend \<Rightarrow> sampler_call \<Rightarrow> ('k, 'e, 'z, 's) world
    \<Rightarrow> ('k, 'e, 'z, 's) world cval option" where
  "run_sampler_call be (UnitOf z) w = Some (Ret (snd (PerfidiousMetric_unit z w)))"
| "run_sampler_call be (OpenSampler vals scope) w =
     map_option (\<lambda>x. cbind x (\<lambda>(r, w'). Ret w')) (PerfidiousSampler_open be vals scope w)"
| "run_sampler_call be (MetricsOf i) w = Some (cbind (PerfidiousSampler_metrics i w) (\<lambda>(r, w'). Ret w'))"
| "run_sampler_call be (ReadSampler i) w =
     map_option (\<lambda>x. cbind x (\<lambda>(r, w'). Ret w')) (PerfidiousSampler_read be i w)"
| "run_sampler_call be (CloseSampler i) w = Some (PerfidiousSampler_close be i w)"
| "run_sampler_call be (ValueOf i z) w = Some (cbind (PerfidiousSample_value i z w) (\<lambda>(r, w'). Ret w'))"
| "run_sampler_call be (SinceOf i j) w = Some (cbind (PerfidiousSample_since i j w) (\<lambda>(r, w'). Ret w'))"
| "run_sampler_call be (DeltaValueOf i z) w = Some (cbind (PerfidiousSampleDelta_value i z w) (\<lambda>(r, w'). Ret w'))"
| "run_sampler_call be (DestroySampler i) w = Some (perfidious_sampler_obj_free be i w)"
| "run_sampler_call be (DestroySample i) w = Some (perfidious_sample_obj_free i w)"
| "run_sampler_call be (DestroyDelta i) w = Some (Ret (w\<lparr>deltas := (deltas w)(i := None)\<rparr>))"

text \<open>The objects a call works on exist: the engine passes live objects only.\<close>

fun objects_alive :: "sampler_call \<Rightarrow> ('m, 's) sampler_world \<Rightarrow> bool" where
  "objects_alive (MetricsOf i) w = (samplers w i \<noteq> None)"
| "objects_alive (ReadSampler i) w = (samplers w i \<noteq> None)"
| "objects_alive (CloseSampler i) w = (samplers w i \<noteq> None)"
| "objects_alive (ValueOf i z) w = (samples w i \<noteq> None)"
| "objects_alive (SinceOf i j) w = (samples w i \<noteq> None \<and> samples w j \<noteq> None)"
| "objects_alive (DeltaValueOf i z) w = (deltas w i \<noteq> None)"
| "objects_alive (DestroySampler i) w = (samplers w i \<noteq> None)"
| "objects_alive (DestroySample i) w = (samples w i \<noteq> None)"
| "objects_alive (DestroyDelta i) w = (deltas w i \<noteq> None)"
| "objects_alive _ w = True"

text \<open>Objects are destroyed at any time, methods are called with no exception pending. The 32-bit
  reference count of an identity has room as long as fewer than 4294967295 objects share it, which
  their size alone enforces on a machine with less than 400 GB.\<close>

fun destroys :: "sampler_call \<Rightarrow> bool" where
  "destroys (DestroySampler i) = True"
| "destroys (DestroySample i) = True"
| "destroys (DestroyDelta i) = True"
| "destroys _ = False"

definition room_to_share :: "('m, 's) sampler_world \<Rightarrow> bool" where
  "room_to_share w \<longleftrightarrow> (\<forall>a. Suc (references w a) < 2 ^ 32)"

inductive sampler_step ::
  "(('k, 'e, 'z) machine_scheme, 's) sampler_backend \<Rightarrow> ('k, 'e, 'z, 's) world
    \<Rightarrow> ('k, 'e, 'z, 's) world cval \<Rightarrow> bool"
  for be where
  call: "objects_alive c w \<Longrightarrow> destroys c \<or> exceptions (engine w) = [] \<Longrightarrow> room_to_share w \<Longrightarrow>
    run_sampler_call be c w = Some r \<Longrightarrow> sampler_step be w r"
| caught: "sampler_step be w (Ret (w\<lparr>engine := (engine w)\<lparr>exceptions := []\<rparr>\<rparr>))"

inductive sampler_reachable ::
  "(('k, 'e, 'z) machine_scheme, 's) sampler_backend \<Rightarrow> ('k, 'e, 'z, 's) world \<Rightarrow> ('k, 'e, 'z, 's) world \<Rightarrow> bool"
  for be w0 where
  start: "sampler_reachable be w0 w0"
| move: "sampler_reachable be w0 w \<Longrightarrow> sampler_step be w (Ret w') \<Longrightarrow> sampler_reachable be w0 w'"

inductive_cases sampler_stepE: "sampler_step be w r"

text \<open>A world before the first sampler.\<close>

definition no_samplers :: "('m, 's) sampler_world \<Rightarrow> bool" where
  "no_samplers w \<longleftrightarrow> samplers w = Map.empty \<and> samples w = Map.empty \<and> identities w = Map.empty"

lemma no_samplers_counted: "no_samplers w \<Longrightarrow> counted w"
  by (simp add: no_samplers_def counted_def references_def)

lemma no_samplers_accounted: "no_samplers w \<Longrightarrow> accounted resources owned (resources (engine w)) w"
  by (simp add: no_samplers_def accounted_def)

section \<open>Queries\<close>

text \<open>Calls that only look: the engine may get an exception, and there may be a new delta.\<close>

definition only_looks :: "('k, 'e, 'z, 's) world \<Rightarrow> ('k, 'e, 'z, 's) world \<Rightarrow> bool" where
  "only_looks w w' \<longleftrightarrow>
     (\<exists>es. engine w' = (engine w)\<lparr>exceptions := es\<rparr>) \<and> samplers w' = samplers w \<and> samples w' = samples w \<and>
     identities w' = identities w \<and> fresh w \<le> fresh w'"

lemma only_looks_exn [simp]:
  "only_looks w w" "only_looks w (w\<lparr>engine := (engine w)\<lparr>exceptions := es\<rparr>\<rparr>)"
  by (auto simp: only_looks_def intro: exI [of _ "exceptions (engine w)"])

lemma only_looks_throw [simp]:
  "only_looks w (throwing c msg w)" "only_looks w (w\<lparr>engine := zend_throw_exception c n msg (engine w)\<rparr>)"
  by (simp_all add: throwing_def zend_throw_exception_def)

lemma only_looks_counted: "only_looks w w' \<Longrightarrow> counted w \<Longrightarrow> counted w'"
  by (auto simp: only_looks_def counted_def references_def)

lemma metric_from_zval_cases:
  obtains a where "perfidious_metric_from_zval z m = (Some a, m)"
  | c s where "perfidious_metric_from_zval z m = (None, zend_throw_exception c 0 s m)"
proof (cases "perfidious_metric_from_zval z m")
  case (Pair a m')
  then show thesis using that metric_from_zval_result [of z m] by (cases a) auto
qed

lemma unit_looks: "only_looks w (snd (PerfidiousMetric_unit z w))"
  by (rule metric_from_zval_cases [of z "engine w"]) (simp_all add: PerfidiousMetric_unit_def)

lemma sample_value_looks: "only_looks w (snd (perfidious_sample_value z v vals w))"
  by (rule metric_from_zval_cases [of z "engine w"])
    (simp_all add: perfidious_sample_value_def perfidious_uint64_to_long_def)

lemma since_looks: "PerfidiousSample_since i j w = Ret (r, w') \<Longrightarrow> only_looks w w'"
  by (auto simp: PerfidiousSample_since_unfold perfidious_uint64_to_long_def
      split: option.splits if_splits sum.splits)
    (auto simp: only_looks_def intro!: exI [of _ "exceptions (engine w)"])

lemma since_defined: "samples w i \<noteq> None \<Longrightarrow> samples w j \<noteq> None \<Longrightarrow> PerfidiousSample_since i j w \<noteq> Undefined"
  by (auto simp: PerfidiousSample_since_unfold split: prod.splits option.splits sum.splits)

section \<open>The invariant over any platform\<close>

context platform_sampler
begin

lemma looks_ok: "only_looks w w' \<Longrightarrow> world_ok B w \<Longrightarrow> world_ok B w'"
  using only_looks_counted [of w w'] by (auto simp: only_looks_def accounted_def resources_exceptions)

lemma call_result_ok: "call_ok B w x \<Longrightarrow> \<exists>w'. cbind x (\<lambda>(r, w'). Ret w') = Ret w' \<and> world_ok B w'"
  by (cases x) (auto simp: call_ok_def split: prod.splits)

lemma run_call_ok:
  assumes w: "world_ok B w" and alive: "objects_alive c w" and room: "room_to_share w"
    and calm: "destroys c \<or> exceptions (engine w) = []" and run: "run_sampler_call be c w = Some r"
  shows "\<exists>w'. r = Ret w' \<and> world_ok B w'"
proof (cases c)
  case (UnitOf z)
  then show ?thesis using run looks_ok [OF unit_looks w] by auto
next
  case (OpenSampler vals scope)
  then obtain x where x: "PerfidiousSampler_open be vals scope w = Some x" "r = cbind x (\<lambda>(r, w'). Ret w')"
    using run by auto
  have "exceptions (engine w) = []" using calm OpenSampler by simp
  from call_result_ok [OF open_ok [OF w this x(1)]] x(2) show ?thesis by simp
next
  case (MetricsOf i)
  then show ?thesis using run alive w by (auto simp: PerfidiousSampler_metrics_def)
next
  case (ReadSampler i)
  then obtain x where x: "PerfidiousSampler_read be i w = Some x" "r = cbind x (\<lambda>(r, w'). Ret w')"
    using run by auto
  obtain obj where i: "samplers w i = Some obj" using alive ReadSampler by auto
  have "Suc (references w a) < 2 ^ 32" for a using room by (simp add: room_to_share_def)
  from call_result_ok [OF read_ok [OF w i this x(1)]] x(2) show ?thesis by simp
next
  case (CloseSampler i)
  then obtain obj where i: "samplers w i = Some obj" using alive by auto
  with run CloseSampler have "r = Ret (close_native be i w)" by (simp add: PerfidiousSampler_close_def)
  with close_native_ok [OF w i] show ?thesis by blast
next
  case (ValueOf i z)
  then obtain obj where "samples w i = Some obj" using alive by auto
  then have "r = Ret (snd (perfidious_sample_value z (sa_metrics obj) (sa_values obj) w))"
    using run ValueOf by (simp add: PerfidiousSample_value_def split: prod.splits)
  then show ?thesis using looks_ok [OF sample_value_looks w] by blast
next
  case (SinceOf i j)
  then obtain x w' where x: "PerfidiousSample_since i j w = Ret (x, w')"
    using alive since_defined [of w i j] by (cases "PerfidiousSample_since i j w") auto
  then have "r = Ret w'" using run SinceOf by simp
  with looks_ok [OF since_looks [OF x] w] show ?thesis by blast
next
  case (DeltaValueOf i z)
  then obtain obj where "deltas w i = Some obj" using alive by auto
  then have "r = Ret (snd (perfidious_sample_value z (de_metrics obj) (de_values obj) w))"
    using run DeltaValueOf by (simp add: PerfidiousSampleDelta_value_def split: prod.splits)
  then show ?thesis using looks_ok [OF sample_value_looks w] by blast
next
  case (DestroySampler i)
  then obtain obj where i: "samplers w i = Some obj" using alive by auto
  obtain w' where "perfidious_sampler_obj_free be i w = Ret w'" "world_ok B w'"
    by (rule sampler_free_ok [OF w i])
  with run DestroySampler show ?thesis by auto
next
  case (DestroySample i)
  then obtain obj where i: "samples w i = Some obj" using alive by auto
  obtain w' where "perfidious_sample_obj_free i w = Ret w'" "counted w'" "engine w' = engine w"
    "samplers w' = samplers w" by (rule sample_free_runs [OF conjunct1 [OF w] i])
  with run DestroySample w show ?thesis by (auto simp: accounted_def)
next
  case (DestroyDelta i)
  have "only_looks w (w\<lparr>deltas := (deltas w)(i := None)\<rparr>)"
    by (simp add: only_looks_def) (metis machine.surjective machine.update_convs(4))
  with run DestroyDelta looks_ok w show ?thesis by auto
qed

lemma sampler_step_ok:
  assumes "sampler_step be w r" and w: "world_ok B w"
  shows "\<exists>w'. r = Ret w' \<and> world_ok B w'"
  using assms(1)
proof (rule sampler_stepE)
  fix c
  assume "objects_alive c w" "destroys c \<or> exceptions (engine w) = []" "room_to_share w"
    "run_sampler_call be c w = Some r"
  then show ?thesis using run_call_ok [OF w] by blast
next
  assume "r = Ret (w\<lparr>engine := (engine w)\<lparr>exceptions := []\<rparr>\<rparr>)"
  with looks_ok [OF only_looks_exn(2) w] show ?thesis by blast
qed

lemma sampler_reachable_ok: "sampler_reachable be w0 w \<Longrightarrow> world_ok B w0 \<Longrightarrow> world_ok B w"
  by (induction rule: sampler_reachable.induct) (auto dest: sampler_step_ok)

end

end
