(* ===== verification/Linux_Sampler.thy ===== *)
theory Linux_Sampler
  imports Sampler_Life Linux_Os Counter_Math
begin

text \<open>
  The Linux backend of the sampler (\<open>src/linux/sampler.c\<close>): one independent perf event per
  metric of the calling thread, read with its enabled and running times and extrapolated interval by
  interval.
\<close>

section \<open>Data\<close>

fun perfidious_linux_metrics :: "perfidious_metric_id \<Rightarrow> u32 \<times> u64 \<times> string" where
  "perfidious_linux_metrics PERFIDIOUS_METRIC_CPU_TIME = (PERF_TYPE_SOFTWARE, PERF_COUNT_SW_TASK_CLOCK, ''cpu-time'')"
| "perfidious_linux_metrics PERFIDIOUS_METRIC_PAGE_FAULTS = (PERF_TYPE_SOFTWARE, PERF_COUNT_SW_PAGE_FAULTS, ''page-faults'')"
| "perfidious_linux_metrics PERFIDIOUS_METRIC_CONTEXT_SWITCHES =
     (PERF_TYPE_SOFTWARE, PERF_COUNT_SW_CONTEXT_SWITCHES, ''context-switches'')"
| "perfidious_linux_metrics PERFIDIOUS_METRIC_CPU_CYCLES = (PERF_TYPE_HARDWARE, PERF_COUNT_HW_CPU_CYCLES, ''cpu-cycles'')"
| "perfidious_linux_metrics PERFIDIOUS_METRIC_INSTRUCTIONS = (PERF_TYPE_HARDWARE, PERF_COUNT_HW_INSTRUCTIONS, ''instructions'')"

definition linux_metric_name :: "perfidious_metric_id \<Rightarrow> string" where
  "linux_metric_name metric = snd (snd (perfidious_linux_metrics metric))"

record perfidious_linux_reading =
  r_value :: u64
  r_enabled :: u64
  r_running :: u64

record perfidious_linux_counter =
  c_fd :: int
  c_previous :: perfidious_linux_reading
  c_total :: u64

record linux_platform_sampler =
  ls_thread_id :: int
  ls_counters :: "perfidious_metric_id \<Rightarrow> perfidious_linux_counter"

definition zero_reading :: perfidious_linux_reading where
  "zero_reading = \<lparr>r_value = 0, r_enabled = 0, r_running = 0\<rparr>"

section \<open>Opening and closing\<close>

definition perfidious_linux_open_metric ::
  "'k linux_os \<Rightarrow> perfidious_metric_id \<Rightarrow> bool \<Rightarrow> ('k, 'z) lmachine \<Rightarrow> int \<times> ('k, 'z) lmachine" where
  "perfidious_linux_open_metric os metric disabled m =
     (case perfidious_linux_metrics metric of (ty, config, name) \<Rightarrow>
        sys_perf_event_open os
          \<lparr>pe_type = ty, pe_config = config, pe_disabled = disabled, pe_watermark = False,
           pe_exclude_kernel = False, pe_exclude_hv = True,
           pe_read_format = PERF_FORMAT_TOTAL_TIME_ENABLED OR PERF_FORMAT_TOTAL_TIME_RUNNING, pe_rest = []\<rparr>
          0 (-1) (-1) m)"

definition perfidious_linux_sampler_error ::
  "'k linux_os \<Rightarrow> string \<Rightarrow> perfidious_metric_id \<Rightarrow> int \<Rightarrow> ('k, 'z) lmachine \<Rightarrow> ('k, 'z) lmachine" where
  "perfidious_linux_sampler_error os operation metric error m =
     zend_throw_exception IOException error
       (operation @ '' failed for sampler metric '' @ linux_metric_name metric @ '': ['' @ show_int error
        @ ''] '' @ os_strerror os error) m"

text \<open>The probing loop over the requested metrics.\<close>

fun probe_metrics ::
  "'k linux_os \<Rightarrow> perfidious_metric_id list \<Rightarrow> u32 \<Rightarrow> u32 \<Rightarrow> ('k, 'z) lmachine \<Rightarrow> u32 option \<times> ('k, 'z) lmachine" where
  "probe_metrics os [] requested supported m = (Some supported, m)"
| "probe_metrics os (metric # ms) requested supported m =
     (let mask = PERFIDIOUS_METRIC_MASK metric
      in if requested AND mask = 0 then probe_metrics os ms requested supported m
         else case perfidious_linux_open_metric os metric True m of (fd, m1) \<Rightarrow>
           if fd < 0
           then (let error = errno m1
                 in if error = ENOENT \<or> error = ENODEV \<or> error = EOPNOTSUPP \<or> error = EINVAL
                    then probe_metrics os ms requested supported m1
                    else (None, perfidious_linux_sampler_error os ''perf_event_open'' metric error m1))
           else probe_metrics os ms requested (supported OR mask) (snd (sys_close os fd m1)))"

definition linux_sampler_supported_metrics ::
  "'k linux_os \<Rightarrow> u32 \<Rightarrow> perfidious_scope_id \<Rightarrow> ('k, 'z) lmachine \<Rightarrow> u32 option \<times> ('k, 'z) lmachine" where
  "linux_sampler_supported_metrics os requested_metrics scope m =
     (if scope \<noteq> PERFIDIOUS_SCOPE_CURRENT_THREAD then (Some 0, m)
      else probe_metrics os all_metrics requested_metrics 0 m)"

fun close_counters ::
  "'k linux_os \<Rightarrow> perfidious_metric_id list \<Rightarrow> (perfidious_metric_id \<Rightarrow> perfidious_linux_counter)
    \<Rightarrow> ('k, 'z) lmachine \<Rightarrow> ('k, 'z) lmachine" where
  "close_counters os [] counters m = m"
| "close_counters os (metric # ms) counters m =
     close_counters os ms counters
       (if 0 \<le> c_fd (counters metric) then snd (sys_close os (c_fd (counters metric)) m) else m)"

definition linux_sampler_close :: "'k linux_os \<Rightarrow> linux_platform_sampler \<Rightarrow> ('k, 'z) lmachine \<Rightarrow> ('k, 'z) lmachine" where
  "linux_sampler_close os s m = close_counters os all_metrics (ls_counters s) m"

text \<open>The opening loop; on failure everything opened so far is closed before the exception is
  thrown.\<close>

fun open_counters ::
  "'k linux_os \<Rightarrow> perfidious_metric_id list \<Rightarrow> u32 \<Rightarrow> linux_platform_sampler \<Rightarrow> ('k, 'z) lmachine
    \<Rightarrow> linux_platform_sampler option \<times> ('k, 'z) lmachine" where
  "open_counters os [] metrics s m = (Some s, m)"
| "open_counters os (metric # ms) metrics s m =
     (if metrics AND PERFIDIOUS_METRIC_MASK metric = 0 then open_counters os ms metrics s m
      else case perfidious_linux_open_metric os metric False m of (fd, m1) \<Rightarrow>
        let s1 = s\<lparr>ls_counters := (ls_counters s)(metric := (ls_counters s metric)\<lparr>c_fd := fd\<rparr>)\<rparr>
        in if fd < 0
           then (let error = errno m1
                 in (None, perfidious_linux_sampler_error os ''perf_event_open'' metric error
                             (linux_sampler_close os s1 m1)))
           else open_counters os ms metrics s1 m1)"

definition linux_sampler_open ::
  "'k linux_os \<Rightarrow> u32 \<Rightarrow> perfidious_scope_id \<Rightarrow> ('k, 'z) lmachine
    \<Rightarrow> linux_platform_sampler option \<times> ('k, 'z) lmachine" where
  "linux_sampler_open os metrics scope m =
     open_counters os all_metrics metrics
       \<lparr>ls_thread_id = os_gettid os (kernel m),
        ls_counters = (\<lambda>_. \<lparr>c_fd = -1, c_previous = zero_reading, c_total = 0\<rparr>)\<rparr> m"

section \<open>Reading\<close>

text \<open>The \<open>do ... while\<close> loop around \<open>read\<close>: it is repeated for as long as a signal interrupts it.\<close>

partial_function (option) read_uninterrupted ::
  "'k linux_os \<Rightarrow> int \<Rightarrow> ('k, 'z) lmachine \<Rightarrow> ((int \<times> u64 list) \<times> ('k, 'z) lmachine) option" where
  "read_uninterrupted os fd m =
     (case sys_read os fd 24 m of (r, m1) \<Rightarrow>
        if fst r < 0 \<and> errno m1 = EINTR then read_uninterrupted os fd m1 else Some (r, m1))"

text \<open>Words a call does not describe read as zero.\<close>

definition decode_reading :: "u64 list \<Rightarrow> perfidious_linux_reading" where
  "decode_reading ws =
     (let b = ws @ replicate 3 0 in \<lparr>r_value = b ! 0, r_enabled = b ! 1, r_running = b ! 2\<rparr>)"

text \<open>Taking a complete reading into a counter: the class, code and message of the exception, or the
  counter after the interval.\<close>

datatype interval_error = NotMonotonic | NotRunning | IntervalOverflow

definition advance_counter ::
  "perfidious_linux_reading \<Rightarrow> perfidious_linux_counter \<Rightarrow> interval_error + perfidious_linux_counter" where
  "advance_counter reading counter =
     (let previous = c_previous counter
      in if r_value reading < r_value previous \<or> r_enabled reading < r_enabled previous \<or>
            r_running reading < r_running previous
         then Inl NotMonotonic
         else
           let val = r_value reading - r_value previous;
               enabled = r_enabled reading - r_enabled previous;
               running = r_running reading - r_running previous
           in if enabled < running \<or> (running = 0 \<and> (enabled \<noteq> 0 \<or> val \<noteq> 0)) then Inl NotRunning
              else case (if running \<noteq> 0 then perfidious_scale_uint64 val enabled running else Some 0) of
                None \<Rightarrow> Inl IntervalOverflow
              | Some scaled \<Rightarrow>
                  if UINT64_MAX - c_total counter < scaled then Inl IntervalOverflow
                  else Inr (counter\<lparr>c_total := c_total counter + scaled, c_previous := reading\<rparr>))"

definition throw_interval_error ::
  "'k linux_os \<Rightarrow> perfidious_metric_id \<Rightarrow> interval_error \<Rightarrow> ('k, 'z) lmachine \<Rightarrow> ('k, 'z) lmachine" where
  "throw_interval_error os metric e m =
     (case e of
        NotMonotonic \<Rightarrow> perfidious_linux_sampler_error os ''counter monotonicity check'' metric EIO m
      | NotRunning \<Rightarrow> perfidious_linux_sampler_error os ''counter running-time check'' metric EAGAIN m
      | IntervalOverflow \<Rightarrow> zend_throw_exception OverflowException 0
          (''Sampler '' @ linux_metric_name metric @ '' counter overflow'') m)"

fun read_counters ::
  "'k linux_os \<Rightarrow> perfidious_metric_id list \<Rightarrow> (perfidious_metric_id \<Rightarrow> perfidious_linux_counter)
    \<Rightarrow> ('k, 'z) lmachine
    \<Rightarrow> ((perfidious_metric_id \<Rightarrow> perfidious_linux_counter) option \<times> ('k, 'z) lmachine) option" where
  "read_counters os [] counters m = Some (Some counters, m)"
| "read_counters os (metric # ms) counters m =
     (if c_fd (counters metric) < 0 then read_counters os ms counters m
      else case read_uninterrupted os (c_fd (counters metric)) m of
        None \<Rightarrow> None
      | Some ((len, ws), m1) \<Rightarrow>
          if len \<noteq> 24
          then Some (None, perfidious_linux_sampler_error os ''read'' metric (if len < 0 then errno m1 else EIO) m1)
          else case advance_counter (decode_reading ws) (counters metric) of
            Inl e \<Rightarrow> Some (None, throw_interval_error os metric e m1)
          | Inr counter \<Rightarrow> read_counters os ms (counters(metric := counter)) m1)"

text \<open>The counters are advanced in a copy, which replaces them only when every metric was read.\<close>

definition linux_sampler_read ::
  "'k linux_os \<Rightarrow> linux_platform_sampler \<Rightarrow> ('k, 'z) lmachine
    \<Rightarrow> (snapshot option \<times> linux_platform_sampler \<times> ('k, 'z) lmachine) option" where
  "linux_sampler_read os s m =
     (if os_gettid os (kernel m) \<noteq> ls_thread_id s
      then Some (None, s, zend_throw_exception WrongThreadException 0
             ''Linux current-thread sampler must be read from the thread that opened it'' m)
      else case read_counters os all_metrics (ls_counters s) m of
        None \<Rightarrow> None
      | Some (None, m1) \<Rightarrow> Some (None, s, m1)
      | Some (Some next, m1) \<Rightarrow> Some (Some (\<lambda>metric. c_total (next metric)), s\<lparr>ls_counters := next\<rparr>, m1))"

definition linux_backend :: "'k linux_os \<Rightarrow> (('k, 'z) lmachine, linux_platform_sampler) sampler_backend" where
  "linux_backend os = \<lparr>
     platform_sampler_supported_metrics = linux_sampler_supported_metrics os,
     platform_sampler_open = linux_sampler_open os,
     platform_sampler_read = linux_sampler_read os,
     platform_sampler_close = linux_sampler_close os,
     hrtime_current = (\<lambda>m. case os_hrtime os (kernel m) of (t, k) \<Rightarrow> (t, m\<lparr>kernel := k\<rparr>))\<rparr>"

section \<open>Descriptors of a sampler\<close>

definition counter_fds :: "(perfidious_metric_id \<Rightarrow> perfidious_linux_counter) \<Rightarrow> perfidious_metric_id list \<Rightarrow> int multiset" where
  "counter_fds counters ms = mset (filter (\<lambda>fd. 0 \<le> fd) (map (\<lambda>a. c_fd (counters a)) ms))"

definition linux_owned :: "linux_platform_sampler \<Rightarrow> int multiset" where
  "linux_owned s = counter_fds (ls_counters s) all_metrics"

lemma counter_fds_simps [simp]:
  "counter_fds counters [] = {#}"
  "counter_fds counters (a # ms) =
     (if 0 \<le> c_fd (counters a) then add_mset (c_fd (counters a)) (counter_fds counters ms) else counter_fds counters ms)"
  by (simp_all add: counter_fds_def)

lemma counter_fds_cong: "(\<And>a. a \<in> set ms \<Longrightarrow> c_fd (f a) = c_fd (g a)) \<Longrightarrow> counter_fds f ms = counter_fds g ms"
  by (simp add: counter_fds_def cong: map_cong)

lemma counter_fds_open:
  "a \<in> set ms \<Longrightarrow> distinct ms \<Longrightarrow> c_fd (counters a) < 0 \<Longrightarrow> 0 \<le> fd \<Longrightarrow>
     counter_fds (counters(a := (counters a)\<lparr>c_fd := fd\<rparr>)) ms = add_mset fd (counter_fds counters ms)"
proof (induction ms)
  case (Cons b ms)
  show ?case
  proof (cases "a = b")
    case True
    have "counter_fds (counters(a := (counters a)\<lparr>c_fd := fd\<rparr>)) ms = counter_fds counters ms"
      using Cons.prems True by (intro counter_fds_cong) auto
    then show ?thesis using True Cons.prems by (simp add: fun_upd_def)
  next
    case False
    then show ?thesis using Cons by auto
  qed
qed simp

lemma counter_fds_no_open:
  "c_fd (counters a) < 0 \<Longrightarrow> fd < 0 \<Longrightarrow>
     counter_fds (counters(a := (counters a)\<lparr>c_fd := fd\<rparr>)) ms = counter_fds counters ms"
  by (induction ms) auto

lemma close_counters_run:
  "live (trace (close_counters os ms counters m)) = live (trace m) - counter_fds counters ms \<and>
   same_php m (close_counters os ms counters m)"
proof (induction ms arbitrary: m)
  case Nil
  then show ?case by simp
next
  case (Cons a ms)
  obtain ok m1 where c: "sys_close os (c_fd (counters a)) m = (ok, m1)" by fastforce
  note t = sys_close_trace [OF c]
  show ?case
  proof (cases "0 \<le> c_fd (counters a)")
    case True
    have "same_php m (close_counters os ms counters m1)"
      using t Cons.IH [of m1] by (blast intro: same_php_trans)
    then show ?thesis using True c t Cons.IH [of m1] by simp
  next
    case False
    then show ?thesis using Cons.IH [of m] by simp
  qed
qed

lemma open_metric_run:
  "perfidious_linux_open_metric os a d m = (r, m') \<Longrightarrow>
     \<exists>x attr. r = fd_of x \<and> trace m' = EvPerfEventOpen attr 0 (-1) (-1) x # trace m \<and> same_php m m' \<and>
       pe_exclude_hv attr \<and> pe_disabled attr = d"
  by (auto simp: perfidious_linux_open_metric_def split: prod.splits dest!: sys_perf_event_open_trace)

lemma sampler_error_simps [simp]:
  "trace (perfidious_linux_sampler_error os op a e m) = trace m"
  "diagnosed m' (perfidious_linux_sampler_error os op a e m) \<longleftrightarrow> exceptions m = exceptions m'"
  by (auto simp: perfidious_linux_sampler_error_def diagnosed_def)

lemma open_counters_run:
  assumes "open_counters os ms v s m = (r, m')" "distinct ms" "\<forall>a \<in> set ms. c_fd (ls_counters s a) < 0"
  shows "case r of
      Some s' \<Rightarrow> live (trace m') + linux_owned s = live (trace m) + linux_owned s' \<and> same_php m m' \<and>
        ls_thread_id s' = ls_thread_id s
    | None \<Rightarrow> live (trace m') = live (trace m) - linux_owned s \<and> diagnosed m m'"
  using assms
proof (induction ms arbitrary: s m)
  case Nil
  then show ?case by auto
next
  case (Cons a ms)
  show ?case
  proof (cases "v AND PERFIDIOUS_METRIC_MASK a = 0")
    case True
    then show ?thesis using Cons by simp
  next
    case False
    obtain fd m1 where op: "perfidious_linux_open_metric os a False m = (fd, m1)" by fastforce
    from open_metric_run [OF op] obtain x attr where x: "fd = fd_of x"
      "trace m1 = EvPerfEventOpen attr 0 (-1) (-1) x # trace m" "same_php m m1" by blast
    let ?s = "s\<lparr>ls_counters := (ls_counters s)(a := (ls_counters s a)\<lparr>c_fd := fd\<rparr>)\<rparr>"
    have neg: "c_fd (ls_counters s a) < 0" using Cons.prems by simp
    show ?thesis
    proof (cases x)
      case None
      have owned: "linux_owned ?s = linux_owned s"
        using neg x None by (simp add: linux_owned_def counter_fds_no_open)
      note cl = close_counters_run [of os all_metrics "ls_counters ?s" m1]
      have "r = None" "m' = perfidious_linux_sampler_error os ''perf_event_open'' a (errno m1) (linux_sampler_close os ?s m1)"
        using Cons.prems(1) False op x None by (auto simp: Let_def)
      then show ?thesis
        using cl owned x None by (simp add: linux_sampler_close_def linux_owned_def same_php_def)
    next
      case (Some f)
      have owned: "linux_owned ?s = add_mset fd (linux_owned s)"
        using neg x Some by (simp add: linux_owned_def counter_fds_open)
      have "open_counters os ms v ?s m1 = (r, m')"
        using Cons.prems(1) False op x Some by (simp add: Let_def)
      moreover have "\<forall>b \<in> set ms. c_fd (ls_counters ?s b) < 0" using Cons.prems(2,3) by auto
      ultimately have ih: "case r of
          Some s' \<Rightarrow> live (trace m') + linux_owned ?s = live (trace m1) + linux_owned s' \<and> same_php m1 m' \<and>
            ls_thread_id s' = ls_thread_id ?s
        | None \<Rightarrow> live (trace m') = live (trace m1) - linux_owned ?s \<and> diagnosed m1 m'"
        using Cons.prems(2) by (intro Cons.IH) simp_all
      have lv: "live (trace m1) = add_mset fd (live (trace m))" using x Some by simp
      show ?thesis
      proof (cases r)
        case None
        with ih lv owned x show ?thesis by (simp add: diagnosed_def same_php_def)
      next
        case (Some s')
        have "same_php m m'" using x(3) ih Some by (auto intro: same_php_trans)
        with ih lv owned Some show ?thesis by simp
      qed
    qed
  qed
qed

lemma probe_metrics_run:
  assumes "probe_metrics os ms v sup0 m = (r, m')"
  shows "live (trace m') = live (trace m) \<and> (if r = None then diagnosed m m' else exceptions m' = exceptions m)"
  using assms
proof (induction ms arbitrary: sup0 m)
  case Nil
  then show ?case by auto
next
  case (Cons a ms)
  show ?case
  proof (cases "v AND PERFIDIOUS_METRIC_MASK a = 0")
    case True
    then show ?thesis using Cons.IH [of sup0 m] Cons.prems by simp
  next
    case False
    obtain fd m1 where op: "perfidious_linux_open_metric os a True m = (fd, m1)" by fastforce
    from open_metric_run [OF op] obtain x attr where x: "fd = fd_of x"
      "trace m1 = EvPerfEventOpen attr 0 (-1) (-1) x # trace m" "same_php m m1" by blast
    have ex: "exceptions m1 = exceptions m" using x(3) by (simp add: same_php_def)
    show ?thesis
    proof (cases x)
      case None
      show ?thesis
      proof (cases "errno m1 = ENOENT \<or> errno m1 = ENODEV \<or> errno m1 = EOPNOTSUPP \<or> errno m1 = EINVAL")
        case True
        then have "probe_metrics os ms v sup0 m1 = (r, m')"
          using Cons.prems False op x None by (simp add: Let_def)
        from Cons.IH [OF this] x None ex show ?thesis by (auto simp: diagnosed_def split: if_splits)
      next
        case no: False
        have e: "errno m1 \<noteq> ENOENT" "errno m1 \<noteq> ENODEV" "errno m1 \<noteq> EOPNOTSUPP" "errno m1 \<noteq> EINVAL"
          using no by simp_all
        have "r = None" "m' = perfidious_linux_sampler_error os ''perf_event_open'' a (errno m1) m1"
          using Cons.prems False op x None e by (simp_all add: Let_def)
        then show ?thesis using x None ex by simp
      qed
    next
      case (Some f)
      obtain ok m2 where cl: "sys_close os fd m1 = (ok, m2)" by fastforce
      note t = sys_close_trace [OF cl]
      have "probe_metrics os ms v (sup0 OR PERFIDIOUS_METRIC_MASK a) m2 = (r, m')"
        using Cons.prems False op x Some cl by (simp add: Let_def)
      from Cons.IH [OF this] x Some t ex show ?thesis
        by (auto simp: diagnosed_def same_php_def split: if_splits)
    qed
  qed
qed

section \<open>Interrupted reads\<close>

definition only_reads :: "int \<Rightarrow> ('k, 'z) lmachine \<Rightarrow> (int \<times> u64 list) \<times> ('k, 'z) lmachine \<Rightarrow> bool" where
  "only_reads fd m y \<longleftrightarrow>
     (\<exists>n. trace (snd y) = EvRead fd 24 (fst (fst y)) # n @ trace m \<and> (\<forall>ev \<in> set n. \<exists>b. ev = EvRead fd 24 b)) \<and>
     same_php m (snd y) \<and> \<not> (fst (fst y) < 0 \<and> errno (snd y) = EINTR)"

lemma read_uninterrupted_result:
  assumes "read_uninterrupted os fd m = Some y"
  shows "only_reads fd m y"
proof (rule read_uninterrupted.raw_induct [where P = "\<lambda>os fd m y. only_reads fd m y", OF _ assms])
  fix f :: "'a linux_os \<Rightarrow> int \<Rightarrow> ('a, 'b) lmachine \<Rightarrow> ((int \<times> u64 list) \<times> ('a, 'b) lmachine) option"
  fix os fd m y
  assume ih: "\<And>os fd m y. f os fd m = Some y \<Longrightarrow> only_reads fd m y"
    and run: "(case sys_read os fd 24 m of (r, m1) \<Rightarrow>
      if fst r < 0 \<and> errno m1 = EINTR then f os fd m1 else Some (r, m1)) = Some y"
  obtain r m1 where rd: "sys_read os fd 24 m = (r, m1)" by fastforce
  note t = sys_read_trace [OF rd]
  show "only_reads fd m y"
  proof (cases "fst r < 0 \<and> errno m1 = EINTR")
    case False
    then have "y = (r, m1)" using run rd by (auto split: if_splits)
    with False t show ?thesis by (auto simp: only_reads_def)
  next
    case True
    then have "f os fd m1 = Some y" using run rd by simp
    then have "only_reads fd m1 y" by (rule ih)
    then obtain n where n: "trace (snd y) = EvRead fd 24 (fst (fst y)) # n @ trace m1"
      "\<forall>ev \<in> set n. \<exists>b. ev = EvRead fd 24 b" "same_php m1 (snd y)"
      "\<not> (fst (fst y) < 0 \<and> errno (snd y) = EINTR)" unfolding only_reads_def by blast
    have "same_php m (snd y)" using t n(3) by (blast intro: same_php_trans)
    with n t show ?thesis
      unfolding only_reads_def by (intro conjI exI [of _ "n @ [EvRead fd 24 (fst r)]"]) auto
  qed
qed

text \<open>The loop ends when interruptions do: \<open>pending\<close> counts those still to come.\<close>

lemma read_uninterrupted_ends:
  assumes "\<And>k b ws e k'. os_read os fd 24 k = ((b, ws), Some e, k') \<Longrightarrow> b < 0 \<Longrightarrow> e = EINTR \<Longrightarrow> pending k' < (pending k :: nat)"
    and "\<And>k b ws k'. os_read os fd 24 k = ((b, ws), None, k') \<Longrightarrow> 0 \<le> b"
  shows "\<exists>y. read_uninterrupted os fd m = Some y"
proof (induction "pending (kernel m)" arbitrary: m rule: less_induct)
  case less
  obtain b ws e k where os: "os_read os fd 24 (kernel m) = ((b, ws), e, k)" by (metis surj_pair)
  let ?m1 = "called k e (EvRead fd 24 b) m"
  have rd: "sys_read os fd 24 m = ((b, ws), ?m1)" using os by (simp add: sys_read_def)
  show ?case
  proof (cases "b < 0 \<and> errno ?m1 = EINTR")
    case False
    then show ?thesis using rd by (subst read_uninterrupted.simps) auto
  next
    case True
    have "e \<noteq> None" using True os assms(2) [of "kernel m" b ws k] by (cases e) auto
    then have "e = Some EINTR" using True by auto
    then have "pending (kernel ?m1) < pending (kernel m)" using assms(1) os True by simp
    from less [OF this] show ?thesis using rd True by (subst read_uninterrupted.simps) auto
  qed
qed

lemma live_reads:
  "(\<forall>ev \<in> set n. \<exists>b. ev = EvRead fd 24 b) \<Longrightarrow> live (n @ t) = live t \<and> closes_live (n @ t) = closes_live t"
  by (induction n) auto

lemma throw_interval_error_simps [simp]:
  "trace (throw_interval_error os a e m) = trace m"
  "diagnosed m' (throw_interval_error os a e m) \<longleftrightarrow> exceptions m = exceptions m'"
  by (cases e; simp add: throw_interval_error_def)
    (cases e; simp add: throw_interval_error_def; simp add: diagnosed_def)

lemma advance_keeps_fd: "advance_counter reading counter = Inr counter' \<Longrightarrow> c_fd counter' = c_fd counter"
  by (auto simp: advance_counter_def Let_def split: if_splits option.splits)

lemma read_counters_run:
  assumes "read_counters os ms counters m = Some (r, m')"
  shows "live (trace m') = live (trace m) \<and> (if r = None then diagnosed m m' else exceptions m' = exceptions m) \<and>
    (\<forall>next a. r = Some next \<longrightarrow> c_fd (next a) = c_fd (counters a))"
  using assms
proof (induction ms arbitrary: counters m)
  case Nil
  then show ?case by auto
next
  case (Cons a ms)
  show ?case
  proof (cases "c_fd (counters a) < 0")
    case True
    then show ?thesis using Cons.IH [of counters m] Cons.prems by simp
  next
    case False
    obtain len ws m1 where rd: "read_uninterrupted os (c_fd (counters a)) m = Some ((len, ws), m1)"
      using Cons.prems False by (auto split: option.splits)
    from read_uninterrupted_result [OF rd] live_reads have
      l1: "live (trace m1) = live (trace m)" and ex: "exceptions m1 = exceptions m"
      by (auto simp: only_reads_def same_php_def)
    show ?thesis
    proof (cases "len = 24")
      case False
      then show ?thesis using Cons.prems rd \<open>\<not> c_fd (counters a) < 0\<close> l1 ex by auto
    next
      case True
      show ?thesis
      proof (cases "advance_counter (decode_reading ws) (counters a)")
        case (Inl e)
        then show ?thesis using Cons.prems rd True False l1 ex by auto
      next
        case (Inr c)
        then have "read_counters os ms (counters(a := c)) m1 = Some (r, m')"
          using Cons.prems rd True False by simp
        from Cons.IH [OF this] l1 ex advance_keeps_fd [OF Inr] show ?thesis
          by (auto simp: diagnosed_def split: if_splits)
      qed
    qed
  qed
qed

section \<open>The Linux backend meets the contract\<close>

lemma linux_open_run:
  assumes "linux_sampler_open os v scope m = (so, m')"
  shows "case so of
      Some s \<Rightarrow> live (trace m') = live (trace m) + linux_owned s \<and> same_php m m' \<and>
        ls_thread_id s = os_gettid os (kernel m)
    | None \<Rightarrow> live (trace m') = live (trace m) \<and> diagnosed m m'"
proof -
  let ?s = "\<lparr>ls_thread_id = os_gettid os (kernel m),
    ls_counters = (\<lambda>_. \<lparr>c_fd = -1, c_previous = zero_reading, c_total = 0\<rparr>)\<rparr>"
  have z: "linux_owned ?s = {#}" by (simp add: linux_owned_def counter_fds_def)
  have "open_counters os all_metrics v ?s m = (so, m')" using assms by (simp add: linux_sampler_open_def)
  from open_counters_run [OF this] z show ?thesis by (simp split: option.splits)
qed

lemma linux_read_run:
  assumes "linux_sampler_read os s m = Some (r, s', m')"
  shows "live (trace m') = live (trace m) \<and> linux_owned s' = linux_owned s \<and>
      (if r = None then diagnosed m m' else exceptions m' = exceptions m)"
proof (cases "os_gettid os (kernel m) = ls_thread_id s")
  case False
  with assms show ?thesis by (auto simp: linux_sampler_read_def diagnosed_def)
next
  case True
  obtain ro m1 where rc: "read_counters os all_metrics (ls_counters s) m = Some (ro, m1)"
    using assms True by (auto simp: linux_sampler_read_def split: option.splits)
  have keep: "linux_owned (s\<lparr>ls_counters := next\<rparr>) = linux_owned s" if "ro = Some next" for "next"
    using read_counters_run [OF rc] that by (auto simp: linux_owned_def intro!: counter_fds_cong)
  show ?thesis
    using assms True rc read_counters_run [OF rc] keep
    by (auto simp: linux_sampler_read_def split: option.splits if_splits)
qed

interpretation linux: platform_sampler "linux_backend os" "\<lambda>m. live (trace m)" linux_owned
proof (unfold_locales, goal_cases)
  case 1
  then show ?case by simp
next
  case 2
  then show ?case
    by (auto simp: linux_backend_def linux_sampler_supported_metrics_def dest!: probe_metrics_run split: if_splits)
next
  case 3
  then show ?case by (auto simp: linux_backend_def same_php_def dest!: linux_open_run)
next
  case 4
  then show ?case by (auto simp: linux_backend_def dest!: linux_open_run)
next
  case (5 s m r s' m')
  then show ?case by (intro linux_read_run) (simp add: linux_backend_def)
next
  case (6 s m)
  then show ?case
    using close_counters_run [of os all_metrics "ls_counters s" m]
    by (simp add: linux_backend_def linux_sampler_close_def linux_owned_def same_php_def)
next
  case 7
  then show ?case by (auto simp: linux_backend_def split: prod.splits)
qed

end
