(* ===== verification/Sampler_Properties.thy ===== *)
theory Sampler_Properties
  imports Linux_Sampler Demo_Os
begin

text \<open>
  The properties of the sampler (\<open>src/sampler.c\<close>) and of its Linux backend
  (\<open>src/linux/sampler.c\<close>).
\<close>

section \<open>A concrete system\<close>

text \<open>A system whose counters run: every read returns a later reading, in which the event was
  scheduled half of the time. When \<open>d_short_read\<close> is set, a signal interrupts the first read.
  \<open>d_limit\<close> is the time.\<close>

definition ticking_read :: "int \<Rightarrow> int \<Rightarrow> demo \<Rightarrow> (int \<times> u64 list) \<times> int option \<times> demo" where
  "ticking_read fd n k =
     (if d_short_read k then ((-1, []), Some EINTR, k\<lparr>d_short_read := False\<rparr>)
      else ((24, [word_of_int (10 * int (d_limit k)), word_of_int (100 * int (d_limit k)),
                  word_of_int (50 * int (d_limit k))]), None, k\<lparr>d_limit := Suc (d_limit k)\<rparr>))"

definition ticking_os :: "demo linux_os" where
  "ticking_os = demo_os\<lparr>os_read := ticking_read\<rparr>"

definition demo_world :: "((demo, linux_event) machine, linux_platform_sampler) sampler_world" where
  "demo_world = \<lparr>engine = demo_machine, samplers = Map.empty, samples = Map.empty, deltas = Map.empty,
     identities = Map.empty, fresh = 0\<rparr>"

lemma ticking_fields [simp]:
  "os_perf_event_open ticking_os attr p c g k = demo_open k"
  "os_close ticking_os fd k = (d_close_ok k, if d_close_ok k then None else Some EIO, k)"
  "os_read ticking_os = ticking_read" "os_gettid ticking_os = d_pid" "os_hrtime ticking_os k = (7, k)"
  by (simp_all add: ticking_os_def demo_os_def)

lemma ticking_uninterrupted:
  "\<not> d_short_read (kernel m) \<Longrightarrow> read_uninterrupted ticking_os fd m = Some (sys_read ticking_os fd 24 m)"
  by (subst read_uninterrupted.simps) (simp add: sys_read_def ticking_read_def)

lemmas demo_eval = Let_def linux_backend_def all_metrics_def demo_world_def demo_machine_def demo_kernel_def
  demo_open_def ticking_uninterrupted ticking_read_def sys_perf_event_open_def sys_close_def sys_read_def

lemmas open_eval = PerfidiousSampler_open_def open_sampler_unfold linux_sampler_supported_metrics_def
  linux_sampler_open_def perfidious_linux_open_metric_def perfidious_scope_from_zval_def collected_mask_test

lemmas read_eval = linux_sampler_read_def advance_counter_def decode_reading_def zero_reading_def
  perfidious_scale_uint64_def UINT64_MAX_def

text \<open>The world after a sampler of \<open>cpu-time\<close> was opened.\<close>

definition demo_opened :: "((demo, linux_event) machine, linux_platform_sampler) sampler_world" where
  "demo_opened =
     (case run_sampler_call (linux_backend ticking_os)
        (OpenSampler [metric_case PERFIDIOUS_METRIC_CPU_TIME] None) demo_world of
        Some (Ret w) \<Rightarrow> w | _ \<Rightarrow> demo_world)"

lemma demo_opened_call:
  "PerfidiousSampler_open (linux_backend ticking_os) [metric_case PERFIDIOUS_METRIC_CPU_TIME] None demo_world
     = Some (Ret (Some 0, demo_opened))"
  by (simp add: demo_opened_def open_eval read_eval demo_eval)

lemma demo_opened_step: "sampler_step (linux_backend ticking_os) demo_world (Ret demo_opened)"
proof (rule sampler_step.call)
  show "run_sampler_call (linux_backend ticking_os)
      (OpenSampler [metric_case PERFIDIOUS_METRIC_CPU_TIME] None) demo_world = Some (Ret demo_opened)"
    using demo_opened_call by simp
qed (simp_all add: room_to_share_def references_def demo_world_def demo_machine_def)

lemma demo_room: "room_to_share demo_opened"
proof -
  have "card ({0 :: nat} \<inter> A) < 4294967295" for A
    using card_mono [of "{0 :: nat}" "{0} \<inter> A"] by simp
  then show ?thesis
    by (simp add: room_to_share_def references_def demo_opened_def open_eval read_eval demo_eval total_over_def)
qed

lemma demo_no_samplers: "no_samplers demo_world"
  by (simp add: no_samplers_def demo_world_def)

section \<open>The life of samplers\<close>

text \<open>C5 (sampler_no_undefined_behaviour). Whatever sequence of methods a script calls on samplers,
  samples and deltas, in whatever order the engine destroys them, and whatever the kernel answers,
  no call uses an identity after its last reference was dropped: every call that returns has a
  defined outcome.\<close>

theorem sampler_no_undefined_behaviour:
  assumes "no_samplers w0" and "sampler_reachable (linux_backend os) w0 w"
    and "sampler_step (linux_backend os) w r"
  shows "r \<noteq> Undefined"
proof -
  have "counted w \<and> accounted (\<lambda>m. live (trace m)) linux_owned (live (trace (engine w0))) w"
    using linux.sampler_reachable_ok [OF assms(2)] no_samplers_counted [OF assms(1)]
      no_samplers_accounted [OF assms(1)] by blast
  from linux.sampler_step_ok [OF assms(3) this] show ?thesis by auto
qed

theorem sampler_no_undefined_behaviour_witness:
  "cbind (Ret (Some 0, demo_opened)) (\<lambda>(r, w). perfidious_sampler_obj_free (linux_backend ticking_os) 0 w) \<noteq> Undefined"
proof -
  have "sampler_reachable (linux_backend ticking_os) demo_world demo_opened"
    using sampler_reachable.start demo_opened_step by (rule sampler_reachable.move)
  moreover have "sampler_step (linux_backend ticking_os) demo_opened
      (perfidious_sampler_obj_free (linux_backend ticking_os) 0 demo_opened)"
    by (rule sampler_step.call [where c = "DestroySampler 0"])
      (simp_all add: demo_room, simp add: demo_opened_def open_eval read_eval demo_eval)
  ultimately show ?thesis
    using sampler_no_undefined_behaviour [OF demo_no_samplers] by simp
qed

text \<open>C6 (sampler_no_leak). In every reachable world the open descriptors are those that were open
  before the first sampler plus those of the samplers that are still open, an identity exists
  exactly while a sampler or sample refers to it, and its 32-bit count is the number of those
  references. When all samplers are closed and all objects destroyed, nothing is left.\<close>

theorem sampler_no_leak:
  assumes "no_samplers w0" and "sampler_reachable (linux_backend os) w0 w"
  shows "live (trace (engine w)) =
      live (trace (engine w0)) + total_over (native_owned linux_owned) (samplers w) \<and>
    (\<forall>a. identities w a = (if references w a = 0 then None else Some (of_nat (references w a)))) \<and>
    (samplers w = Map.empty \<and> samples w = Map.empty \<longrightarrow>
      live (trace (engine w)) = live (trace (engine w0)) \<and> identities w = Map.empty)"
proof -
  have w: "counted w" "accounted (\<lambda>m. live (trace m)) linux_owned (live (trace (engine w0))) w"
    using linux.sampler_reachable_ok [OF assms(2)] no_samplers_counted [OF assms(1)]
      no_samplers_accounted [OF assms(1)] by blast+
  have ids: "\<forall>a. identities w a = (if references w a = 0 then None else Some (of_nat (references w a)))"
    using w(1) by (simp add: counted_def)
  have "identities w = Map.empty" if "samplers w = Map.empty" "samples w = Map.empty"
    using ids that by (intro ext) (simp add: references_def)
  with w(2) ids show ?thesis by (auto simp: accounted_def)
qed

theorem sampler_no_leak_witness:
  "live (trace (engine demo_opened)) = total_over (native_owned linux_owned) (samplers demo_opened) \<and>
   live (trace (engine demo_opened)) = {#4#}"
proof -
  have "sampler_reachable (linux_backend ticking_os) demo_world demo_opened"
    using sampler_reachable.start demo_opened_step by (rule sampler_reachable.move)
  from sampler_no_leak [OF demo_no_samplers this] show ?thesis
    by (simp add: demo_opened_def open_eval read_eval demo_eval)
qed

section \<open>Reading on Linux\<close>

lemma read_counters_advance:
  assumes "read_counters os ms counters m = Some (Some result, m')" "distinct ms"
  shows "\<forall>a. if a \<notin> set ms \<or> c_fd (counters a) < 0 then result a = counters a
    else \<exists>reading. advance_counter reading (counters a) = Inr (result a)"
  using assms
proof (induction ms arbitrary: counters m)
  case Nil
  then show ?case by simp
next
  case (Cons b ms)
  show ?case
  proof (cases "c_fd (counters b) < 0")
    case True
    then have "read_counters os ms counters m = Some (Some result, m')" using Cons.prems by simp
    from Cons.IH [OF this] Cons.prems(2) True show ?thesis by auto
  next
    case False
    then obtain ws m1 c where rd: "read_uninterrupted os (c_fd (counters b)) m = Some ((24, ws), m1)"
      and c: "advance_counter (decode_reading ws) (counters b) = Inr c"
      and rest: "read_counters os ms (counters(b := c)) m1 = Some (Some result, m')"
      using Cons.prems by (auto split: option.splits if_splits sum.splits)
    have ih: "\<forall>a. if a \<notin> set ms \<or> c_fd ((counters(b := c)) a) < 0 then result a = (counters(b := c)) a
      else \<exists>reading. advance_counter reading ((counters(b := c)) a) = Inr (result a)"
      using Cons.IH [OF rest] Cons.prems(2) by simp
    show ?thesis
    proof
      fix a
      show "if a \<notin> set (b # ms) \<or> c_fd (counters a) < 0 then result a = counters a
        else \<exists>reading. advance_counter reading (counters a) = Inr (result a)"
        using ih [rule_format, of a] Cons.prems(2) False c by (cases "a = b") auto
    qed
  qed
qed


text \<open>The native sampler of the open world, and a machine whose kernel answers short reads.\<close>

definition demo_sampler :: linux_platform_sampler where
  "demo_sampler = \<lparr>ls_thread_id = 77,
     ls_counters = (\<lambda>a. if a = PERFIDIOUS_METRIC_CPU_TIME
       then \<lparr>c_fd = 4, c_previous = \<lparr>r_value = 80, r_enabled = 800, r_running = 400\<rparr>, c_total = 160\<rparr>
       else \<lparr>c_fd = -1, c_previous = zero_reading, c_total = 0\<rparr>)\<rparr>"


text \<open>The interval between two readings, as natural numbers.\<close>

definition interval_value :: "perfidious_linux_reading \<Rightarrow> perfidious_linux_reading \<Rightarrow> nat" where
  "interval_value old new =
     (unat (r_value new) - unat (r_value old)) * (unat (r_enabled new) - unat (r_enabled old))
       div (unat (r_running new) - unat (r_running old))"

definition interval_valid :: "perfidious_linux_reading \<Rightarrow> perfidious_linux_reading \<Rightarrow> bool" where
  "interval_valid old new \<longleftrightarrow>
     r_value old \<le> r_value new \<and> r_enabled old \<le> r_enabled new \<and> r_running old \<le> r_running new \<and>
     unat (r_running new) - unat (r_running old) \<le> unat (r_enabled new) - unat (r_enabled old) \<and>
     (r_running new = r_running old \<longrightarrow> r_enabled new = r_enabled old \<and> r_value new = r_value old)"

lemma advance_counter_valid:
  assumes v: "interval_valid (c_previous c) r"
  shows "advance_counter r c =
    (if unat (c_total c) + interval_value (c_previous c) r < 2 ^ 64
     then Inr (c\<lparr>c_total := c_total c + of_nat (interval_value (c_previous c) r), c_previous := r\<rparr>)
     else Inl IntervalOverflow)"
proof -
  let ?p = "c_previous c"
  let ?v = "r_value r - r_value ?p" and ?e = "r_enabled r - r_enabled ?p" and ?u = "r_running r - r_running ?p"
  note d = v [unfolded interval_valid_def]
  have n: "unat ?v = unat (r_value r) - unat (r_value ?p)" "unat ?e = unat (r_enabled r) - unat (r_enabled ?p)"
    "unat ?u = unat (r_running r) - unat (r_running ?p)" using d by (simp_all add: unat_sub)
  let ?s = "if ?u \<noteq> 0 then perfidious_scale_uint64 ?v ?e ?u else Some 0"
  let ?q = "interval_value ?p r"
  have q: "?q = unat ?v * unat ?e div unat ?u" by (simp only: interval_value_def n)
  have s: "?s = (if ?q < 2 ^ 64 then Some (of_nat ?q) else None)"
    by (cases "?u = 0") (simp_all add: scale_exact Let_def q)
  have "\<not> ?e < ?u" using d n by (simp add: word_less_nat_alt)
  moreover have "\<not> (?u = 0 \<and> (?e \<noteq> 0 \<or> ?v \<noteq> 0))" using d by auto
  ultimately have "advance_counter r c = (case ?s of None \<Rightarrow> Inl IntervalOverflow
      | Some scaled \<Rightarrow> if UINT64_MAX - c_total c < scaled then Inl IntervalOverflow
          else Inr (c\<lparr>c_total := c_total c + scaled, c_previous := r\<rparr>))"
    using d by (auto simp: advance_counter_def Let_def not_less)
  then show ?thesis
    unfolding s by (simp add: add_guard_iff unat_of_nat_u64 not_le add.commute)
qed

lemma advance_counter_invalid:
  assumes "\<not> interval_valid (c_previous c) r"
  shows "advance_counter r c \<in> {Inl NotMonotonic, Inl NotRunning}"
proof (cases "r_value r < r_value (c_previous c) \<or> r_enabled r < r_enabled (c_previous c) \<or> r_running r < r_running (c_previous c)")
  case True
  then show ?thesis by (auto simp: advance_counter_def Let_def)
next
  case False
  then have le: "r_value (c_previous c) \<le> r_value r" "r_enabled (c_previous c) \<le> r_enabled r"
    "r_running (c_previous c) \<le> r_running r" by auto
  have "r_enabled r - r_enabled (c_previous c) < r_running r - r_running (c_previous c) \<or>
      r_running r - r_running (c_previous c) = 0 \<and>
      (r_enabled r - r_enabled (c_previous c) \<noteq> 0 \<or> r_value r - r_value (c_previous c) \<noteq> 0)"
    using assms le by (auto simp: interval_valid_def word_less_nat_alt unat_sub)
  with False show ?thesis by (simp add: advance_counter_def Let_def)
qed

text \<open>C27 (interval_is_extrapolated). Taking a reading into a counter succeeds exactly when the
  reading is not behind the previous one, the event did not run longer than it was enabled, it ran
  at all or nothing happened, and the new total fits in 64 bits; the total then grows by the value
  of the interval times the enabled time over the running time, rounded down, computed without
  wrap-around.\<close>

theorem interval_is_extrapolated:
  "advance_counter r c = Inr c' \<longleftrightarrow>
     interval_valid (c_previous c) r \<and> unat (c_total c) + interval_value (c_previous c) r < 2 ^ 64 \<and>
     c_fd c' = c_fd c \<and> c_previous c' = r \<and> unat (c_total c') = unat (c_total c) + interval_value (c_previous c) r"
proof (cases "interval_valid (c_previous c) r")
  case False
  then show ?thesis using advance_counter_invalid [of c r] by auto
next
  case True
  let ?t = "c_total c + of_nat (interval_value (c_previous c) r)"
  show ?thesis
  proof (cases "unat (c_total c) + interval_value (c_previous c) r < 2 ^ 64")
    case fits: True
    have "unat ?t = unat (c_total c) + interval_value (c_previous c) r"
      using fits by (simp add: unat_word_ariths unat_of_nat)
    then have "(unat (c_total c') = unat (c_total c) + interval_value (c_previous c) r) = (c_total c' = ?t)"
      by (metis word_unat_eq_iff)
    then show ?thesis
      using True fits by (cases c, cases c') (auto simp: advance_counter_valid)
  next
    case False
    then show ?thesis using True by (simp add: advance_counter_valid)
  qed
qed

text \<open>Interruptions run out: \<open>pending\<close> counts those still to come for any descriptor.\<close>

definition interruptions_end :: "'k linux_os \<Rightarrow> ('k \<Rightarrow> nat) \<Rightarrow> bool" where
  "interruptions_end os pending \<longleftrightarrow>
     (\<forall>fd k b ws e k'. os_read os fd 24 k = ((b, ws), e, k') \<and> b < 0 \<longrightarrow>
        e \<noteq> None \<and> (e = Some EINTR \<longrightarrow> pending k' < pending k))"

lemma read_counters_returns:
  assumes "interruptions_end os pending"
  shows "\<exists>y. read_counters os ms counters m = Some y"
proof (induction ms arbitrary: counters m)
  case Nil
  then show ?case by simp
next
  case (Cons a ms)
  have ends: "os_read os fd 24 k = ((b, ws), e, k') \<Longrightarrow> b < 0 \<Longrightarrow>
      e \<noteq> None \<and> (e = Some EINTR \<longrightarrow> pending k' < pending k)" for fd k b ws e k'
    using assms unfolding interruptions_end_def by blast
  have "\<exists>y. read_uninterrupted os (c_fd (counters a)) m = Some y"
    by (rule read_uninterrupted_ends [where pending = pending]) (use ends in \<open>fastforce simp: not_less [symmetric]\<close>)+
  then obtain len ws m1 where "read_uninterrupted os (c_fd (counters a)) m = Some ((len, ws), m1)" by auto
  then show ?case using Cons.IH by (auto split: sum.splits)
qed

text \<open>C28 (interrupted_read_completes). As long as signals do not interrupt it for ever, reading an
  open sampler returns: the loop that repeats an interrupted read ends, for any number of
  interruptions.\<close>

theorem interrupted_read_completes:
  assumes "interruptions_end os pending" and "samplers w this = Some obj"
  shows "\<exists>x. PerfidiousSampler_read (linux_backend os) this w = Some x"
proof (cases "so_sampler obj")
  case None
  then show ?thesis using assms(2) by (simp add: PerfidiousSampler_read_unfold)
next
  case (Some s)
  obtain ro m1 where "read_counters os all_metrics (ls_counters s) (engine w) = Some (ro, m1)"
    using read_counters_returns [OF assms(1)] by (metis surj_pair)
  then have "\<exists>r s' m'. linux_sampler_read os s (engine w) = Some (r, s', m')"
    by (cases ro) (auto simp: linux_sampler_read_def)
  then obtain r s' m' where "linux_sampler_read os s (engine w) = Some (r, s', m')" by blast
  then show ?thesis
    using assms(2) Some
    by (auto simp: PerfidiousSampler_read_unfold linux_backend_def Let_def split: option.splits prod.splits)
qed

theorem interrupted_read_completes_witness:
  "\<exists>x. PerfidiousSampler_read (linux_backend ticking_os) 0
     (demo_opened\<lparr>engine := (engine demo_opened)\<lparr>kernel := demo_kernel\<lparr>d_short_read := True\<rparr>\<rparr>\<rparr>) = Some x"
proof -
  have "interruptions_end ticking_os (\<lambda>k. of_bool (d_short_read k))"
    by (auto simp: interruptions_end_def ticking_read_def split: if_splits)
  moreover have "\<exists>obj. samplers (demo_opened\<lparr>engine := m\<rparr>) 0 = Some obj" for m
    by (simp add: demo_opened_def open_eval read_eval demo_eval)
  ultimately show ?thesis using interrupted_read_completes by blast
qed

section \<open>Samples and deltas\<close>

text \<open>C36 (sample_is_difference_to_origin). A sample that \<open>read\<close> returns holds, for every metric of
  the sampler, the exact difference between the counter now and the counter when the sampler was
  opened, and \<open>value\<close> returns it as a PHP integer without ever overflowing; for any other metric
  \<open>value\<close> throws. This is independent of the platform.\<close>

theorem sample_is_difference_to_origin:
  assumes "samplers w this = Some obj" and "so_sampler obj = Some s"
    and "PerfidiousSampler_read be this w = Some (Ret (Some i, w'))"
  shows "\<exists>now s' m'. platform_sampler_read be s (engine w) = Some (Some now, s', m') \<and>
    (\<forall>a. PerfidiousSample_value i (metric_case a) w' =
      (if a \<in> collected (so_metrics obj) then Ret (ZLong (uint (now a) - uint (so_origin obj a)), w')
       else Ret (ZNull, throwing ValueError
              (''Metric '' @ perfidious_metric_name a @ '' was not collected by this sampler'') w')))"
proof -
  obtain now s' m' where rd: "platform_sampler_read be s (engine w) = Some (Some now, s', m')"
    using assms by (auto simp: PerfidiousSampler_read_unfold Let_def split: option.splits)
  obtain t m2 where h: "hrtime_current be m' = (t, m2)" by fastforce
  obtain vals where vals: "sample_values all_metrics (so_metrics obj) (so_origin obj) now (\<lambda>_. 0) = Inr vals"
    using assms rd h
    by (cases "sample_values all_metrics (so_metrics obj) (so_origin obj) now (\<lambda>_. 0)")
      (auto simp: PerfidiousSampler_read_unfold Let_def cbind_Ret_iff split: if_splits)
  then obtain sa where sa: "samples w' i = Some sa" "sa_metrics sa = so_metrics obj" "sa_values sa = vals"
    using assms rd h by (auto simp: PerfidiousSampler_read_unfold Let_def cbind_Ret_iff split: if_splits)
  note v = iffD1 [OF sample_values_all vals]
  have "uint (now a - so_origin obj a) = uint (now a) - uint (so_origin obj a)"
    if "a \<in> collected (so_metrics obj)" for a
    using v that by (simp add: uint_sub_lem [symmetric] word_le_def)
  with v have "perfidious_uint64_to_long (vals a) (engine w') =
      (Some (uint (now a) - uint (so_origin obj a)), engine w')"
    if "a \<in> collected (so_metrics obj)" for a
    using that by (simp add: sampler_to_long.fits)
  with rd sa show ?thesis
    by (simp add: PerfidiousSample_value_def perfidious_sample_value_def collected_mask_test)
qed


theorem sample_is_difference_to_origin_witness:
  "\<exists>w. PerfidiousSampler_read (linux_backend ticking_os) 0 demo_opened = Some (Ret (Some 2, w)) \<and>
     PerfidiousSample_value 2 (metric_case PERFIDIOUS_METRIC_CPU_TIME) w = Ret (ZLong 20, w)"
proof -
  have "\<exists>w obj s. samplers demo_opened 0 = Some obj \<and> so_sampler obj = Some s \<and>
      PerfidiousSampler_read (linux_backend ticking_os) 0 demo_opened = Some (Ret (Some 2, w)) \<and>
      PERFIDIOUS_METRIC_CPU_TIME \<in> collected (so_metrics obj) \<and>
      (\<forall>now s' m'. platform_sampler_read (linux_backend ticking_os) s (engine demo_opened) = Some (Some now, s', m') \<longrightarrow>
        uint (now PERFIDIOUS_METRIC_CPU_TIME) - uint (so_origin obj PERFIDIOUS_METRIC_CPU_TIME) = 20)"
    by (simp add: PerfidiousSampler_read_unfold retain_identity_def zend_long_max_guard demo_opened_def open_eval read_eval demo_eval)
  then obtain w obj s where o: "samplers demo_opened 0 = Some obj" "so_sampler obj = Some s"
      "PerfidiousSampler_read (linux_backend ticking_os) 0 demo_opened = Some (Ret (Some 2, w))"
    and c: "PERFIDIOUS_METRIC_CPU_TIME \<in> collected (so_metrics obj)"
    and d: "\<forall>now s' m'. platform_sampler_read (linux_backend ticking_os) s (engine demo_opened) = Some (Some now, s', m') \<longrightarrow>
        uint (now PERFIDIOUS_METRIC_CPU_TIME) - uint (so_origin obj PERFIDIOUS_METRIC_CPU_TIME) = 20"
    by blast
  from sample_is_difference_to_origin [OF o] c d have
    "PerfidiousSample_value 2 (metric_case PERFIDIOUS_METRIC_CPU_TIME) w = Ret (ZLong 20, w)" by metis
  with o show ?thesis by blast
qed

text \<open>What \<open>since\<close> accepts.\<close>

definition comparable :: "perfidious_sample_obj \<Rightarrow> perfidious_sample_obj \<Rightarrow> bool" where
  "comparable late early \<longleftrightarrow>
     sa_identity late = sa_identity early \<and> sa_time_ns early \<le> sa_time_ns late \<and>
     uint (sa_time_ns late) - uint (sa_time_ns early) < 2 ^ 63 \<and>
     (\<forall>a \<in> collected (sa_metrics late). sa_values early a \<le> sa_values late a)"

lemma since_incomparable:
  assumes s: "samples w i = Some late" "samples w j = Some early" and no: "\<not> comparable late early"
  shows "\<exists>w'. PerfidiousSample_since i j w = Ret (None, w') \<and> diagnosed (engine w) (engine w')"
proof -
  consider "sa_identity late \<noteq> sa_identity early" | "sa_identity late = sa_identity early" "sa_time_ns late < sa_time_ns early"
    | "sa_identity late = sa_identity early" "sa_time_ns early \<le> sa_time_ns late"
      "2 ^ 63 \<le> uint (sa_time_ns late - sa_time_ns early)"
    | "sa_identity late = sa_identity early" "sa_time_ns early \<le> sa_time_ns late"
      "uint (sa_time_ns late - sa_time_ns early) < 2 ^ 63"
      "\<not> (\<forall>a \<in> collected (sa_metrics late). sa_values early a \<le> sa_values late a)"
    using no uint_sub_lem [of "sa_time_ns early" "sa_time_ns late"]
    unfolding comparable_def word_le_def [symmetric] by (metis not_less)
  then show ?thesis
  proof cases
    case 4
    then obtain msg where "delta_values all_metrics (sa_metrics late) (sa_values early) (sa_values late) (\<lambda>_. 0) = Inl msg"
      using delta_values_all by (cases "delta_values all_metrics (sa_metrics late) (sa_values early) (sa_values late) (\<lambda>_. 0)") auto
    moreover have "\<not> sa_time_ns late < sa_time_ns early" using 4 by simp
    ultimately show ?thesis using 4 s
      by (simp add: PerfidiousSample_since_unfold sampler_to_long.fits throwing_def diagnosed_def)
  qed (auto simp: PerfidiousSample_since_unfold s sampler_to_long.too_large throwing_def diagnosed_def dest: leD)
qed

lemma since_comparable:
  assumes s: "samples w i = Some late" "samples w j = Some early" and c: "comparable late early"
  shows "PerfidiousSample_since i j w = Ret (Some (fresh w), w\<lparr>fresh := Suc (fresh w), deltas := (deltas w)(fresh w \<mapsto>
    \<lparr>de_values = (\<lambda>a. if a \<in> collected (sa_metrics late) then sa_values late a - sa_values early a else 0),
     de_metrics = sa_metrics late, de_elapsedTimeNs = uint (sa_time_ns late) - uint (sa_time_ns early)\<rparr>)\<rparr>)"
proof -
  have t: "uint (sa_time_ns late - sa_time_ns early) = uint (sa_time_ns late) - uint (sa_time_ns early)"
    using c by (simp add: comparable_def uint_sub_lem [symmetric] word_le_def)
  have d: "delta_values all_metrics (sa_metrics late) (sa_values early) (sa_values late) (\<lambda>_. 0)
      = Inr (\<lambda>a. if a \<in> collected (sa_metrics late) then sa_values late a - sa_values early a else 0)"
    using c by (simp add: comparable_def delta_values_all)
  show ?thesis
    using s c d t by (simp add: PerfidiousSample_since_unfold sampler_to_long.fits comparable_def not_less)
qed

text \<open>C37 (since_measures_interval). \<open>since\<close> succeeds exactly for an earlier sample of the same
  sampler, whose values and time are not ahead; the delta then holds the exact elapsed time and the
  exact difference of every metric, without wrap-around, and both samples are unchanged. In every
  other case it returns nothing and throws exactly one exception.\<close>

theorem since_measures_interval:
  assumes "samples w i = Some late" and "samples w j = Some early"
  shows "case PerfidiousSample_since i j w of
      Undefined \<Rightarrow> False
    | Ret (None, w') \<Rightarrow> \<not> comparable late early \<and> diagnosed (engine w) (engine w')
    | Ret (Some d, w') \<Rightarrow> comparable late early \<and> samples w' = samples w \<and> engine w' = engine w \<and>
        (\<exists>delta. deltas w' d = Some delta \<and> de_metrics delta = sa_metrics late \<and>
          de_elapsedTimeNs delta = uint (sa_time_ns late) - uint (sa_time_ns early) \<and>
          (\<forall>a \<in> collected (sa_metrics late).
            uint (de_values delta a) = uint (sa_values late a) - uint (sa_values early a)))"
proof (cases "comparable late early")
  case True
  then have "uint (sa_values late a - sa_values early a) = uint (sa_values late a) - uint (sa_values early a)"
    if "a \<in> collected (sa_metrics late)" for a
    using that by (simp add: comparable_def uint_sub_lem [symmetric] word_le_def)
  with since_comparable [OF assms True] True show ?thesis by simp
next
  case False
  with since_incomparable [OF assms False] show ?thesis by auto
qed

text \<open>Two samples of one sampler.\<close>

definition two_samples :: "((demo, linux_event) machine, linux_platform_sampler) sampler_world" where
  "two_samples = demo_world\<lparr>samples :=
     [2 \<mapsto> \<lparr>sa_identity = Some 1, sa_values = (\<lambda>_. 20), sa_time_ns = 5,
            sa_metrics = PERFIDIOUS_METRIC_MASK PERFIDIOUS_METRIC_CPU_TIME\<rparr>,
      3 \<mapsto> \<lparr>sa_identity = Some 1, sa_values = (\<lambda>_. 60), sa_time_ns = 9,
            sa_metrics = PERFIDIOUS_METRIC_MASK PERFIDIOUS_METRIC_CPU_TIME\<rparr>], fresh := 4\<rparr>"

theorem since_measures_interval_witness:
  "\<exists>w delta. PerfidiousSample_since 3 2 two_samples = Ret (Some 4, w) \<and> deltas w 4 = Some delta \<and>
     de_elapsedTimeNs delta = 4 \<and> uint (de_values delta PERFIDIOUS_METRIC_CPU_TIME) = 40"
proof -
  obtain w where w: "PerfidiousSample_since 3 2 two_samples = Ret (Some 4, w)"
    by (simp add: PerfidiousSample_since_unfold two_samples_def demo_world_def all_metrics_def perfidious_uint64_to_long_def
        zend_long_max_guard collected_mask_test)
  have s: "samples two_samples 3 = Some \<lparr>sa_identity = Some 1, sa_values = (\<lambda>_. 60), sa_time_ns = 9,
      sa_metrics = PERFIDIOUS_METRIC_MASK PERFIDIOUS_METRIC_CPU_TIME\<rparr>"
    "samples two_samples 2 = Some \<lparr>sa_identity = Some 1, sa_values = (\<lambda>_. 20), sa_time_ns = 5,
      sa_metrics = PERFIDIOUS_METRIC_MASK PERFIDIOUS_METRIC_CPU_TIME\<rparr>"
    by (simp_all add: two_samples_def)
  from since_measures_interval [OF s] w show ?thesis by auto
qed

section \<open>Opening\<close>

lemma collect_cases_order:
  "collect_metrics (map metric_case ms) v ord m = (Some (v', ord'), m') \<Longrightarrow> ord' = ord @ ms"
proof (induction ms arbitrary: v ord)
  case (Cons a ms)
  then have "collect_metrics (map metric_case ms) (v OR PERFIDIOUS_METRIC_MASK a) (ord @ [a]) m = (Some (v', ord'), m')"
    by (auto simp: Let_def split: if_splits)
  from Cons.IH [OF this] show ?case by simp
qed simp

text \<open>A sampler reports exactly the metrics it was opened with, in
  the order they were given: they are at most five and all different, so the array of the order is
  never overrun, and the mask of the sampler holds exactly them.\<close>

lemma sampler_metrics_round_trip:
  assumes "PerfidiousSampler_open be (map metric_case ms) scope w = Some (Ret (Some i, w'))"
  shows "PerfidiousSampler_metrics i w' = Ret (php_list (map metric_case ms), w') \<and>
    distinct ms \<and> 0 < length ms \<and> length ms \<le> 5 \<and>
    (\<exists>obj. samplers w' i = Some obj \<and> collected (so_metrics obj) = set ms)"
proof -
  have ne: "ms \<noteq> []" using assms by (auto simp: PerfidiousSampler_open_def)
  obtain co m1 where cm: "collect_metrics (map metric_case ms) 0 [] (engine w) = (co, m1)" by fastforce
  obtain v ord where co: "co = Some (v, ord)"
    using assms cm ne by (cases co) (auto simp: PerfidiousSampler_open_def)
  note r = collect_metrics_run [OF cm, unfolded co, simplified]
  have ord: "ord = ms" using collect_cases_order [OF cm [unfolded co]] by simp
  have "distinct ms" using r ord by simp
  from assms obtain w1 where "open_sampler be v ord (perfidious_scope_from_zval scope) w1 = Some (Ret (Some i, w'))"
    using cm co ne by (auto simp: PerfidiousSampler_open_def Let_def split: option.splits if_splits prod.splits)
  then obtain obj where "samplers w' i = Some obj" "so_metrics obj = v" "so_metric_order obj = ord"
    by (auto simp: open_sampler_unfold Let_def cbind_Ret_iff split: option.splits prod.splits)
  with r ord ne distinct_order_bound [OF \<open>distinct ms\<close>] \<open>distinct ms\<close> show ?thesis
    by (simp add: PerfidiousSampler_metrics_def)
qed


text \<open>When a platform does not support some of the requested
  metrics, \<open>open\<close> acquires nothing and throws one exception whose message lists the names of all
  of them, and only them, in the order of the request: the 128-byte buffer is large enough for any
  request, so the list is never cut. The exception carries the same metrics as enum cases.\<close>

lemma unsupported_metrics_are_named:
  assumes "ms \<noteq> []" and "distinct ms" and "exceptions (engine w) = []"
    and "\<And>v. collected v = set ms \<Longrightarrow>
      platform_sampler_supported_metrics be v (perfidious_scope_from_zval scope) (engine w) = (Some supported, engine w)"
    and "\<not> set ms \<subseteq> collected supported"
  shows "\<exists>e. PerfidiousSampler_open be (map metric_case ms) scope w
      = Some (Ret (None, w\<lparr>engine := (engine w)\<lparr>exceptions := [e]\<rparr>\<rparr>)) \<and>
    ex_class e = UnsupportedMetricException \<and>
    (let rejected = filter (\<lambda>a. a \<notin> collected supported) ms
     in ex_message e = ''Metrics ['' @ comma_join (map perfidious_metric_name rejected)
          @ ''] are not supported for scope ''
          @ (if perfidious_scope_from_zval scope = PERFIDIOUS_SCOPE_CURRENT_PROCESS
             then ''current-process'' else ''current-thread'') \<and>
        ex_props e = [(''scope'', scope_case (perfidious_scope_from_zval scope)),
          (''unsupportedMetrics'', php_list (map metric_case rejected))])"
proof -
  obtain v where cm: "collect_metrics (map metric_case ms) 0 [] (engine w) = (Some (v, ms), engine w)"
    and v: "collected v = set ms"
    using collect_metrics_cases [of ms 0 "[]" "engine w"] assms(2) by auto
  let ?rej = "v AND NOT supported"
  have c: "collected ?rej = set ms - collected supported" by (simp add: collected_and_not v)
  then have "?rej \<noteq> 0" using assms(5) collected_simps(1) by (metis Diff_eq_empty_iff)
  have rej: "rejected_metrics ?rej ms = filter (\<lambda>a. a \<notin> collected supported) ms"
    by (auto simp: rejected_metrics_def collected_mask_test c intro!: filter_cong)
  have names: "rejected_names ?rej ms [] = comma_join (map perfidious_metric_name (rejected_metrics ?rej ms))"
    using rejected_names_join [of "[]" ms ?rej] distinct_order_bound [OF assms(2)] by simp
  show ?thesis
    by (rule exI [of _ "hd (exceptions (perfidious_throw_unsupported_metrics (perfidious_scope_from_zval scope) ms
        ?rej (engine w)))"]) (use assms(1,3) cm assms(4) [OF v] \<open>?rej \<noteq> 0\<close> in
        \<open>simp add: PerfidiousSampler_open_def Let_def perfidious_throw_unsupported_metrics_def names rej\<close>)
qed

end
