(* ===== verification/Windows_Os.thy ===== *)
theory Windows_Os
  imports Sampler_Life
begin

text \<open>
  The Windows functions the extension calls, as a record of operations over a system state of
  arbitrary type, and the helpers of \<open>src/windows/private.h\<close> and \<open>src/windows/thread_profile.c\<close>.
  \<open>GetCurrentProcess\<close> and \<open>GetCurrentThread\<close> are pseudo handles that always denote the caller, so
  calls on them take no handle. Handles a call creates are numbers; \<open>NULL\<close> is \<open>None\<close>.
  \<open>win_unwritten\<close> is what a local variable holds that nothing was written to.
\<close>

section \<open>Constants and data\<close>

definition ERROR_SUCCESS :: u32 where
  "ERROR_SUCCESS = 0"

definition ERROR_WMI_ALREADY_ENABLED :: u32 where
  "ERROR_WMI_ALREADY_ENABLED = 4206"

definition WAIT_TIMEOUT :: u32 where
  "WAIT_TIMEOUT = 258"

definition WAIT_FAILED :: u32 where
  "WAIT_FAILED = 0xFFFFFFFF"

definition MAX_HW_COUNTERS :: nat where
  "MAX_HW_COUNTERS = 16"

record filetime =
  dwLowDateTime :: u32
  dwHighDateTime :: u32

text \<open>What \<open>GetProcessTimes\<close> and \<open>GetThreadTimes\<close> return, without the exit time.\<close>

record windows_times =
  creation_time :: filetime
  kernel_time :: filetime
  user_time :: filetime

record hardware_counter_data =
  hw_Type :: int
  hw_Value :: u64

record performance_data =
  pd_HwCountersCount :: u8
  pd_ContextSwitchCount :: u32
  pd_WaitReasonBitMap :: u64
  pd_CycleTime :: u64
  pd_RetryCount :: u32
  pd_HwCounters :: "nat \<Rightarrow> hardware_counter_data"

record process_memory_counters =
  PageFaultCount :: u32
  PeakWorkingSetSize :: u64
  WorkingSetSize :: u64
  QuotaPeakPagedPoolUsage :: u64
  QuotaPagedPoolUsage :: u64
  QuotaPeakNonPagedPoolUsage :: u64
  QuotaNonPagedPoolUsage :: u64
  PagefileUsage :: u64
  PeakPagefileUsage :: u64
  PrivateUsage :: u64

section \<open>The system\<close>

text \<open>The calls that create and release handles.\<close>

datatype windows_event =
    EvDuplicateHandle "nat option"
  | EvCloseHandle nat
  | EvEnableThreadProfiling u64 "u32 + nat"
  | EvReadThreadProfilingData nat u32
  | EvDisableThreadProfiling nat u32

record 'k windows_os =
  win_DuplicateHandle :: "'k \<Rightarrow> nat option \<times> 'k"
  win_CloseHandle :: "nat \<Rightarrow> 'k \<Rightarrow> 'k"
  win_EnableThreadProfiling :: "u64 \<Rightarrow> 'k \<Rightarrow> (u32 + nat) \<times> 'k"
  win_ReadThreadProfilingData :: "nat \<Rightarrow> bool \<Rightarrow> 'k \<Rightarrow> (u32 \<times> performance_data) \<times> 'k"
  win_DisableThreadProfiling :: "nat \<Rightarrow> 'k \<Rightarrow> u32 \<times> 'k"
  win_WaitForSingleObject :: "nat \<Rightarrow> 'k \<Rightarrow> u32 \<times> 'k"
  win_GetProcessTimes :: "'k \<Rightarrow> windows_times option \<times> 'k"
  win_GetThreadTimes :: "nat option \<Rightarrow> 'k \<Rightarrow> windows_times option \<times> 'k"
  win_GetProcessMemoryInfo :: "'k \<Rightarrow> process_memory_counters option \<times> 'k"
  win_QueryProcessCycleTime :: "'k \<Rightarrow> u64 option \<times> 'k"
  win_QueryThreadCycleTime :: "'k \<Rightarrow> u64 option \<times> 'k"
  win_GetCurrentThreadId :: "'k \<Rightarrow> u32"
  win_GetLastError :: "'k \<Rightarrow> u32"
  win_hrtime :: "'k \<Rightarrow> u64 \<times> 'k"
  win_unwritten :: performance_data

type_synonym ('k, 'z) wmachine = "('k, windows_event, 'z) machine_scheme"

text \<open>A call that creates and releases nothing.\<close>

definition win_call :: "('k \<Rightarrow> 'r \<times> 'k) \<Rightarrow> ('k, 'z) wmachine \<Rightarrow> 'r \<times> ('k, 'z) wmachine" where
  "win_call f m = (case f (kernel m) of (r, k) \<Rightarrow> (r, m\<lparr>kernel := k\<rparr>))"

definition win_logged :: "windows_event \<Rightarrow> 'k \<Rightarrow> ('k, 'z) wmachine \<Rightarrow> ('k, 'z) wmachine" where
  "win_logged ev k m = m\<lparr>kernel := k, trace := ev # trace m\<rparr>"

definition duplicate_current_thread :: "'k windows_os \<Rightarrow> ('k, 'z) wmachine \<Rightarrow> nat option \<times> ('k, 'z) wmachine" where
  "duplicate_current_thread os m =
     (case win_DuplicateHandle os (kernel m) of (r, k) \<Rightarrow> (r, win_logged (EvDuplicateHandle r) k m))"

definition close_handle :: "'k windows_os \<Rightarrow> nat \<Rightarrow> ('k, 'z) wmachine \<Rightarrow> ('k, 'z) wmachine" where
  "close_handle os h m = win_logged (EvCloseHandle h) (win_CloseHandle os h (kernel m)) m"

definition last_error :: "'k windows_os \<Rightarrow> ('k, 'z) wmachine \<Rightarrow> u32" where
  "last_error os m = win_GetLastError os (kernel m)"

section \<open>Helpers (private.h)\<close>

text \<open>The union of two 32-bit halves and a 64-bit value, on a little-endian machine.\<close>

definition perfidious_windows_filetime_to_uint64 :: "filetime \<Rightarrow> u64" where
  "perfidious_windows_filetime_to_uint64 v =
     ucast (dwLowDateTime v) OR push_bit 32 (ucast (dwHighDateTime v))"

definition windows_error_text :: "string \<Rightarrow> u32 \<Rightarrow> string" where
  "windows_error_text operation error = operation @ '' failed with Windows error '' @ show_nat (unat error)"

definition perfidious_windows_throw_error ::
  "string \<Rightarrow> u32 \<Rightarrow> ('k, 'e, 'z) machine_scheme \<Rightarrow> ('k, 'e, 'z) machine_scheme" where
  "perfidious_windows_throw_error operation error m =
     zend_throw_exception IOException (uint error) (windows_error_text operation error) m"

section \<open>Thread profiling (thread_profile.c)\<close>

text \<open>\<open>Inl\<close> is the error of the call, \<open>Inr\<close> the handle of the profile.\<close>

definition perfidious_windows_thread_profile_enable ::
  "'k windows_os \<Rightarrow> u64 \<Rightarrow> ('k, 'z) wmachine \<Rightarrow> (u32 + nat) \<times> ('k, 'z) wmachine" where
  "perfidious_windows_thread_profile_enable os hardware_counter_mask m =
     (case win_EnableThreadProfiling os hardware_counter_mask (kernel m) of
        (r, k) \<Rightarrow> (r, win_logged (EvEnableThreadProfiling hardware_counter_mask r) k m))"

text \<open>Hardware counters are asked for only when some are selected; \<open>Inl\<close> is the error.\<close>

definition perfidious_windows_thread_profile_read ::
  "'k windows_os \<Rightarrow> nat \<Rightarrow> u64 \<Rightarrow> ('k, 'z) wmachine \<Rightarrow> (u32 + performance_data) \<times> ('k, 'z) wmachine" where
  "perfidious_windows_thread_profile_read os h hardware_counter_mask m =
     (case win_ReadThreadProfilingData os h (hardware_counter_mask \<noteq> 0) (kernel m) of
        ((error, data), k) \<Rightarrow>
          (if error \<noteq> ERROR_SUCCESS then Inl error else Inr data,
           win_logged (EvReadThreadProfilingData h error) k m))"

definition perfidious_windows_thread_profile_disable ::
  "'k windows_os \<Rightarrow> nat \<Rightarrow> ('k, 'z) wmachine \<Rightarrow> u32 \<times> ('k, 'z) wmachine" where
  "perfidious_windows_thread_profile_disable os h m =
     (case win_DisableThreadProfiling os h (kernel m) of
        (error, k) \<Rightarrow> (error, win_logged (EvDisableThreadProfiling h error) k m))"

section \<open>Handles in use\<close>

datatype windows_handle = ThreadHandle nat | ProfileHandle nat

text \<open>A handle is in use from the call that created it until it is given back. A profile that
  Windows refuses to disable stays in use only for code that looks at the refusal; the sampler does not,
  so giving back counts here whatever the call returned.\<close>

fun in_use :: "windows_event list \<Rightarrow> windows_handle multiset" where
  "in_use [] = {#}"
| "in_use (EvDuplicateHandle (Some h) # t) = add_mset (ThreadHandle h) (in_use t)"
| "in_use (EvCloseHandle h # t) = in_use t - {#ThreadHandle h#}"
| "in_use (EvEnableThreadProfiling v (Inr h) # t) = add_mset (ProfileHandle h) (in_use t)"
| "in_use (EvDisableThreadProfiling h e # t) = in_use t - {#ProfileHandle h#}"
| "in_use (ev # t) = in_use t"

lemma win_call_simps [simp]:
  "trace (snd (win_call f m)) = trace m" "exceptions (snd (win_call f m)) = exceptions m"
  by (simp_all add: win_call_def split: prod.splits)

lemma win_logged_simps [simp]:
  "trace (win_logged ev k m) = ev # trace m" "exceptions (win_logged ev k m) = exceptions m"
  "kernel (win_logged ev k m) = k"
  by (simp_all add: win_logged_def)

lemma throw_error_simps [simp]:
  "trace (perfidious_windows_throw_error op e m) = trace m"
  "diagnosed m' (perfidious_windows_throw_error op e m) \<longleftrightarrow> exceptions m = exceptions m'"
  by (auto simp: perfidious_windows_throw_error_def diagnosed_def)

lemma close_handle_simps [simp]:
  "trace (close_handle os h m) = EvCloseHandle h # trace m" "exceptions (close_handle os h m) = exceptions m"
  by (simp_all add: close_handle_def)

lemma profile_disable_simps [simp]:
  "in_use (trace (snd (perfidious_windows_thread_profile_disable os h m))) = in_use (trace m) - {#ProfileHandle h#}"
  "exceptions (snd (perfidious_windows_thread_profile_disable os h m)) = exceptions m"
  by (simp_all add: perfidious_windows_thread_profile_disable_def split: prod.splits)

lemma profile_read_simps [simp]:
  "in_use (trace (snd (perfidious_windows_thread_profile_read os h v m))) = in_use (trace m)"
  "exceptions (snd (perfidious_windows_thread_profile_read os h v m)) = exceptions m"
  by (simp_all add: perfidious_windows_thread_profile_read_def split: prod.splits)

lemma filetime_halves:
  "uint (perfidious_windows_filetime_to_uint64 v) = uint (dwLowDateTime v) + 2 ^ 32 * uint (dwHighDateTime v)"
proof -
  let ?l = "ucast (dwLowDateTime v) :: u64" and ?h = "push_bit 32 (ucast (dwHighDateTime v)) :: u64"
  have l: "uint ?l = uint (dwLowDateTime v)" by (rule uint_up_ucast) (simp add: is_up)
  have "uint (ucast (dwHighDateTime v) :: u64) = uint (dwHighDateTime v)" by (rule uint_up_ucast) (simp add: is_up)
  moreover have hb: "uint (dwHighDateTime v) < 2 ^ 32" "uint (dwLowDateTime v) < 2 ^ 32"
    using unsigned_less [of "dwHighDateTime v"] unsigned_less [of "dwLowDateTime v"] by simp_all
  ultimately have h: "uint ?h = 2 ^ 32 * uint (dwHighDateTime v)"
    by (simp add: push_bit_eq_mult uint_word_ariths mult.commute)
  have low: "n < 32" if "bit (dwLowDateTime v) n" for n
    using bit_imp_le_length [OF that] by simp
  have "?l OR ?h = ?l + ?h"
    by (rule disjunctive_add_eq_or [symmetric])
      (auto intro!: bit_eqI simp: bit_and_iff bit_push_bit_iff bit_ucast_iff bit_simps dest!: low)
  then have "uint (perfidious_windows_filetime_to_uint64 v) = (uint ?l + uint ?h) mod 2 ^ 64"
    by (simp add: perfidious_windows_filetime_to_uint64_def uint_word_ariths)
  also have "\<dots> = uint ?l + uint ?h"
    unfolding l h using hb by (intro mod_pos_pos_trivial) simp_all
  finally show ?thesis by (simp only: l h)
qed

end
