(* ===== verification/Windows_Sampler.thy ===== *)
theory Windows_Sampler
  imports Windows_Os
begin

text \<open>
  The Windows backend of the sampler (\<open>src/windows/sampler.c\<close>): process and thread times, page
  faults and context switches counted in 32 bits and unrolled to 64, cycle counts.
\<close>

section \<open>Data\<close>

definition PERFIDIOUS_WINDOWS_THREAD_PROFILE_METRICS :: u32 where
  "PERFIDIOUS_WINDOWS_THREAD_PROFILE_METRICS =
     PERFIDIOUS_METRIC_MASK PERFIDIOUS_METRIC_CONTEXT_SWITCHES OR PERFIDIOUS_METRIC_MASK PERFIDIOUS_METRIC_CPU_CYCLES"

record windows_platform_sampler =
  ws_metrics :: u32
  ws_scope :: perfidious_scope_id
  ws_thread_id :: u32
  ws_thread_handle :: "nat option"
  ws_profile_handle :: "nat option"
  ws_previous_page_faults :: u32
  ws_page_fault_base :: u64
  ws_previous_context_switches :: u32
  ws_context_switch_base :: u64

section \<open>Opening and closing\<close>

definition windows_sampler_supported_metrics ::
  "u32 \<Rightarrow> perfidious_scope_id \<Rightarrow> 'm \<Rightarrow> u32 option \<times> 'm" where
  "windows_sampler_supported_metrics requested_metrics scope m =
     (case scope of
        PERFIDIOUS_SCOPE_CURRENT_PROCESS \<Rightarrow>
          (Some (PERFIDIOUS_METRIC_MASK PERFIDIOUS_METRIC_CPU_TIME OR PERFIDIOUS_METRIC_MASK PERFIDIOUS_METRIC_PAGE_FAULTS
                 OR PERFIDIOUS_METRIC_MASK PERFIDIOUS_METRIC_CPU_CYCLES), m)
      | PERFIDIOUS_SCOPE_CURRENT_THREAD \<Rightarrow>
          (Some (PERFIDIOUS_METRIC_MASK PERFIDIOUS_METRIC_CPU_TIME OR PERFIDIOUS_WINDOWS_THREAD_PROFILE_METRICS), m))"

definition windows_sampler_open ::
  "'k windows_os \<Rightarrow> u32 \<Rightarrow> perfidious_scope_id \<Rightarrow> ('k, 'z) wmachine
    \<Rightarrow> windows_platform_sampler option \<times> ('k, 'z) wmachine" where
  "windows_sampler_open os metrics scope m =
     (let result = \<lparr>ws_metrics = metrics, ws_scope = scope, ws_thread_id = 0, ws_thread_handle = None,
            ws_profile_handle = None, ws_previous_page_faults = 0, ws_page_fault_base = 0,
            ws_previous_context_switches = 0, ws_context_switch_base = 0\<rparr>
      in if scope \<noteq> PERFIDIOUS_SCOPE_CURRENT_THREAD then (Some result, m)
         else case duplicate_current_thread os m of
           (None, m1) \<Rightarrow> (None, perfidious_windows_throw_error ''DuplicateHandle'' (last_error os m1) m1)
         | (Some h, m1) \<Rightarrow>
             (let result1 = result\<lparr>ws_thread_handle := Some h, ws_thread_id := win_GetCurrentThreadId os (kernel m1)\<rparr>
              in if metrics AND PERFIDIOUS_WINDOWS_THREAD_PROFILE_METRICS = 0 then (Some result1, m1)
                 else case perfidious_windows_thread_profile_enable os 0 m1 of
                   (Inl error, m2) \<Rightarrow>
                     (let m3 = close_handle os h m2
                      in (None, if error = ERROR_WMI_ALREADY_ENABLED
                                then zend_throw_exception ResourceBusyException (uint error)
                                       (windows_error_text ''EnableThreadProfiling'' error) m3
                                else perfidious_windows_throw_error ''EnableThreadProfiling'' error m3))
                 | (Inr profile, m2) \<Rightarrow> (Some (result1\<lparr>ws_profile_handle := Some profile\<rparr>), m2)))"

definition windows_sampler_close :: "'k windows_os \<Rightarrow> windows_platform_sampler \<Rightarrow> ('k, 'z) wmachine \<Rightarrow> ('k, 'z) wmachine" where
  "windows_sampler_close os s m =
     (let m1 = (case ws_profile_handle s of
                  None \<Rightarrow> m | Some h \<Rightarrow> snd (perfidious_windows_thread_profile_disable os h m))
      in case ws_thread_handle s of None \<Rightarrow> m1 | Some h \<Rightarrow> close_handle os h m1)"

section \<open>Reading\<close>

definition windows_wrong_thread :: "('k, 'z) wmachine \<Rightarrow> ('k, 'z) wmachine" where
  "windows_wrong_thread m = zend_throw_exception WrongThreadException 0
     ''Windows current-thread sampler must be read from the thread that opened it'' m"

text \<open>The checks of a thread sampler, and its profile data. \<open>None\<close> as the data is the local variable
  that was not written. The handles of a thread sampler are never \<open>NULL\<close>; \<open>0\<close> stands for one that
  is.\<close>

definition windows_read_thread ::
  "'k windows_os \<Rightarrow> windows_platform_sampler \<Rightarrow> ('k, 'z) wmachine
    \<Rightarrow> performance_data option option \<times> ('k, 'z) wmachine" where
  "windows_read_thread os s m =
     (if ws_scope s \<noteq> PERFIDIOUS_SCOPE_CURRENT_THREAD then (Some None, m)
      else if ws_thread_id s \<noteq> win_GetCurrentThreadId os (kernel m) then (None, windows_wrong_thread m)
      else case win_call (win_WaitForSingleObject os (case ws_thread_handle s of None \<Rightarrow> 0 | Some h \<Rightarrow> h)) m of
        (wait_result, m1) \<Rightarrow>
          if wait_result = WAIT_FAILED
          then (None, perfidious_windows_throw_error ''WaitForSingleObject'' (last_error os m1) m1)
          else if wait_result \<noteq> WAIT_TIMEOUT then (None, windows_wrong_thread m1)
          else if ws_metrics s AND PERFIDIOUS_WINDOWS_THREAD_PROFILE_METRICS = 0 then (Some None, m1)
          else case perfidious_windows_thread_profile_read os
                      (case ws_profile_handle s of None \<Rightarrow> 0 | Some h \<Rightarrow> h) 0 m1 of
            (Inl error, m2) \<Rightarrow> (None, perfidious_windows_throw_error ''ReadThreadProfilingData'' error m2)
          | (Inr data, m2) \<Rightarrow> (Some (Some data), m2))"

definition windows_cpu_time_ns :: "u64 \<Rightarrow> u64 \<Rightarrow> string + u64" where
  "windows_cpu_time_ns kernel_time_100ns user_time_100ns =
     (if UINT64_MAX - user_time_100ns < kernel_time_100ns then Inl ''Windows total CPU time overflow''
      else let total_time_100ns = kernel_time_100ns + user_time_100ns
           in if UINT64_MAX div 100 < total_time_100ns then Inl ''Windows CPU nanosecond conversion overflow''
              else Inr (total_time_100ns * 100))"

definition windows_read_cpu_time ::
  "'k windows_os \<Rightarrow> windows_platform_sampler \<Rightarrow> ('k, 'z) wmachine \<Rightarrow> u64 option \<times> ('k, 'z) wmachine" where
  "windows_read_cpu_time os s m =
     (let process = (ws_scope s = PERFIDIOUS_SCOPE_CURRENT_PROCESS);
          operation = (if process then ''GetProcessTimes'' else ''GetThreadTimes'')
      in case win_call (if process then win_GetProcessTimes os else win_GetThreadTimes os (ws_thread_handle s)) m of
           (None, m1) \<Rightarrow> (None, perfidious_windows_throw_error operation (last_error os m1) m1)
         | (Some t, m1) \<Rightarrow>
             (case windows_cpu_time_ns (perfidious_windows_filetime_to_uint64 (kernel_time t))
                     (perfidious_windows_filetime_to_uint64 (user_time t)) of
                Inl msg \<Rightarrow> (None, zend_throw_exception OverflowException 0 msg m1)
              | Inr ns \<Rightarrow> (Some ns, m1)))"

text \<open>Unrolling a 32-bit count: the base after a reading, or nothing when it would not fit.\<close>

definition wrapped_base :: "u32 \<Rightarrow> u32 \<Rightarrow> u64 \<Rightarrow> u64 option" where
  "wrapped_base current previous base =
     (if current < previous
      then if UINT64_MAX - 0x100000000 < base then None else Some (base + 0x100000000)
      else Some base)"

text \<open>Page faults are committed to the sampler at once.\<close>

definition windows_read_page_faults ::
  "'k windows_os \<Rightarrow> windows_platform_sampler \<Rightarrow> ('k, 'z) wmachine
    \<Rightarrow> (u64 \<times> windows_platform_sampler) option \<times> ('k, 'z) wmachine" where
  "windows_read_page_faults os s m =
     (case win_call (win_GetProcessMemoryInfo os) m of
        (None, m1) \<Rightarrow> (None, perfidious_windows_throw_error ''GetProcessMemoryInfo'' (last_error os m1) m1)
      | (Some memory, m1) \<Rightarrow>
          (case wrapped_base (PageFaultCount memory) (ws_previous_page_faults s) (ws_page_fault_base s) of
             None \<Rightarrow> (None, zend_throw_exception OverflowException 0 ''Windows page-fault count overflow'' m1)
           | Some base \<Rightarrow>
               (Some (base + ucast (PageFaultCount memory),
                  s\<lparr>ws_page_fault_base := base, ws_previous_page_faults := PageFaultCount memory\<rparr>), m1)))"

definition windows_read_cycles ::
  "'k windows_os \<Rightarrow> windows_platform_sampler \<Rightarrow> performance_data \<Rightarrow> ('k, 'z) wmachine \<Rightarrow> u64 option \<times> ('k, 'z) wmachine" where
  "windows_read_cycles os s profile_data m =
     (if ws_scope s = PERFIDIOUS_SCOPE_CURRENT_PROCESS
      then case win_call (win_QueryProcessCycleTime os) m of
             (None, m1) \<Rightarrow> (None, perfidious_windows_throw_error ''QueryProcessCycleTime'' (last_error os m1) m1)
           | (Some cycle_time, m1) \<Rightarrow> (Some cycle_time, m1)
      else (Some (pd_CycleTime profile_data), m))"

definition windows_context_switches ::
  "windows_platform_sampler \<Rightarrow> performance_data \<Rightarrow> ('k, 'z) wmachine
    \<Rightarrow> (u64 \<times> windows_platform_sampler) option \<times> ('k, 'z) wmachine" where
  "windows_context_switches s profile_data m =
     (case wrapped_base (pd_ContextSwitchCount profile_data) (ws_previous_context_switches s) (ws_context_switch_base s) of
        None \<Rightarrow> (None, zend_throw_exception OverflowException 0 ''Windows context-switch count overflow'' m)
      | Some base \<Rightarrow>
          (Some (base + ucast (pd_ContextSwitchCount profile_data),
             s\<lparr>ws_context_switch_base := base,
               ws_previous_context_switches := pd_ContextSwitchCount profile_data\<rparr>), m))"

text \<open>One metric after the other, each only when it was requested. A failure after the page faults
  keeps what they committed; the context switches are committed with the success.\<close>

definition windows_read_metrics ::
  "'k windows_os \<Rightarrow> windows_platform_sampler \<Rightarrow> performance_data \<Rightarrow> ('k, 'z) wmachine
    \<Rightarrow> snapshot option \<times> windows_platform_sampler \<times> ('k, 'z) wmachine" where
  "windows_read_metrics os s profile_data m =
     (let requested = (\<lambda>metric. ws_metrics s AND PERFIDIOUS_METRIC_MASK metric \<noteq> 0)
      in case (if requested PERFIDIOUS_METRIC_CPU_TIME then windows_read_cpu_time os s m else (Some 0, m)) of
           (None, m1) \<Rightarrow> (None, s, m1)
         | (Some cpu_time, m1) \<Rightarrow>
             (case (if requested PERFIDIOUS_METRIC_PAGE_FAULTS then windows_read_page_faults os s m1
                    else (Some (0, s), m1)) of
                (None, m2) \<Rightarrow> (None, s, m2)
              | (Some (page_faults, s1), m2) \<Rightarrow>
                  (case (if requested PERFIDIOUS_METRIC_CONTEXT_SWITCHES
                         then windows_context_switches s1 profile_data m2 else (Some (0, s1), m2)) of
                     (None, m3) \<Rightarrow> (None, s1, m3)
                   | (Some (context_switches, s2), m3) \<Rightarrow>
                       (case (if requested PERFIDIOUS_METRIC_CPU_CYCLES
                              then windows_read_cycles os s profile_data m3 else (Some 0, m3)) of
                          (None, m4) \<Rightarrow> (None, s1, m4)
                        | (Some cycles, m4) \<Rightarrow>
                            (Some ((\<lambda>_. 0)(PERFIDIOUS_METRIC_CPU_TIME := cpu_time,
                                PERFIDIOUS_METRIC_PAGE_FAULTS := page_faults,
                                PERFIDIOUS_METRIC_CONTEXT_SWITCHES := context_switches,
                                PERFIDIOUS_METRIC_CPU_CYCLES := cycles)), s2, m4)))))"

definition windows_sampler_read ::
  "'k windows_os \<Rightarrow> windows_platform_sampler \<Rightarrow> ('k, 'z) wmachine
    \<Rightarrow> (snapshot option \<times> windows_platform_sampler \<times> ('k, 'z) wmachine) option" where
  "windows_sampler_read os s m =
     Some (case windows_read_thread os s m of
        (None, m1) \<Rightarrow> (None, s, m1)
      | (Some data, m1) \<Rightarrow>
          windows_read_metrics os s (case data of None \<Rightarrow> win_unwritten os | Some d \<Rightarrow> d) m1)"

definition windows_backend :: "'k windows_os \<Rightarrow> (('k, 'z) wmachine, windows_platform_sampler) sampler_backend" where
  "windows_backend os = \<lparr>
     platform_sampler_supported_metrics = windows_sampler_supported_metrics,
     platform_sampler_open = windows_sampler_open os,
     platform_sampler_read = windows_sampler_read os,
     platform_sampler_close = windows_sampler_close os,
     hrtime_current = win_call (win_hrtime os)\<rparr>"

section \<open>The Windows backend meets the contract\<close>

definition windows_owned :: "windows_platform_sampler \<Rightarrow> windows_handle multiset" where
  "windows_owned s =
     (case ws_thread_handle s of None \<Rightarrow> {#} | Some h \<Rightarrow> {#ThreadHandle h#}) +
     (case ws_profile_handle s of None \<Rightarrow> {#} | Some h \<Rightarrow> {#ProfileHandle h#})"

lemma win_call_result [simp]:
  "win_call f m = (r, m') \<Longrightarrow> trace m' = trace m \<and> exceptions m' = exceptions m"
  using win_call_simps [of f m] by simp

lemma profile_read_result:
  "perfidious_windows_thread_profile_read os h v m = (r, m') \<Longrightarrow>
     in_use (trace m') = in_use (trace m) \<and> exceptions m' = exceptions m"
  using profile_read_simps [of os h v m] by simp

lemmas windows_reports_defs = diagnosed_def perfidious_windows_throw_error_def windows_wrong_thread_def

lemma windows_read_reports:
  "reports (\<lambda>m. in_use (trace m)) (windows_read_thread os s)"
  "reports (\<lambda>m. in_use (trace m)) (windows_read_cpu_time os s)"
  "reports (\<lambda>m. in_use (trace m)) (windows_read_page_faults os s)"
  "reports (\<lambda>m. in_use (trace m)) (windows_context_switches s d)"
  "reports (\<lambda>m. in_use (trace m)) (windows_read_cycles os s d)"
proof -
  show "reports (\<lambda>m. in_use (trace m)) (windows_read_thread os s)"
    unfolding reports_def
    by (auto simp: windows_read_thread_def windows_reports_defs
        split: if_splits prod.splits sum.splits dest!: profile_read_result win_call_result)
  show "reports (\<lambda>m. in_use (trace m)) (windows_read_cpu_time os s)"
    unfolding reports_def
    by (auto simp: windows_read_cpu_time_def Let_def windows_reports_defs
        split: prod.splits option.splits sum.splits dest!: win_call_result)
  show "reports (\<lambda>m. in_use (trace m)) (windows_read_page_faults os s)"
    unfolding reports_def
    by (auto simp: windows_read_page_faults_def windows_reports_defs
        split: prod.splits option.splits dest!: win_call_result)
  show "reports (\<lambda>m. in_use (trace m)) (windows_context_switches s d)"
    unfolding reports_def by (auto simp: windows_context_switches_def diagnosed_def split: option.splits)
  show "reports (\<lambda>m. in_use (trace m)) (windows_read_cycles os s d)"
    unfolding reports_def
    by (auto simp: windows_read_cycles_def windows_reports_defs split: if_splits prod.splits option.splits dest!: win_call_result)
qed


lemma windows_commits_owned:
  "windows_read_page_faults os s m = (Some (v, s1), m1) \<Longrightarrow> windows_owned s1 = windows_owned s"
  "windows_context_switches s d m = (Some (v, s1), m1) \<Longrightarrow> windows_owned s1 = windows_owned s"
  by (auto simp: windows_read_page_faults_def windows_context_switches_def windows_owned_def
      split: prod.splits option.splits)

text \<open>A step of the read that runs only when its metric was requested.\<close>

lemma requested_step:
  assumes "(if b then f m else (Some z, m)) = (r, m')" and "reports resources f"
  shows "resources m' = resources m \<and> (if r = None then diagnosed m m' else exceptions m' = exceptions m)"
  using assms reportsD [OF assms(2), of m r m'] by (cases b) auto

lemma windows_read_metrics_run:
  assumes "windows_read_metrics os s pd m = (r, s', m')"
  shows "in_use (trace m') = in_use (trace m) \<and> windows_owned s' = windows_owned s \<and>
    (if r = None then diagnosed m m' else exceptions m' = exceptions m)"
proof -
  note rep = windows_read_reports
  let ?q = "\<lambda>a. ws_metrics s AND PERFIDIOUS_METRIC_MASK a \<noteq> 0"
  obtain c m2 where c: "(if ?q PERFIDIOUS_METRIC_CPU_TIME then windows_read_cpu_time os s m else (Some 0, m)) = (c, m2)"
    by (metis surj_pair)
  note c' = requested_step [OF c rep(2)]
  obtain p m3 where p: "(if ?q PERFIDIOUS_METRIC_PAGE_FAULTS then windows_read_page_faults os s m2
      else (Some (0, s), m2)) = (p, m3)" by (metis surj_pair)
  note p' = requested_step [OF p rep(3)]
  have own1: "windows_owned s1 = windows_owned s" if "p = Some (v, s1)" for v s1
    using p that windows_commits_owned(1) by (auto split: if_splits)
  show ?thesis
  proof (cases "c = None \<or> p = None")
    case True
    with assms c p c' p' show ?thesis
      by (cases c; cases p) (auto simp: windows_read_metrics_def Let_def diagnosed_def)
  next
    case False
    then obtain cv pv s1 where cp: "c = Some cv" "p = Some (pv, s1)" by auto
    obtain x m4 where x: "(if ?q PERFIDIOUS_METRIC_CONTEXT_SWITCHES then windows_context_switches s1 pd m3
        else (Some (0, s1), m3)) = (x, m4)" by (metis surj_pair)
    note x' = requested_step [OF x rep(4)]
    have own2: "windows_owned s2 = windows_owned s" if "x = Some (v, s2)" for v s2
      using x that windows_commits_owned(2) own1 cp by (fastforce split: if_splits)
    obtain y m5 where y: "(if ?q PERFIDIOUS_METRIC_CPU_CYCLES then windows_read_cycles os s pd m4
        else (Some 0, m4)) = (y, m5)" by (metis surj_pair)
    note y' = requested_step [OF y rep(5)]
    have eq: "windows_read_metrics os s pd m = (case x of
        None \<Rightarrow> (None, s1, m4)
      | Some (xv, s2) \<Rightarrow> (case y of
          None \<Rightarrow> (None, s1, m5)
        | Some yv \<Rightarrow> (Some ((\<lambda>_. 0)(PERFIDIOUS_METRIC_CPU_TIME := cv, PERFIDIOUS_METRIC_PAGE_FAULTS := pv,
            PERFIDIOUS_METRIC_CONTEXT_SWITCHES := xv, PERFIDIOUS_METRIC_CPU_CYCLES := yv)), s2, m5)))"
      unfolding windows_read_metrics_def Let_def prod.case option.case c p cp x y by (rule refl)
    show ?thesis
      using assms eq own1 own2 cp c' p' x' y'
      by (auto simp: diagnosed_def split: option.splits prod.splits)
  qed
qed

lemma windows_read_run:
  assumes "windows_sampler_read os s m = Some (r, s', m')"
  shows "in_use (trace m') = in_use (trace m) \<and> windows_owned s' = windows_owned s \<and>
    (if r = None then diagnosed m m' else exceptions m' = exceptions m)"
proof -
  obtain d m1 where t: "windows_read_thread os s m = (d, m1)" by fastforce
  note t' = reportsD [OF windows_read_reports(1) t]
  show ?thesis
  proof (cases d)
    case None
    with assms t t' show ?thesis by (simp add: windows_sampler_read_def)
  next
    case (Some dat)
    then have "windows_read_metrics os s (case dat of None \<Rightarrow> win_unwritten os | Some d \<Rightarrow> d) m1 = (r, s', m')"
      using assms t by (simp add: windows_sampler_read_def)
    from windows_read_metrics_run [OF this] t' Some show ?thesis by (auto simp: diagnosed_def split: if_splits)
  qed
qed

lemma windows_open_run:
  assumes "windows_sampler_open os v scope m = (so, m')"
  shows "case so of
      Some s \<Rightarrow> in_use (trace m') = in_use (trace m) + windows_owned s \<and> exceptions m' = exceptions m
    | None \<Rightarrow> in_use (trace m') = in_use (trace m) \<and> diagnosed m m'"
proof (cases "scope = PERFIDIOUS_SCOPE_CURRENT_THREAD")
  case False
  with assms show ?thesis by (auto simp: windows_sampler_open_def windows_owned_def)
next
  case True
  obtain h k where d: "win_DuplicateHandle os (kernel m) = (h, k)" by fastforce
  let ?m1 = "win_logged (EvDuplicateHandle h) k m"
  obtain r k2 where e: "win_EnableThreadProfiling os 0 k = (r, k2)" by fastforce
  show ?thesis
    using assms True d e
    by (cases h; cases r)
      (auto simp: windows_sampler_open_def Let_def duplicate_current_thread_def windows_owned_def
        perfidious_windows_thread_profile_enable_def windows_reports_defs split: if_splits)
qed

interpretation windows: platform_sampler "windows_backend os" "\<lambda>m. in_use (trace m)" windows_owned
proof (unfold_locales, goal_cases)
  case 1
  then show ?case by simp
next
  case 2
  then show ?case
    by (auto simp: windows_backend_def windows_sampler_supported_metrics_def split: perfidious_scope_id.splits)
next
  case 3
  then show ?case by (auto simp: windows_backend_def dest!: windows_open_run)
next
  case 4
  then show ?case by (auto simp: windows_backend_def dest!: windows_open_run)
next
  case 5
  then show ?case by (intro windows_read_run) (simp add: windows_backend_def)
next
  case (6 s m)
  then show ?case
    by (cases "ws_profile_handle s"; cases "ws_thread_handle s")
      (simp_all add: windows_backend_def windows_sampler_close_def windows_owned_def Let_def add_mset_commute)
next
  case 7
  then show ?case by (auto simp: windows_backend_def)
qed

end
