(* ===== verification/Windows_Functions.thy ===== *)
theory Windows_Functions
  imports Windows_Os
begin

text \<open>
  The functions and the class \<open>ThreadProfile\<close> of \<open>src/windows/functions.c\<close>. The objects of the
  class are kept in a map; \<open>next_profile\<close> and above are unused.
\<close>

section \<open>State\<close>

definition PERFIDIOUS_WINDOWS_HARDWARE_COUNTER_MASK_MAX :: zend_long where
  "PERFIDIOUS_WINDOWS_HARDWARE_COUNTER_MASK_MAX = 0xffff"

record thread_profile_obj =
  tp_handle :: "nat option"
  tp_hardware_counter_mask :: u64
  tp_cycle_time_origin :: u64
  tp_hardware_counter_origins :: "nat \<Rightarrow> u64"

record 'k windows_process = "('k, windows_event) machine" +
  profiles :: "nat \<rightharpoonup> thread_profile_obj"
  next_profile :: nat

definition windows_class :: "string \<Rightarrow> string" where
  "windows_class s = ''Windows'' @ [CHR 0x5C] @ s"

section \<open>Conversion\<close>

definition windows_overflow_message :: "u64 \<Rightarrow> string" where
  "windows_overflow_message v =
     ''Windows counter value '' @ show_hex64 v @ '' is too large to represent as a PHP integer''"

definition perfidious_windows_uint64_to_zend_long ::
  "u64 \<Rightarrow> ('k, 'e, 'z) machine_scheme \<Rightarrow> zend_long option \<times> ('k, 'e, 'z) machine_scheme" where
  "perfidious_windows_uint64_to_zend_long v m =
     (if to_u64 ZEND_LONG_MAX < v
      then (None, zend_throw_exception OverflowException 0 (windows_overflow_message v) m)
      else (Some (sint v), m))"

interpretation windows_to_long: checked_to_long perfidious_windows_uint64_to_zend_long windows_overflow_message
  by unfold_locales
    (simp_all add: perfidious_windows_uint64_to_zend_long_def zend_long_max_guard sint_eq_uint_64)

text \<open>An object of a result class with its integer properties, in the order of the updates.\<close>

definition result_object :: "string \<Rightarrow> string list \<Rightarrow> zend_long list \<Rightarrow> zval" where
  "result_object cls names vals = ZObject (windows_class cls) (zip names (map ZLong vals))"

text \<open>Converting a list of values and making the object of them; nothing is returned when one does not
  fit.\<close>

definition convert_to_object ::
  "string \<Rightarrow> string list \<Rightarrow> u64 list \<Rightarrow> ('k, 'z) wmachine \<Rightarrow> zval \<times> ('k, 'z) wmachine" where
  "convert_to_object cls names vals m =
     (case convert_chain (map perfidious_windows_uint64_to_zend_long vals) m of
        (None, m1) \<Rightarrow> (ZNull, m1)
      | (Some longs, m1) \<Rightarrow> (result_object cls names longs, m1))"

section \<open>Cycle times\<close>

definition query_cycle_time ::
  "'k windows_os \<Rightarrow> string \<Rightarrow> ('k \<Rightarrow> u64 option \<times> 'k) \<Rightarrow> ('k, 'z) wmachine \<Rightarrow> zval \<times> ('k, 'z) wmachine" where
  "query_cycle_time os operation query m =
     (case win_call query m of
        (None, m1) \<Rightarrow> (ZNull, perfidious_windows_throw_error operation (last_error os m1) m1)
      | (Some v, m1) \<Rightarrow>
          (case perfidious_windows_uint64_to_zend_long v m1 of
             (None, m2) \<Rightarrow> (ZNull, m2)
           | (Some result, m2) \<Rightarrow> (ZLong result, m2)))"

definition query_current_process_cycle_time :: "'k windows_os \<Rightarrow> ('k, 'z) wmachine \<Rightarrow> zval \<times> ('k, 'z) wmachine" where
  "query_current_process_cycle_time os m = query_cycle_time os ''QueryProcessCycleTime'' (win_QueryProcessCycleTime os) m"

definition query_current_thread_cycle_time :: "'k windows_os \<Rightarrow> ('k, 'z) wmachine \<Rightarrow> zval \<times> ('k, 'z) wmachine" where
  "query_current_thread_cycle_time os m = query_cycle_time os ''QueryThreadCycleTime'' (win_QueryThreadCycleTime os) m"

section \<open>Times and memory\<close>

definition times_object ::
  "'k windows_os \<Rightarrow> string \<Rightarrow> string \<Rightarrow> ('k \<Rightarrow> windows_times option \<times> 'k) \<Rightarrow> ('k, 'z) wmachine
    \<Rightarrow> zval \<times> ('k, 'z) wmachine" where
  "times_object os operation cls query m =
     (case win_call query m of
        (None, m1) \<Rightarrow> (ZNull, perfidious_windows_throw_error operation (last_error os m1) m1)
      | (Some t, m1) \<Rightarrow>
          convert_to_object cls [''creationTimeFiletime'', ''kernelTime100ns'', ''userTime100ns'']
            (map perfidious_windows_filetime_to_uint64 [creation_time t, kernel_time t, user_time t]) m1)"

definition get_current_process_times :: "'k windows_os \<Rightarrow> ('k, 'z) wmachine \<Rightarrow> zval \<times> ('k, 'z) wmachine" where
  "get_current_process_times os m = times_object os ''GetProcessTimes'' ''ProcessTimes'' (win_GetProcessTimes os) m"

definition get_current_thread_times :: "'k windows_os \<Rightarrow> ('k, 'z) wmachine \<Rightarrow> zval \<times> ('k, 'z) wmachine" where
  "get_current_thread_times os m = times_object os ''GetThreadTimes'' ''ThreadTimes'' (win_GetThreadTimes os None) m"

definition get_current_process_memory_info :: "'k windows_os \<Rightarrow> ('k, 'z) wmachine \<Rightarrow> zval \<times> ('k, 'z) wmachine" where
  "get_current_process_memory_info os m =
     (case win_call (win_GetProcessMemoryInfo os) m of
        (None, m1) \<Rightarrow> (ZNull, perfidious_windows_throw_error ''GetProcessMemoryInfo'' (last_error os m1) m1)
      | (Some memory, m1) \<Rightarrow>
          convert_to_object ''ProcessMemoryInfo''
            [''pageFaultCount'', ''peakWorkingSetSize'', ''workingSetSize'', ''quotaPeakPagedPoolUsage'',
             ''quotaPagedPoolUsage'', ''quotaPeakNonPagedPoolUsage'', ''quotaNonPagedPoolUsage'', ''pagefileUsage'',
             ''peakPagefileUsage'', ''privateUsage'']
            [ucast (PageFaultCount memory), PeakWorkingSetSize memory, WorkingSetSize memory,
             QuotaPeakPagedPoolUsage memory, QuotaPagedPoolUsage memory, QuotaPeakNonPagedPoolUsage memory,
             QuotaNonPagedPoolUsage memory, PagefileUsage memory, PeakPagefileUsage memory, PrivateUsage memory] m1)"

section \<open>Thread profiles\<close>

definition perfidious_windows_thread_profile_obj_create ::
  "'k windows_process \<Rightarrow> nat \<times> 'k windows_process" where
  "perfidious_windows_thread_profile_obj_create p =
     (next_profile p,
      p\<lparr>profiles := (profiles p)(next_profile p \<mapsto>
          \<lparr>tp_handle = None, tp_hardware_counter_mask = 0, tp_cycle_time_origin = 0,
           tp_hardware_counter_origins = (\<lambda>_. 0)\<rparr>), next_profile := Suc (next_profile p)\<rparr>)"

definition perfidious_windows_thread_profile_obj_free ::
  "'k windows_os \<Rightarrow> nat \<Rightarrow> 'k windows_process \<Rightarrow> 'k windows_process" where
  "perfidious_windows_thread_profile_obj_free os this p =
     (let p1 = (case profiles p this of
                  None \<Rightarrow> p
                | Some obj \<Rightarrow> (case tp_handle obj of
                                None \<Rightarrow> p | Some h \<Rightarrow> snd (perfidious_windows_thread_profile_disable os h p)))
      in p1\<lparr>profiles := (profiles p1)(this := None)\<rparr>)"

definition counter_enabled :: "u64 \<Rightarrow> nat \<Rightarrow> bool" where
  "counter_enabled mask' i \<longleftrightarrow> mask' AND push_bit i 1 \<noteq> 0"

text \<open>The indices of the loops over the hardware counters that the mask selects.\<close>

definition selected_counters :: "u64 \<Rightarrow> nat list" where
  "selected_counters mask' = filter (counter_enabled mask') [0..<MAX_HW_COUNTERS]"

text \<open>The new object, if any. The object exists before profiling is enabled, so that destroying it
  undoes everything.\<close>

definition enable_current_thread_profiling ::
  "'k windows_os \<Rightarrow> zend_long \<Rightarrow> 'k windows_process \<Rightarrow> nat option \<times> 'k windows_process" where
  "enable_current_thread_profiling os hardware_counters p =
     (if hardware_counters < 0 \<or> PERFIDIOUS_WINDOWS_HARDWARE_COUNTER_MASK_MAX < hardware_counters
      then (None, zend_throw_exception (ArgumentValueError 1) 0 ''must be between 0 and 65535'' p)
      else case perfidious_windows_thread_profile_obj_create p of (this, p1) \<Rightarrow>
        (case perfidious_windows_thread_profile_enable os (to_u64 hardware_counters) p1 of
           (Inl error, p2) \<Rightarrow>
             (let p3 = perfidious_windows_thread_profile_obj_free os this p2
              in (None, if error = ERROR_WMI_ALREADY_ENABLED
                        then zend_throw_exception ResourceBusyException (uint error)
                               (windows_error_text ''EnableThreadProfiling'' error) p3
                        else perfidious_windows_throw_error ''EnableThreadProfiling'' error p3))
         | (Inr h, p2) \<Rightarrow>
             (let set_obj = (\<lambda>obj q. q\<lparr>profiles := (profiles q)(this \<mapsto> obj)\<rparr>);
                  obj = \<lparr>tp_handle = Some h, tp_hardware_counter_mask = 0, tp_cycle_time_origin = 0,
                         tp_hardware_counter_origins = (\<lambda>_. 0)\<rparr>;
                  p3 = set_obj obj p2
              in case perfidious_windows_thread_profile_read os h (to_u64 hardware_counters) p3 of
                   (Inl error, p4) \<Rightarrow>
                     (None, perfidious_windows_throw_error ''ReadThreadProfilingData'' error
                              (perfidious_windows_thread_profile_obj_free os this p4))
                 | (Inr initial_data, p4) \<Rightarrow>
                     (Some this, set_obj
                        (obj\<lparr>tp_hardware_counter_mask := to_u64 hardware_counters,
                             tp_cycle_time_origin := pd_CycleTime initial_data,
                             tp_hardware_counter_origins := (\<lambda>i.
                               if i \<in> set (selected_counters (to_u64 hardware_counters))
                               then hw_Value (pd_HwCounters initial_data i) else 0)\<rparr>) p4))))"

definition hardware_counter_object :: "performance_data \<Rightarrow> nat \<Rightarrow> zend_long \<Rightarrow> zval" where
  "hardware_counter_object data i v =
     ZObject (windows_class ''HardwareCounterSnapshot'')
       [(''index'', ZLong (int i)), (''type'', ZLong (hw_Type (pd_HwCounters data i))), (''value'', ZLong v)]"

definition profile_snapshot :: "performance_data \<Rightarrow> zend_long \<Rightarrow> (nat \<times> zend_long) list \<Rightarrow> zval" where
  "profile_snapshot data cycle_time counters =
     ZObject (windows_class ''ThreadProfileSnapshot'')
       [(''contextSwitchCount'', ZLong (uint (pd_ContextSwitchCount data))),
        (''waitReasonBitmapHex'', ZString (show_hex64 (pd_WaitReasonBitMap data))),
        (''cycleCount'', ZLong cycle_time),
        (''readRetryCount'', ZLong (uint (pd_RetryCount data))),
        (''hardwareCounterCount'', ZLong (uint (pd_HwCountersCount data))),
        (''hardwareCounters'', ZArray (map (\<lambda>(i, v). (KInt (int i), hardware_counter_object data i v)) counters))]"

text \<open>All conversions run before the result is built: the cycles first, then the selected counters.\<close>

definition PerfidiousWindowsThreadProfile_read ::
  "'k windows_os \<Rightarrow> nat \<Rightarrow> 'k windows_process \<Rightarrow> (zval \<times> 'k windows_process) cval" where
  "PerfidiousWindowsThreadProfile_read os this p =
     (case profiles p this of
        None \<Rightarrow> Undefined
      | Some obj \<Rightarrow> Ret
          (case tp_handle obj of
             None \<Rightarrow> (ZNull, zend_throw_exception ClosedException 0 ''Thread profile is closed'' p)
           | Some h \<Rightarrow>
               (case perfidious_windows_thread_profile_read os h (tp_hardware_counter_mask obj) p of
                  (Inl error, p1) \<Rightarrow> (ZNull, perfidious_windows_throw_error ''ReadThreadProfilingData'' error p1)
                | (Inr data, p1) \<Rightarrow>
                    if MAX_HW_COUNTERS < unat (pd_HwCountersCount data)
                    then (ZNull, zend_throw_exception IOException 0 ''Windows returned too many hardware counters'' p1)
                    else (let is = selected_counters (tp_hardware_counter_mask obj)
                          in case convert_chain (map perfidious_windows_uint64_to_zend_long
                                    ((pd_CycleTime data - tp_cycle_time_origin obj) #
                                     map (\<lambda>i. hw_Value (pd_HwCounters data i) - tp_hardware_counter_origins obj i) is)) p1 of
                               (None, p2) \<Rightarrow> (ZNull, p2)
                             | (Some longs, p2) \<Rightarrow> (profile_snapshot data (hd longs) (zip is (tl longs)), p2)))))"

text \<open>A profile that Windows refuses to disable stays open, so closing can be tried again.\<close>

definition PerfidiousWindowsThreadProfile_close ::
  "'k windows_os \<Rightarrow> nat \<Rightarrow> 'k windows_process \<Rightarrow> 'k windows_process cval" where
  "PerfidiousWindowsThreadProfile_close os this p =
     (case profiles p this of
        None \<Rightarrow> Undefined
      | Some obj \<Rightarrow> Ret
          (case tp_handle obj of
             None \<Rightarrow> p
           | Some h \<Rightarrow>
               (case perfidious_windows_thread_profile_disable os h p of
                  (error, p1) \<Rightarrow>
                    if error \<noteq> ERROR_SUCCESS then perfidious_windows_throw_error ''DisableThreadProfiling'' error p1
                    else p1\<lparr>profiles := (profiles p1)(this \<mapsto> obj\<lparr>tp_handle := None\<rparr>)\<rparr>)))"

end
