(* ===== verification/Windows_Properties.thy ===== *)
theory Windows_Properties
  imports Windows_Sampler Windows_Functions
begin

text \<open>
  The properties of the Windows backend (\<open>src/windows\<close>).
\<close>

section \<open>A concrete system\<close>

text \<open>Every call succeeds; the counters are given by the time, which every call advances.\<close>

definition demo_performance_data :: "nat \<Rightarrow> performance_data" where
  "demo_performance_data t = \<lparr>pd_HwCountersCount = 2, pd_ContextSwitchCount = of_nat t, pd_WaitReasonBitMap = 0,
     pd_CycleTime = of_nat (1000 + 10 * t), pd_RetryCount = 0,
     pd_HwCounters = (\<lambda>i. \<lparr>hw_Type = 0, hw_Value = of_nat (i + t)\<rparr>)\<rparr>"

definition demo_filetime :: filetime where
  "demo_filetime = \<lparr>dwLowDateTime = 5, dwHighDateTime = 1\<rparr>"

definition demo_windows :: "nat windows_os" where
  "demo_windows = \<lparr>
     win_DuplicateHandle = (\<lambda>t. (Some 4, Suc t)),
     win_CloseHandle = (\<lambda>h t. Suc t),
     win_EnableThreadProfiling = (\<lambda>v t. (Inr 8, Suc t)),
     win_ReadThreadProfilingData = (\<lambda>h hw t. ((ERROR_SUCCESS, demo_performance_data t), Suc t)),
     win_DisableThreadProfiling = (\<lambda>h t. (ERROR_SUCCESS, Suc t)),
     win_WaitForSingleObject = (\<lambda>h t. (WAIT_TIMEOUT, t)),
     win_GetProcessTimes = (\<lambda>t. (Some \<lparr>creation_time = demo_filetime, kernel_time = demo_filetime,
       user_time = demo_filetime\<rparr>, t)),
     win_GetThreadTimes = (\<lambda>h t. (Some \<lparr>creation_time = demo_filetime, kernel_time = demo_filetime,
       user_time = demo_filetime\<rparr>, t)),
     win_GetProcessMemoryInfo = (\<lambda>t. (None, t)),
     win_QueryProcessCycleTime = (\<lambda>t. (Some (of_nat t), t)),
     win_QueryThreadCycleTime = (\<lambda>t. (Some (of_nat t), t)),
     win_GetCurrentThreadId = (\<lambda>t. 77),
     win_GetLastError = (\<lambda>t. 6),
     win_hrtime = (\<lambda>t. (of_nat t, t)),
     win_unwritten = demo_performance_data 0\<rparr>"

definition demo_windows_process :: "nat windows_process" where
  "demo_windows_process = \<lparr>kernel = 3, errno = 0, trace = [], exceptions = [], warnings = [],
     error_mode = PERFIDIOUS_ERROR_MODE_THROW, profiles = Map.empty, next_profile = 0\<rparr>"

definition demo_windows_world :: "((nat, windows_event) machine, windows_platform_sampler) sampler_world" where
  "demo_windows_world = \<lparr>engine = \<lparr>kernel = 3, errno = 0, trace = [], exceptions = [], warnings = [],
     error_mode = PERFIDIOUS_ERROR_MODE_THROW\<rparr>, samplers = Map.empty, samples = Map.empty, deltas = Map.empty,
     identities = Map.empty, fresh = 0\<rparr>"

section \<open>Samplers\<close>

text \<open>Over the Windows backend too, every sequence of calls on samplers,
  samples and deltas is defined, and in every world it reaches the handles in use are exactly
  those in use before the first sampler and those of the samplers that are still open.\<close>

lemma windows_sampler_no_leak:
  assumes "no_samplers w0" and "sampler_reachable (windows_backend os) w0 w"
  shows "in_use (trace (engine w)) =
      in_use (trace (engine w0)) + total_over (native_owned windows_owned) (samplers w) \<and>
    (\<forall>r. sampler_step (windows_backend os) w r \<longrightarrow> r \<noteq> Undefined)"
proof -
  have w: "counted w \<and> accounted (\<lambda>m. in_use (trace m)) windows_owned (in_use (trace (engine w0))) w"
    using windows.sampler_reachable_ok [OF assms(2)] no_samplers_counted [OF assms(1)]
      no_samplers_accounted [OF assms(1)] by blast
  then show ?thesis using windows.sampler_step_ok [OF _ w] by (auto simp: accounted_def)
qed

text \<open>The mask of a sampler has only metrics its scope supports, as \<open>open\<close> makes sure.\<close>

definition windows_supported :: "windows_platform_sampler \<Rightarrow> bool" where
  "windows_supported s \<longleftrightarrow>
     (\<exists>v. windows_sampler_supported_metrics (ws_metrics s) (ws_scope s) () = (Some v, ()) \<and> ws_metrics s AND NOT v = 0)"

lemma windows_supported_metrics:
  assumes "windows_supported s"
  shows "collected (ws_metrics s) \<subseteq>
    (if ws_scope s = PERFIDIOUS_SCOPE_CURRENT_PROCESS
     then {PERFIDIOUS_METRIC_CPU_TIME, PERFIDIOUS_METRIC_PAGE_FAULTS, PERFIDIOUS_METRIC_CPU_CYCLES}
     else {PERFIDIOUS_METRIC_CPU_TIME, PERFIDIOUS_METRIC_CONTEXT_SWITCHES, PERFIDIOUS_METRIC_CPU_CYCLES})"
proof -
  obtain v where v: "windows_sampler_supported_metrics (ws_metrics s) (ws_scope s) () = (Some v, ())"
    "ws_metrics s AND NOT v = 0" using assms unfolding windows_supported_def by blast
  have "collected (ws_metrics s) \<subseteq> collected v"
    using collected_and_not [of "ws_metrics s" v] v(2) by simp
  then show ?thesis
    using v(1) by (cases "ws_scope s") (auto simp: windows_sampler_supported_metrics_def collected_or
      PERFIDIOUS_WINDOWS_THREAD_PROFILE_METRICS_def)
qed

lemma unwritten_helpers:
  "last_error (os\<lparr>win_unwritten := d\<rparr>) = last_error os"
  "perfidious_windows_thread_profile_read (os\<lparr>win_unwritten := d\<rparr>) = perfidious_windows_thread_profile_read os"
  by (intro ext; simp add: last_error_def perfidious_windows_thread_profile_read_def)+

lemma unwritten_irrelevant:
  "windows_read_thread (os\<lparr>win_unwritten := d\<rparr>) = windows_read_thread os"
  "windows_read_cpu_time (os\<lparr>win_unwritten := d\<rparr>) = windows_read_cpu_time os"
  "windows_read_page_faults (os\<lparr>win_unwritten := d\<rparr>) = windows_read_page_faults os"
  "windows_read_cycles (os\<lparr>win_unwritten := d\<rparr>) = windows_read_cycles os"
  by (intro ext; simp add: windows_read_thread_def windows_read_cpu_time_def windows_read_page_faults_def
    windows_read_cycles_def Let_def unwritten_helpers cong: option.case_cong prod.case_cong if_cong)+

lemma unwritten_metrics: "windows_read_metrics (os\<lparr>win_unwritten := d\<rparr>) = windows_read_metrics os"
  unfolding windows_read_metrics_def unwritten_irrelevant by (rule refl)

text \<open>The profile data does not matter when no metric of it is asked for.\<close>

lemma not_requested: "a \<notin> collected w \<Longrightarrow> (w AND PERFIDIOUS_METRIC_MASK a \<noteq> 0) = False"
  by (simp add: collected_mask_test)

lemma metrics_without_profile:
  assumes "PERFIDIOUS_METRIC_CONTEXT_SWITCHES \<notin> collected (ws_metrics s)"
    and "PERFIDIOUS_METRIC_CPU_CYCLES \<notin> collected (ws_metrics s) \<or> ws_scope s = PERFIDIOUS_SCOPE_CURRENT_PROCESS"
  shows "windows_read_metrics os s pd m = windows_read_metrics os s pd' m"
proof (cases "ws_scope s = PERFIDIOUS_SCOPE_CURRENT_PROCESS")
  case True
  then have cyc: "windows_read_cycles os s pd = windows_read_cycles os s pd'"
    by (intro ext) (simp add: windows_read_cycles_def)
  show ?thesis
    unfolding windows_read_metrics_def Let_def not_requested [OF assms(1)] if_False cyc by (rule refl)
next
  case False
  then have "PERFIDIOUS_METRIC_CPU_CYCLES \<notin> collected (ws_metrics s)" using assms(2) by simp
  from not_requested [OF this] show ?thesis
    unfolding windows_read_metrics_def Let_def not_requested [OF assms(1)] by (simp only: if_False)
qed

lemma thread_data_written:
  assumes "windows_read_thread os s m = (Some None, m')" "ws_scope s \<noteq> PERFIDIOUS_SCOPE_CURRENT_PROCESS"
  shows "PERFIDIOUS_METRIC_CONTEXT_SWITCHES \<notin> collected (ws_metrics s) \<and>
    PERFIDIOUS_METRIC_CPU_CYCLES \<notin> collected (ws_metrics s)"
proof -
  have "ws_metrics s AND PERFIDIOUS_WINDOWS_THREAD_PROFILE_METRICS = 0"
    using assms by (cases "ws_scope s") (auto simp: windows_read_thread_def split: if_splits prod.splits sum.splits)
  then show ?thesis
    by (simp add: PERFIDIOUS_WINDOWS_THREAD_PROFILE_METRICS_def bit.conj_disj_distrib or_eq_0_iff collected_mask_test)
qed

lemma read_ignores_unwritten:
  assumes "windows_supported s"
  shows "windows_sampler_read (os\<lparr>win_unwritten := d\<rparr>) s m = windows_sampler_read os s m"
proof (cases "windows_read_thread os s m")
  case (Pair t m1)
  have "windows_read_metrics os s d m1 = windows_read_metrics os s (win_unwritten os) m1" if "t = Some None"
    using windows_supported_metrics [OF assms] thread_data_written [of os s m m1] Pair that
    by (intro metrics_without_profile) (auto split: if_splits)
  then show ?thesis
    using Pair by (auto simp: windows_sampler_read_def unwritten_irrelevant unwritten_metrics split: option.split)
qed

lemma windows_read_keeps_supported:
  "windows_sampler_read os s m = Some (r, s', m') \<Longrightarrow> ws_metrics s' = ws_metrics s \<and> ws_scope s' = ws_scope s"
  by (auto simp: windows_sampler_read_def windows_read_metrics_def Let_def windows_read_page_faults_def
      windows_context_switches_def split: prod.splits option.splits if_splits)

lemma windows_open_sets:
  "windows_sampler_open os v scope m = (Some s, m') \<Longrightarrow> ws_metrics s = v \<and> ws_scope s = scope"
  by (auto simp: windows_sampler_open_def Let_def split: if_splits prod.splits option.splits sum.splits)

text \<open>C30 (windows_reads_only_written_data). A Windows sampler that \<open>open\<close> can have made never uses
  profile data that was not read: whatever the unwritten local variable holds, the outcome of a
  read is the same. Samplers stay of that kind when they are read.\<close>

theorem windows_reads_only_written_data:
  assumes "windows_supported s"
  shows "windows_sampler_read (os\<lparr>win_unwritten := d\<rparr>) s m = windows_sampler_read os s m \<and>
    (\<forall>r s' m'. windows_sampler_read os s m = Some (r, s', m') \<longrightarrow> windows_supported s') \<and>
    (\<forall>v scope supported s0 m0 m1. windows_sampler_supported_metrics v scope () = (Some supported, ()) \<and>
       v AND NOT supported = 0 \<and> windows_sampler_open os v scope m0 = (Some s0, m1) \<longrightarrow> windows_supported s0)"
proof -
  have "windows_supported s'" if "windows_sampler_read os s m = Some (r, s', m')" for r s' m'
    using windows_read_keeps_supported [OF that] assms by (simp add: windows_supported_def)
  moreover have "windows_supported s0"
    if "windows_sampler_supported_metrics v scope () = (Some supported, ()) \<and>
       v AND NOT supported = 0 \<and> windows_sampler_open os v scope m0 = (Some s0, m1)" for v scope supported s0 m0 m1
    using that windows_open_sets [of os v scope m0 s0 m1] by (auto simp: windows_supported_def)
  ultimately show ?thesis using read_ignores_unwritten [OF assms] by blast
qed

theorem windows_reads_only_written_data_witness:
  "\<exists>s. fst (windows_sampler_open demo_windows (PERFIDIOUS_METRIC_MASK PERFIDIOUS_METRIC_CPU_CYCLES)
       PERFIDIOUS_SCOPE_CURRENT_THREAD demo_windows_process) = Some s \<and>
     windows_sampler_read (demo_windows\<lparr>win_unwritten := demo_performance_data 9\<rparr>) s demo_windows_process =
     windows_sampler_read demo_windows s demo_windows_process"
proof -
  let ?s = "\<lparr>ws_metrics = PERFIDIOUS_METRIC_MASK PERFIDIOUS_METRIC_CPU_CYCLES,
    ws_scope = PERFIDIOUS_SCOPE_CURRENT_THREAD, ws_thread_id = 77, ws_thread_handle = Some 4,
    ws_profile_handle = Some 8, ws_previous_page_faults = 0, ws_page_fault_base = 0,
    ws_previous_context_switches = 0, ws_context_switch_base = 0\<rparr>"
  have "windows_supported ?s"
    by (simp add: windows_supported_def windows_sampler_supported_metrics_def
        PERFIDIOUS_WINDOWS_THREAD_PROFILE_METRICS_def PERFIDIOUS_METRIC_MASK_def)
  from windows_reads_only_written_data [OF this] have
    "windows_sampler_read (demo_windows\<lparr>win_unwritten := demo_performance_data 9\<rparr>) ?s demo_windows_process =
     windows_sampler_read demo_windows ?s demo_windows_process" by blast
  moreover have "fst (windows_sampler_open demo_windows (PERFIDIOUS_METRIC_MASK PERFIDIOUS_METRIC_CPU_CYCLES)
       PERFIDIOUS_SCOPE_CURRENT_THREAD demo_windows_process) = Some ?s"
    by (simp add: windows_sampler_open_def Let_def duplicate_current_thread_def demo_windows_def
        perfidious_windows_thread_profile_enable_def win_logged_def demo_windows_process_def
        PERFIDIOUS_WINDOWS_THREAD_PROFILE_METRICS_def PERFIDIOUS_METRIC_MASK_def)
  ultimately show ?thesis by blast
qed

section \<open>Counts of 32 bits\<close>

text \<open>The count a sampler has unrolled so far is a multiple of \<open>2 ^ 32\<close>, its base, plus the last
  32-bit reading.\<close>

definition unrolled :: "u64 \<Rightarrow> u32 \<Rightarrow> nat" where
  "unrolled base previous = unat base + unat previous"

lemma word_mod_32 [simp]: "unat (of_nat t :: u32) = t mod 2 ^ 32"
  by (simp add: unat_of_nat)

lemma count_wraps_iff:
  fixes t t' n :: nat
  assumes "t \<le> t'" "t' - t < n"
  shows "t' mod n + (if t' mod n < t mod n then n else 0) = t mod n + (t' - t)"
proof -
  obtain d where d: "t' = t + d" "d < n" using assms by (metis le_Suc_ex add_diff_cancel_left')
  let ?p = "t mod n"
  have "t' mod n = (?p + d) mod n" by (simp add: d mod_add_left_eq)
  moreover have p: "?p < n" using d(2) by simp
  moreover have "(?p + d) mod n = (if ?p + d < n then ?p + d else ?p + d - n)"
  proof (cases "?p + d < n")
    case False
    then have "(?p + d) mod n = (?p + d - n) mod n" by (intro le_mod_geq) simp
    also have "\<dots> = ?p + d - n" using p d(2) by (intro mod_less) linarith
    finally show ?thesis using False by simp
  qed simp
  ultimately show ?thesis using d by (cases "?p + d < n") (simp_all, linarith)
qed

lemma base_room: "(UINT64_MAX - 0x100000000 < base) \<longleftrightarrow> 2 ^ 64 \<le> unat base + 2 ^ 32" for base :: u64
  by (simp add: add_guard_iff)

lemma below_next_multiple:
  fixes b c n k :: nat
  assumes "n dvd b" "b < n * k" "c < n"
  shows "b + c < n * k"
proof -
  obtain j where j: "b = n * j" using assms(1) by blast
  with assms(2) have "Suc j \<le> k" by simp
  then have "n * Suc j \<le> n * k" by (rule mult_le_mono2)
  with j assms(3) show ?thesis by simp
qed



section \<open>Thread profiles\<close>

lemma profile_enable_result:
  "perfidious_windows_thread_profile_enable os v m = (Inl e, m') \<Longrightarrow>
     in_use (trace m') = in_use (trace m) \<and> exceptions m' = exceptions m"
  "perfidious_windows_thread_profile_enable os v m = (Inr h, m') \<Longrightarrow>
     in_use (trace m') = add_mset (ProfileHandle h) (in_use (trace m)) \<and> exceptions m' = exceptions m"
  by (auto simp: perfidious_windows_thread_profile_enable_def split: prod.splits)

lemma profile_calls_keep_profiles:
  "perfidious_windows_thread_profile_enable os v p = (r, p') \<Longrightarrow> profiles p' = profiles p \<and> next_profile p' = next_profile p"
  "perfidious_windows_thread_profile_read os h v p = (q, p') \<Longrightarrow> profiles p' = profiles p \<and> next_profile p' = next_profile p"
  "perfidious_windows_thread_profile_disable os h p = (e, p') \<Longrightarrow> profiles p' = profiles p \<and> next_profile p' = next_profile p"
  for p p' :: "'k windows_process"
  by (auto simp: perfidious_windows_thread_profile_enable_def perfidious_windows_thread_profile_read_def
      perfidious_windows_thread_profile_disable_def win_logged_def split: prod.splits)

lemma profile_disable_keeps [simp]:
  "profiles (snd (perfidious_windows_thread_profile_disable os h p)) = profiles p" for p :: "'k windows_process"
  using profile_calls_keep_profiles(3) [of os h p] by (metis prod.collapse)

lemma throw_keeps_profiles [simp]:
  "profiles (zend_throw_exception c n msg p) = profiles p"
  "profiles (perfidious_windows_throw_error op e p) = profiles p" for p :: "'k windows_process"
  by (simp_all add: zend_throw_exception_def perfidious_windows_throw_error_def)

lemma profile_update_simps [simp]:
  "trace (p\<lparr>profiles := f\<rparr>) = trace p" "exceptions (p\<lparr>profiles := f\<rparr>) = exceptions p" for p :: "'k windows_process"
  by simp_all

text \<open>The profile of an object that is still open, as the handles it is answerable for.\<close>

definition profile_owned :: "thread_profile_obj \<Rightarrow> windows_handle multiset" where
  "profile_owned obj = (case tp_handle obj of None \<Rightarrow> {#} | Some h \<Rightarrow> {#ProfileHandle h#})"

lemma obj_free_run:
  assumes "profiles p this = Some obj"
  shows "in_use (trace (perfidious_windows_thread_profile_obj_free os this p)) = in_use (trace p) - profile_owned obj"
    and "exceptions (perfidious_windows_thread_profile_obj_free os this p) = exceptions p"
    and "profiles (perfidious_windows_thread_profile_obj_free os this p) = (profiles p)(this := None)"
  using assms
  by (cases "tp_handle obj"; simp add: perfidious_windows_thread_profile_obj_free_def Let_def profile_owned_def)+

text \<open>Enabling a thread profile either returns a new object that is
  answerable for exactly the profile Windows enabled, or throws exactly one exception and leaves
  no object behind and no profile enabled, also when the first reading fails.\<close>

lemma profile_enable_all_or_nothing:
  assumes "\<forall>i \<ge> next_profile p. profiles p i = None"
  shows "case enable_current_thread_profiling os v p of
      (None, p') \<Rightarrow> in_use (trace p') = in_use (trace p) \<and> profiles p' = profiles p \<and> diagnosed p p'
    | (Some this, p') \<Rightarrow> profiles p this = None \<and> exceptions p' = exceptions p \<and>
        (\<exists>obj. profiles p' = (profiles p)(this \<mapsto> obj) \<and> tp_handle obj \<noteq> None \<and>
           in_use (trace p') = in_use (trace p) + profile_owned obj)"
proof (cases "v < 0 \<or> PERFIDIOUS_WINDOWS_HARDWARE_COUNTER_MASK_MAX < v")
  case True
  then show ?thesis by (auto simp: enable_current_thread_profiling_def diagnosed_def)
next
  case False
  let ?i = "next_profile p"
  obtain p1 where c: "perfidious_windows_thread_profile_obj_create p = (?i, p1)"
    by (simp add: perfidious_windows_thread_profile_obj_create_def)
  then have p1: "trace p1 = trace p" "exceptions p1 = exceptions p"
    "\<exists>obj. profiles p1 = (profiles p)(?i \<mapsto> obj) \<and> tp_handle obj = None"
    by (auto simp: perfidious_windows_thread_profile_obj_create_def)
  obtain r p2 where e: "perfidious_windows_thread_profile_enable os (to_u64 v) p1 = (r, p2)" by fastforce
  have new: "profiles p ?i = None" using assms by simp
  then have undo: "(profiles p)(?i := None) = profiles p" by auto
  show ?thesis
  proof (cases r)
    case (Inl err)
    have "\<exists>obj. profiles p2 ?i = Some obj \<and> profile_owned obj = {#} \<and> profiles p2 = (profiles p)(?i \<mapsto> obj)"
      using p1(3) profile_calls_keep_profiles(1) [OF e] by (auto simp: profile_owned_def)
    then show ?thesis
      using False c e Inl p1 undo profile_enable_result(1) [of os "to_u64 v" p1 err p2]
      by (auto simp: enable_current_thread_profiling_def Let_def obj_free_run diagnosed_def
          perfidious_windows_throw_error_def)
  next
    case (Inr h)
    note en = profile_enable_result(2) [OF e [unfolded Inr]] and keep = profile_calls_keep_profiles(1) [OF e]
    let ?obj = "\<lparr>tp_handle = Some h, tp_hardware_counter_mask = 0, tp_cycle_time_origin = 0,
                 tp_hardware_counter_origins = (\<lambda>_. 0)\<rparr>"
    let ?p3 = "p2\<lparr>profiles := (profiles p2)(?i \<mapsto> ?obj)\<rparr>"
    obtain q p4 where rd: "perfidious_windows_thread_profile_read os h (to_u64 v) ?p3 = (q, p4)" by fastforce
    note rk = profile_calls_keep_profiles(2) [OF rd] profile_read_result [OF rd]
    have p4: "profiles p4 = (profiles p)(?i \<mapsto> ?obj)" using rk keep p1(3) by auto
    show ?thesis
    proof (cases q)
      case (Inl err)
      from p4 have "profiles p4 ?i = Some ?obj" by simp
      with False c e Inr Inl rd p4 rk en p1 undo show ?thesis
        by (simp add: enable_current_thread_profiling_def Let_def obj_free_run profile_owned_def)
    next
      case (Inr dat)
      with False c e \<open>r = Inr h\<close> rd p4 rk en p1 new show ?thesis
        by (simp add: enable_current_thread_profiling_def Let_def profile_owned_def)
          (intro exI conjI, rule refl, simp_all)
    qed
  qed
qed

text \<open>What an object holds that \<open>enable\<close> returned: the readings it started from.\<close>

definition profile_started :: "nat \<Rightarrow> zend_long \<Rightarrow> performance_data \<Rightarrow> thread_profile_obj" where
  "profile_started h v d = \<lparr>tp_handle = Some h, tp_hardware_counter_mask = to_u64 v,
     tp_cycle_time_origin = pd_CycleTime d,
     tp_hardware_counter_origins = (\<lambda>i. if i \<in> set (selected_counters (to_u64 v)) then hw_Value (pd_HwCounters d i) else 0)\<rparr>"

lemma enable_success:
  assumes "enable_current_thread_profiling os v p = (Some i, p')"
  obtains h d k k' where "win_ReadThreadProfilingData os h (to_u64 v \<noteq> 0) k = ((ERROR_SUCCESS, d), k')"
    "profiles p' i = Some (profile_started h v d)"
  using assms
  by (fastforce simp: enable_current_thread_profiling_def Let_def profile_started_def
      perfidious_windows_thread_profile_read_def split: if_splits prod.splits sum.splits)

lemma grown_by:
  fixes now start :: u64
  assumes "now = start + of_nat n" "n < 2 ^ 63"
  shows "uint (now - start) = int n"
proof -
  have "now - start = of_nat n" using assms(1) by simp
  then show ?thesis using assms(2) by (simp add: unsigned_of_nat take_bit_nat_eq_self)
qed

lemma profile_read_since:
  fixes q :: "'a windows_process" and count :: "nat \<Rightarrow> nat"
  assumes q: "profiles q i = Some (profile_started h v d0)"
    and rd: "win_ReadThreadProfilingData os h (to_u64 v \<noteq> 0) (kernel q) = ((ERROR_SUCCESS, d), k1)"
    and few: "unat (pd_HwCountersCount d) \<le> MAX_HW_COUNTERS"
    and cyc: "pd_CycleTime d = pd_CycleTime d0 + of_nat cycles" "cycles < 2 ^ 63"
    and cnt: "\<forall>j \<in> set (selected_counters (to_u64 v)).
        hw_Value (pd_HwCounters d j) = hw_Value (pd_HwCounters d0 j) + of_nat (count j) \<and> count j < 2 ^ 63"
  shows "PerfidiousWindowsThreadProfile_read os i q =
    Ret (profile_snapshot d (int cycles) (map (\<lambda>j. (j, int (count j))) (selected_counters (to_u64 v))),
      win_logged (EvReadThreadProfilingData h ERROR_SUCCESS) k1 q)"
proof -
  have n: "(MAX_HW_COUNTERS < unat (pd_HwCountersCount d)) = False" using few by (simp add: not_less)
  let ?o = "profile_started h v d0" and ?is = "selected_counters (to_u64 v)"
  let ?vals = "(pd_CycleTime d - tp_cycle_time_origin ?o) #
    map (\<lambda>j. hw_Value (pd_HwCounters d j) - tp_hardware_counter_origins ?o j) ?is"
  have vals: "map uint ?vals = int cycles # map (\<lambda>j. int (count j)) ?is"
    using grown_by [OF cyc] grown_by [OF cnt [rule_format, THEN conjunct1] cnt [rule_format, THEN conjunct2]]
    by (simp add: profile_started_def)
  have "\<forall>w \<in> set ?vals. uint w < 2 ^ 63"
  proof
    fix w assume "w \<in> set ?vals"
    then have "uint w \<in> set (map uint ?vals)" unfolding set_map by (rule imageI)
    then show "uint w < 2 ^ 63" unfolding vals using cyc(2) cnt by auto
  qed
  from windows_to_long.chain_fits [OF this]
  have ch: "convert_chain (map perfidious_windows_uint64_to_zend_long ?vals) m =
      (Some (int cycles # map (\<lambda>j. int (count j)) ?is), m)" for m :: "'a windows_process" unfolding vals .
  have o: "profiles q i = Some ?o" "tp_handle ?o = Some h" "tp_hardware_counter_mask ?o = to_u64 v"
    using q by (simp_all add: profile_started_def)
  have r: "perfidious_windows_thread_profile_read os h (to_u64 v) q =
      (Inr d, win_logged (EvReadThreadProfilingData h ERROR_SUCCESS) k1 q)"
    using rd by (simp add: perfidious_windows_thread_profile_read_def)
  have z: "zip ?is (map (\<lambda>j. int (count j)) ?is) = map (\<lambda>j. (j, int (count j))) ?is"
    by (simp add: zip_map2 zip_same_conv_map)
  show ?thesis
    unfolding PerfidiousWindowsThreadProfile_read_def o option.case Let_def r prod.case sum.case n if_False ch
      list.sel z by (rule refl)
qed



text \<open>Closing an open thread profile: when Windows refuses to
  disable it, exactly one exception is thrown and the object still holds the profile, so that \<open>close\<close> can be
  tried again; otherwise the object is closed, closing it once more calls nothing, and reading it
  throws a \<open>ClosedException\<close> and calls nothing.\<close>

lemma profile_close_can_be_retried:
  assumes "profiles p i = Some obj" "tp_handle obj = Some h"
  shows "\<exists>p'. PerfidiousWindowsThreadProfile_close os i p = Ret p' \<and>
    (if fst (win_DisableThreadProfiling os h (kernel p)) \<noteq> ERROR_SUCCESS
     then profiles p' = profiles p \<and> diagnosed p p'
     else profiles p' i = Some (obj\<lparr>tp_handle := None\<rparr>) \<and> exceptions p' = exceptions p \<and>
       PerfidiousWindowsThreadProfile_close os i p' = Ret p' \<and>
       PerfidiousWindowsThreadProfile_read os i p' =
         Ret (ZNull, zend_throw_exception ClosedException 0 ''Thread profile is closed'' p'))"
proof -
  obtain e k where d: "win_DisableThreadProfiling os h (kernel p) = (e, k)" by fastforce
  let ?p1 = "win_logged (EvDisableThreadProfiling h e) k p"
  have "profiles ?p1 = profiles p" by (simp add: win_logged_def)
  with d assms show ?thesis
    by (auto simp: PerfidiousWindowsThreadProfile_close_def PerfidiousWindowsThreadProfile_read_def
        perfidious_windows_thread_profile_disable_def diagnosed_def perfidious_windows_throw_error_def)
qed

text \<open>The CPU time of a sampler in nanoseconds is exact whenever it is returned, and it is returned exactly when it
  fits 64 bits.\<close>

lemma windows_cpu_time_ns_exact:
  "case windows_cpu_time_ns kt ut of
     Inl msg \<Rightarrow> 2 ^ 64 \<le> 100 * (unat kt + unat ut)
   | Inr ns \<Rightarrow> unat ns = 100 * (unat kt + unat ut)"
proof (cases "UINT64_MAX - ut < kt")
  case True
  then show ?thesis by (simp add: windows_cpu_time_ns_def add_guard_iff)
next
  case False
  note t = unat_add_guarded [OF False]
  have "unat (UINT64_MAX div 100) = (2 ^ 64 - 1) div 100" by (simp add: unat_div)
  then have q: "(UINT64_MAX div 100 < kt + ut) = ((2 ^ 64 - 1) div 100 < unat kt + unat ut)"
    by (simp add: word_less_nat_alt t)
  have h: "unat (100 :: u64) = 100" by simp
  have "unat ((kt + ut) * 100) = 100 * (unat kt + unat ut)" if "unat kt + unat ut \<le> (2 ^ 64 - 1) div 100"
    using unat_mult_no_wrap [of "kt + ut" 100, unfolded t h] that by (simp only: mult.commute) simp
  with False q show ?thesis by (auto simp: windows_cpu_time_ns_def Let_def not_less)
qed

end
