(* ===== verification/Windows_Life.thy ===== *)
theory Windows_Life
  imports Windows_Properties
begin

text \<open>
  The life of \<open>ThreadProfile\<close> objects: enabling, reading, closing and destroying them in any order, with other
  code of the process running in between. Which profiles are enabled is read off the trace; a profile that
  Windows refuses to disable stays enabled.
\<close>

section \<open>Steps\<close>

datatype profile_call =
    EnableProfile zend_long
  | ReadProfile nat
  | CloseProfile nat
  | DestroyProfile nat

fun run_profile_call :: "'k windows_os \<Rightarrow> profile_call \<Rightarrow> 'k windows_process \<Rightarrow> 'k windows_process cval" where
  "run_profile_call os (EnableProfile v) p = Ret (snd (enable_current_thread_profiling os v p))"
| "run_profile_call os (ReadProfile i) p = cbind (PerfidiousWindowsThreadProfile_read os i p) (\<lambda>(r, p'). Ret p')"
| "run_profile_call os (CloseProfile i) p = PerfidiousWindowsThreadProfile_close os i p"
| "run_profile_call os (DestroyProfile i) p = Ret (perfidious_windows_thread_profile_obj_free os i p)"

text \<open>The engine passes live objects only.\<close>

fun profile_alive :: "profile_call \<Rightarrow> 'k windows_process \<Rightarrow> bool" where
  "profile_alive (EnableProfile v) p = True"
| "profile_alive (ReadProfile i) p = (profiles p i \<noteq> None)"
| "profile_alive (CloseProfile i) p = (profiles p i \<noteq> None)"
| "profile_alive (DestroyProfile i) p = (profiles p i \<noteq> None)"

inductive profile_step :: "'k windows_os \<Rightarrow> 'k windows_process \<Rightarrow> 'k windows_process cval \<Rightarrow> bool" for os where
  call: "profile_alive c p \<Longrightarrow> profile_step os p (run_profile_call os c p)"
| elsewhere: "profile_step os p (Ret (p\<lparr>kernel := k, exceptions := es\<rparr>))"

inductive profile_reachable :: "'k windows_os \<Rightarrow> 'k windows_process \<Rightarrow> 'k windows_process \<Rightarrow> bool" for os p0 where
  start: "profile_reachable os p0 p0"
| move: "profile_reachable os p0 p \<Longrightarrow> profile_step os p (Ret p') \<Longrightarrow> profile_reachable os p0 p'"

section \<open>Accounting\<close>

fun enabled_profiles :: "windows_event list \<Rightarrow> nat multiset" where
  "enabled_profiles [] = {#}"
| "enabled_profiles (EvEnableThreadProfiling v (Inr h) # t) = add_mset h (enabled_profiles t)"
| "enabled_profiles (EvDisableThreadProfiling h e # t) =
     (if e = ERROR_SUCCESS then enabled_profiles t - {#h#} else enabled_profiles t)"
| "enabled_profiles (ev # t) = enabled_profiles t"

fun refusals :: "windows_event list \<Rightarrow> nat" where
  "refusals [] = 0"
| "refusals (EvDisableThreadProfiling h e # t) = (if e = ERROR_SUCCESS then refusals t else Suc (refusals t))"
| "refusals (ev # t) = refusals t"

definition held_profile :: "thread_profile_obj \<Rightarrow> nat multiset" where
  "held_profile obj = (case tp_handle obj of None \<Rightarrow> {#} | Some h \<Rightarrow> {#h#})"

text \<open>What is enabled was enabled before the first object (\<open>base\<close>), is held by an object, or was lost to a
  refusal when its object was destroyed.\<close>

definition accounted_profiles :: "nat multiset \<Rightarrow> nat \<Rightarrow> 'k windows_process \<Rightarrow> bool" where
  "accounted_profiles base r0 p \<longleftrightarrow>
     finite (dom (profiles p)) \<and> (\<forall>i \<ge> next_profile p. profiles p i = None) \<and>
     (\<exists>lost. enabled_profiles (trace p) = base + total_over held_profile (profiles p) + lost \<and>
        size lost + r0 \<le> refusals (trace p))"

lemma accountedI:
  assumes "finite (dom (profiles p))" "\<forall>i \<ge> next_profile p. profiles p i = None"
    "enabled_profiles (trace p) = base + total_over held_profile (profiles p) + lost" "size lost + r0 \<le> refusals (trace p)"
  shows "accounted_profiles base r0 p"
  using assms unfolding accounted_profiles_def by blast

lemma accounted_cong:
  "accounted_profiles base r0 p \<Longrightarrow> profiles p' = profiles p \<Longrightarrow> next_profile p' = next_profile p \<Longrightarrow>
     enabled_profiles (trace p') = enabled_profiles (trace p) \<Longrightarrow> refusals (trace p) \<le> refusals (trace p') \<Longrightarrow>
     accounted_profiles base r0 p'"
  unfolding accounted_profiles_def by (metis order_trans)

section \<open>Every step keeps the account\<close>

lemma free_accounted:
  assumes a: "accounted_profiles base r0 p" and i: "profiles p i = Some obj"
  shows "accounted_profiles base r0 (perfidious_windows_thread_profile_obj_free os i p)"
proof -
  obtain lost where l: "enabled_profiles (trace p) = base + total_over held_profile (profiles p) + lost"
    "size lost + r0 \<le> refusals (trace p)" and fin: "finite (dom (profiles p))"
    and new: "\<forall>i \<ge> next_profile p. profiles p i = None"
    using a unfolding accounted_profiles_def by blast
  have split: "total_over held_profile (profiles p) = held_profile obj + total_over held_profile ((profiles p)(i := None))"
    by (rule total_over_remove [OF fin i])
  show ?thesis
  proof (cases "tp_handle obj")
    case None
    then have "held_profile obj = {#}" by (simp add: held_profile_def)
    with None i l fin new split show ?thesis
      by (intro accountedI [where lost = lost])
        (simp_all add: perfidious_windows_thread_profile_obj_free_def Let_def)
  next
    case (Some h)
    then have h: "held_profile obj = {#h#}" by (simp add: held_profile_def)
    obtain e k where d: "win_DisableThreadProfiling os h (kernel p) = (e, k)" by fastforce
    have run: "perfidious_windows_thread_profile_obj_free os i p =
        (win_logged (EvDisableThreadProfiling h e) k p)\<lparr>profiles := (profiles p)(i := None)\<rparr>"
      using i Some d by (simp add: perfidious_windows_thread_profile_obj_free_def Let_def
          perfidious_windows_thread_profile_disable_def win_logged_def)
    show ?thesis unfolding run
      using l fin new split h
      by (intro accountedI [where lost = "if e = ERROR_SUCCESS then lost else add_mset h lost"])
        (auto simp: win_logged_def)
  qed
qed

lemma close_accounted:
  assumes a: "accounted_profiles base r0 p" and c: "PerfidiousWindowsThreadProfile_close os i p = Ret p'"
  shows "accounted_profiles base r0 p'"
proof -
  obtain obj where i: "profiles p i = Some obj"
    using c by (auto simp: PerfidiousWindowsThreadProfile_close_def split: option.splits)
  obtain lost where l: "enabled_profiles (trace p) = base + total_over held_profile (profiles p) + lost"
    "size lost + r0 \<le> refusals (trace p)" and fin: "finite (dom (profiles p))"
    and new: "\<forall>i \<ge> next_profile p. profiles p i = None"
    using a unfolding accounted_profiles_def by blast
  show ?thesis
  proof (cases "tp_handle obj")
    case None
    with a c i show ?thesis by (simp add: PerfidiousWindowsThreadProfile_close_def)
  next
    case (Some h)
    obtain e k where d: "win_DisableThreadProfiling os h (kernel p) = (e, k)" by fastforce
    show ?thesis
    proof (cases "e = ERROR_SUCCESS")
      case False
      with c i Some d have "p' = perfidious_windows_throw_error ''DisableThreadProfiling'' e
          (win_logged (EvDisableThreadProfiling h e) k p)"
        by (simp add: PerfidiousWindowsThreadProfile_close_def perfidious_windows_thread_profile_disable_def)
      with False show ?thesis
        by (intro accounted_cong [OF a])
          (simp_all add: win_logged_def perfidious_windows_throw_error_def zend_throw_exception_def)
    next
      case True
      let ?obj = "obj\<lparr>tp_handle := None\<rparr>"
      have p': "p' = (win_logged (EvDisableThreadProfiling h e) k p)\<lparr>profiles := (profiles p)(i \<mapsto> ?obj)\<rparr>"
        using True c i Some d
        by (simp add: PerfidiousWindowsThreadProfile_close_def perfidious_windows_thread_profile_disable_def win_logged_def)
      have "total_over held_profile (profiles p) = {#h#} + total_over held_profile ((profiles p)(i := None))"
        using total_over_remove [OF fin i, of held_profile] Some by (simp add: held_profile_def)
      moreover have "total_over held_profile ((profiles p)(i \<mapsto> ?obj)) = total_over held_profile ((profiles p)(i := None))"
        using total_over_insert [of "(profiles p)(i := None)" i held_profile ?obj] fin by (simp add: held_profile_def)
      moreover have "i < next_profile p" using new i by (metis not_le option.distinct(1))
      ultimately show ?thesis unfolding p'
        using l fin new True by (intro accountedI [where lost = lost]) (auto simp: win_logged_def)
    qed
  qed
qed

lemma conversions_keep:
  "convert_chain (map perfidious_windows_uint64_to_zend_long vs) p = (r, p') \<Longrightarrow>
     profiles p' = profiles p \<and> next_profile p' = next_profile p \<and> trace p' = trace p" for p p' :: "'k windows_process"
  by (induction vs arbitrary: p r)
    (auto simp: perfidious_windows_uint64_to_zend_long_def zend_throw_exception_def split: if_splits prod.splits option.splits)

lemma read_accounted:
  assumes a: "accounted_profiles base r0 p" and rd: "PerfidiousWindowsThreadProfile_read os i p = Ret (v, p')"
  shows "accounted_profiles base r0 p'"
proof -
  obtain obj where i: "profiles p i = Some obj"
    using rd by (auto simp: PerfidiousWindowsThreadProfile_read_def split: option.splits)
  note defs = PerfidiousWindowsThreadProfile_read_def perfidious_windows_throw_error_def zend_throw_exception_def
  show ?thesis
  proof (cases "tp_handle obj")
    case None
    with rd i show ?thesis by (intro accounted_cong [OF a]) (auto simp: defs)
  next
    case (Some h)
    obtain q p1 where q: "perfidious_windows_thread_profile_read os h (tp_hardware_counter_mask obj) p = (q, p1)" by fastforce
    have p1: "accounted_profiles base r0 p1"
      using q by (intro accounted_cong [OF a])
        (auto simp: perfidious_windows_thread_profile_read_def win_logged_def split: prod.splits)
    have "profiles p' = profiles p1 \<and> next_profile p' = next_profile p1 \<and> trace p' = trace p1"
    proof (cases q)
      case (Inl e)
      with rd i Some q show ?thesis by (auto simp: defs)
    next
      case (Inr d)
      let ?vs = "(pd_CycleTime d - tp_cycle_time_origin obj) #
        map (\<lambda>i. hw_Value (pd_HwCounters d i) - tp_hardware_counter_origins obj i)
          (selected_counters (tp_hardware_counter_mask obj))"
      obtain r p2 where c: "convert_chain (map perfidious_windows_uint64_to_zend_long ?vs) p1 = (r, p2)" by fastforce
      have run: "PerfidiousWindowsThreadProfile_read os i p = Ret
          (if MAX_HW_COUNTERS < unat (pd_HwCountersCount d)
           then (ZNull, zend_throw_exception IOException 0 ''Windows returned too many hardware counters'' p1)
           else (case r of None \<Rightarrow> (ZNull, p2)
             | Some longs \<Rightarrow> (profile_snapshot d (hd longs) (zip (selected_counters (tp_hardware_counter_mask obj)) (tl longs)), p2)))"
        unfolding PerfidiousWindowsThreadProfile_read_def i option.case Some q prod.case Inr sum.case Let_def c
        by (simp split: option.split)
      from rd conversions_keep [OF c] show ?thesis
        unfolding run by (auto simp: zend_throw_exception_def split: if_splits option.splits)
    qed
    then show ?thesis by (intro accounted_cong [OF p1]) simp_all
  qed
qed

text \<open>How a call of \<open>enable_current_thread_profiling\<close> ends.\<close>

lemma enable_ends:
  assumes "enable_current_thread_profiling os v p = (r, p')" "\<forall>i \<ge> next_profile p. profiles p i = None"
  obtains
    (failed) "profiles p' = profiles p" "next_profile p \<le> next_profile p'"
      "trace p' = trace p \<or> (\<exists>e. trace p' = EvEnableThreadProfiling (to_u64 v) (Inl e) # trace p)"
  | (undone) h e err where "profiles p' = profiles p" "next_profile p \<le> next_profile p'"
      "trace p' = EvDisableThreadProfiling h e # EvReadThreadProfilingData h err #
         EvEnableThreadProfiling (to_u64 v) (Inr h) # trace p"
  | (enabled) h err obj where "profiles p' = (profiles p)(next_profile p \<mapsto> obj)" "tp_handle obj = Some h"
      "next_profile p' = Suc (next_profile p)"
      "trace p' = EvReadThreadProfilingData h err # EvEnableThreadProfiling (to_u64 v) (Inr h) # trace p"
proof -
  have undo: "(profiles p)(next_profile p := None) = profiles p" using assms(2) by auto
  note defs = enable_current_thread_profiling_def perfidious_windows_thread_profile_obj_create_def
    perfidious_windows_thread_profile_enable_def perfidious_windows_thread_profile_read_def
    perfidious_windows_thread_profile_disable_def perfidious_windows_thread_profile_obj_free_def
    perfidious_windows_throw_error_def zend_throw_exception_def win_logged_def Let_def
  show thesis
  proof (cases "v < 0 \<or> PERFIDIOUS_WINDOWS_HARDWARE_COUNTER_MASK_MAX < v")
    case True
    with assms(1) show thesis by (intro failed) (auto simp: defs)
  next
    case ok: False
    obtain en k where en: "win_EnableThreadProfiling os (to_u64 v) (kernel p) = (en, k)" by fastforce
    show thesis
    proof (cases en)
      case (Inl e)
      with assms(1) ok en undo show thesis by (intro failed) (auto simp: defs split: if_splits)
    next
      case (Inr h)
      obtain err d k2 where rd: "win_ReadThreadProfilingData os h (to_u64 v \<noteq> 0) k = ((err, d), k2)" by (metis surj_pair)
      obtain e k3 where di: "win_DisableThreadProfiling os h k2 = (e, k3)" by fastforce
      show thesis
      proof (cases "err = ERROR_SUCCESS")
        case True
        with assms(1) ok en Inr rd show thesis by (intro enabled) (auto simp: defs)
      next
        case False
        with assms(1) ok en Inr rd di undo show thesis by (intro undone) (auto simp: defs)
      qed
    qed
  qed
qed

lemma enable_accounted:
  assumes a: "accounted_profiles base r0 p" and e: "enable_current_thread_profiling os v p = (r, p')"
  shows "accounted_profiles base r0 p'"
proof -
  obtain lost where l: "enabled_profiles (trace p) = base + total_over held_profile (profiles p) + lost"
    "size lost + r0 \<le> refusals (trace p)" and fin: "finite (dom (profiles p))"
    and new: "\<forall>i \<ge> next_profile p. profiles p i = None"
    using a unfolding accounted_profiles_def by blast
  from e new show ?thesis
  proof (cases rule: enable_ends)
    case failed
    with l fin new show ?thesis by (intro accountedI [where lost = lost]) auto
  next
    case (undone h er err)
    with l fin new show ?thesis
      by (intro accountedI [where lost = "if er = ERROR_SUCCESS then lost else add_mset h lost"]) auto
  next
    case (enabled h err obj)
    with l fin new show ?thesis
      by (intro accountedI [where lost = lost]) (auto simp: total_over_insert held_profile_def)
  qed
qed

section \<open>Sequences of calls\<close>

lemma profile_step_accounted:
  assumes "profile_step os p (Ret p')" "accounted_profiles base r0 p"
  shows "accounted_profiles base r0 p'"
  using assms(1)
proof cases
  case (call c)
  then show ?thesis
  proof (cases c)
    case (EnableProfile v)
    with call show ?thesis using enable_accounted [OF assms(2)] by (metis cval.inject prod.collapse run_profile_call.simps(1))
  next
    case (ReadProfile i)
    with call(1) have "cbind (PerfidiousWindowsThreadProfile_read os i p) (\<lambda>(r, p'). Ret p') = Ret p'" by simp
    then show ?thesis using read_accounted [OF assms(2)] by (auto simp: cbind_Ret_iff)
  next
    case (CloseProfile i)
    with call show ?thesis using close_accounted [OF assms(2)] by simp
  next
    case (DestroyProfile i)
    with call show ?thesis using free_accounted [OF assms(2)] by auto
  qed
next
  case (elsewhere k es)
  then show ?thesis by (intro accounted_cong [OF assms(2)]) simp_all
qed

lemma profile_reachable_accounted:
  "profile_reachable os p0 p \<Longrightarrow> accounted_profiles base r0 p0 \<Longrightarrow> accounted_profiles base r0 p"
  by (induction rule: profile_reachable.induct) (auto intro: profile_step_accounted)

text \<open>C29 (profiles_are_accounted_for). However thread profiles are enabled, read, closed and destroyed, and whatever Windows
  answers, every profile an object holds is still enabled, so that no call is made on a profile
  that was disabled; and every profile that is enabled was so before, is held by an object, or is one
  that Windows refused to disable. No call on a live object is undefined.\<close>

theorem profiles_are_accounted_for:
  assumes "profiles p0 = Map.empty" and "profile_reachable os p0 p"
  shows "(\<exists>lost. enabled_profiles (trace p) = enabled_profiles (trace p0) + total_over held_profile (profiles p) + lost \<and>
      size lost + refusals (trace p0) \<le> refusals (trace p)) \<and>
    (\<forall>r. profile_step os p r \<longrightarrow> r \<noteq> Undefined)"
proof -
  have "accounted_profiles (enabled_profiles (trace p0)) (refusals (trace p0)) p0"
    using assms(1) by (intro accountedI [where lost = "{#}"]) simp_all
  from profile_reachable_accounted [OF assms(2) this] have
    "\<exists>lost. enabled_profiles (trace p) = enabled_profiles (trace p0) + total_over held_profile (profiles p) + lost \<and>
      size lost + refusals (trace p0) \<le> refusals (trace p)" unfolding accounted_profiles_def by blast
  moreover have "r \<noteq> Undefined" if "profile_step os p r" for r
    using that
  proof cases
    case (call c)
    then show ?thesis
      by (cases c) (auto simp: PerfidiousWindowsThreadProfile_read_def PerfidiousWindowsThreadProfile_close_def split: prod.splits)
  qed simp
  ultimately show ?thesis by blast
qed

theorem profiles_are_accounted_for_witness:
  "\<exists>lost. enabled_profiles (trace (snd (enable_current_thread_profiling demo_windows 3 demo_windows_process))) =
     total_over held_profile (profiles (snd (enable_current_thread_profiling demo_windows 3 demo_windows_process))) + lost"
proof -
  have "profile_reachable demo_windows demo_windows_process
      (snd (enable_current_thread_profiling demo_windows 3 demo_windows_process))"
    using profile_step.call [of "EnableProfile 3" demo_windows_process demo_windows]
    by (intro profile_reachable.move [OF profile_reachable.start]) simp
  moreover have "profiles demo_windows_process = Map.empty" "trace demo_windows_process = []"
    by (simp_all add: demo_windows_process_def)
  ultimately show ?thesis using profiles_are_accounted_for [of demo_windows_process demo_windows] by fastforce
qed

end
