(* ===== verification/Darwin_Os.thy ===== *)
theory Darwin_Os
  imports Sampler_Life Counter_Math
begin

text \<open>
  The macOS functions the extension calls, as a record of operations over a system state of
  arbitrary type, and the helpers of \<open>src/darwin/functions.c\<close> that the functions and the sampler share.
  A call that fails with \<open>errno\<close> returns \<open>Inl\<close> and sets it; \<open>pthread_threadid_np\<close>, \<open>thread_info\<close>
  and \<open>mach_timebase_info\<close> return their error. Send rights to Mach ports are numbers.
\<close>

section \<open>Constants and data\<close>

definition DARWIN_ENOTSUP :: int where
  "DARWIN_ENOTSUP = 45"

definition DARWIN_ENOSYS :: int where
  "DARWIN_ENOSYS = 78"

record perfidious_darwin_thread_time_cpi =
  cpi_instructions :: u64
  cpi_cycles :: u64
  cpi_user_time_mach :: u64
  cpi_system_time_mach :: u64

text \<open>The fields of \<open>time_value_t\<close> are of type \<open>int\<close>.\<close>

record time_value =
  tv_seconds :: int
  tv_microseconds :: int

record thread_basic_info =
  tbi_user_time :: time_value
  tbi_system_time :: time_value

record rusage_info_v4 =
  ri_user_time :: u64
  ri_system_time :: u64
  ri_instructions :: u64
  ri_cycles :: u64

text \<open>The fields of \<open>struct rusage\<close> that are read, of type \<open>long\<close>.\<close>

record rusage =
  ru_minflt :: int
  ru_majflt :: int
  ru_nvcsw :: int
  ru_nivcsw :: int

record mach_timebase =
  numer :: u32
  denom :: u32

record perfidious_darwin_thread_resource_usage =
  tu_user_time_ns :: u64
  tu_system_time_ns :: u64
  tu_instructions :: u64
  tu_cycles :: u64

text \<open>The static variables of the file: whether \<open>thread_selfcounts\<close> was found, and the timebase.\<close>

record darwin_statics =
  thread_selfcounts_found :: bool
  timebase :: mach_timebase

section \<open>The system\<close>

datatype darwin_event =
    EvMachThreadSelf nat
  | EvMachPortDeallocate nat

record 'k darwin_os =
  dar_pthread_threadid_np :: "'k \<Rightarrow> (int + u64) \<times> 'k"
  dar_thread_selfcounts :: "'k \<Rightarrow> (int + perfidious_darwin_thread_time_cpi) \<times> 'k"
  dar_mach_thread_self :: "'k \<Rightarrow> nat \<times> 'k"
  dar_thread_info :: "nat \<Rightarrow> 'k \<Rightarrow> (int + thread_basic_info) \<times> 'k"
  dar_mach_port_deallocate :: "nat \<Rightarrow> 'k \<Rightarrow> 'k"
  dar_proc_pid_rusage :: "'k \<Rightarrow> (int + rusage_info_v4) \<times> 'k"
  dar_getrusage :: "'k \<Rightarrow> (int + rusage) \<times> 'k"
  dar_dlsym_thread_selfcounts :: "'k \<Rightarrow> bool \<times> 'k"
  dar_mach_timebase_info :: "'k \<Rightarrow> (int + mach_timebase) \<times> 'k"
  dar_strerror :: "int \<Rightarrow> string"
  dar_hrtime :: "'k \<Rightarrow> u64 \<times> 'k"

type_synonym ('k, 'z) dmachine = "('k, darwin_event, 'z) machine_scheme"

definition dar_call :: "('k \<Rightarrow> 'r \<times> 'k) \<Rightarrow> ('k, 'z) dmachine \<Rightarrow> 'r \<times> ('k, 'z) dmachine" where
  "dar_call f m = (case f (kernel m) of (r, k) \<Rightarrow> (r, m\<lparr>kernel := k\<rparr>))"

text \<open>A call that sets \<open>errno\<close> when it fails: nothing is returned and the caller reads \<open>errno\<close>.\<close>

definition dar_errno_call :: "('k \<Rightarrow> (int + 'r) \<times> 'k) \<Rightarrow> ('k, 'z) dmachine \<Rightarrow> 'r option \<times> ('k, 'z) dmachine" where
  "dar_errno_call f m =
     (case f (kernel m) of
        (Inl e, k) \<Rightarrow> (None, m\<lparr>kernel := k, errno := e\<rparr>)
      | (Inr r, k) \<Rightarrow> (Some r, m\<lparr>kernel := k\<rparr>))"

definition dar_logged :: "darwin_event \<Rightarrow> 'k \<Rightarrow> ('k, 'z) dmachine \<Rightarrow> ('k, 'z) dmachine" where
  "dar_logged ev k m = m\<lparr>kernel := k, trace := ev # trace m\<rparr>"

definition mach_thread_self :: "'k darwin_os \<Rightarrow> ('k, 'z) dmachine \<Rightarrow> nat \<times> ('k, 'z) dmachine" where
  "mach_thread_self os m =
     (case dar_mach_thread_self os (kernel m) of (port, k) \<Rightarrow> (port, dar_logged (EvMachThreadSelf port) k m))"

definition mach_port_deallocate :: "'k darwin_os \<Rightarrow> nat \<Rightarrow> ('k, 'z) dmachine \<Rightarrow> ('k, 'z) dmachine" where
  "mach_port_deallocate os port m =
     dar_logged (EvMachPortDeallocate port) (dar_mach_port_deallocate os port (kernel m)) m"

text \<open>The send rights obtained and not yet given back.\<close>

fun rights :: "darwin_event list \<Rightarrow> nat multiset" where
  "rights [] = {#}"
| "rights (EvMachThreadSelf port # t) = add_mset port (rights t)"
| "rights (EvMachPortDeallocate port # t) = rights t - {#port#}"

section \<open>Errors and times (functions.c)\<close>

definition perfidious_darwin_throw_errno ::
  "'k darwin_os \<Rightarrow> string \<Rightarrow> int \<Rightarrow> ('k, 'z) dmachine \<Rightarrow> ('k, 'z) dmachine" where
  "perfidious_darwin_throw_errno os function_name error m =
     zend_throw_exception IOException error (function_name @ '' failed: '' @ dar_strerror os error) m"

definition perfidious_darwin_throw_mach :: "string \<Rightarrow> int \<Rightarrow> ('k, 'z) dmachine \<Rightarrow> ('k, 'z) dmachine" where
  "perfidious_darwin_throw_mach function_name error m =
     zend_throw_exception IOException error (function_name @ '' failed with Mach error '' @ show_int error) m"

definition perfidious_darwin_mach_time_to_ns ::
  "darwin_statics \<Rightarrow> u64 \<Rightarrow> ('k, 'z) dmachine \<Rightarrow> u64 option \<times> ('k, 'z) dmachine" where
  "perfidious_darwin_mach_time_to_ns g v m =
     (let n = ucast (numer (timebase g)) :: u64; d = ucast (denom (timebase g)) :: u64
      in if n = 0 \<or> d = 0
         then (None, zend_throw_exception IOException 0 ''mach_timebase_info returned an invalid ratio'' m)
         else let quotient = v div d; remainder = v mod d
              in if UINT64_MAX div n < quotient
                 then (None, zend_throw_exception OverflowException 0 ''Darwin CPU time is too large to scale'' m)
                 else let whole = quotient * n; fraction = (remainder * n) div d
                      in if UINT64_MAX - fraction < whole
                         then (None, zend_throw_exception OverflowException 0
                                       ''Darwin CPU time is too large to scale'' m)
                         else (Some (whole + fraction), m))"

definition perfidious_darwin_time_value_to_ns ::
  "time_value \<Rightarrow> ('k, 'z) dmachine \<Rightarrow> u64 option \<times> ('k, 'z) dmachine" where
  "perfidious_darwin_time_value_to_ns v m =
     (if tv_seconds v < 0 \<or> tv_microseconds v < 0 \<or> 1000000 \<le> tv_microseconds v
      then (None, zend_throw_exception IOException 0 ''thread_info returned an invalid CPU time'' m)
      else let seconds = to_u64 (tv_seconds v); microseconds = to_u64 (tv_microseconds v)
           in if (UINT64_MAX - microseconds * 1000) div 1000000000 < seconds
              then (None, zend_throw_exception OverflowException 0 ''Darwin thread CPU time is too large to scale'' m)
              else (Some (seconds * 1000000000 + microseconds * 1000), m))"

section \<open>The current thread\<close>

definition perfidious_darwin_get_current_thread_id ::
  "'k darwin_os \<Rightarrow> ('k, 'z) dmachine \<Rightarrow> u64 option \<times> ('k, 'z) dmachine" where
  "perfidious_darwin_get_current_thread_id os m =
     (case dar_call (dar_pthread_threadid_np os) m of
        (Inl error, m1) \<Rightarrow> (None, perfidious_darwin_throw_errno os ''pthread_threadid_np'' error m1)
      | (Inr thread_id, m1) \<Rightarrow> (Some thread_id, m1))"

text \<open>The counts of the running thread, from \<open>thread_selfcounts\<close>.\<close>

definition selfcounts_usage ::
  "darwin_statics \<Rightarrow> perfidious_darwin_thread_time_cpi \<Rightarrow> ('k, 'z) dmachine
    \<Rightarrow> perfidious_darwin_thread_resource_usage option \<times> ('k, 'z) dmachine" where
  "selfcounts_usage g usage m =
     or_fail (perfidious_darwin_mach_time_to_ns g (cpi_user_time_mach usage) m) (\<lambda>user m1.
     or_fail (perfidious_darwin_mach_time_to_ns g (cpi_system_time_mach usage) m1) (\<lambda>system m2.
       (Some \<lparr>tu_user_time_ns = user, tu_system_time_ns = system,
              tu_instructions = cpi_instructions usage, tu_cycles = cpi_cycles usage\<rparr>, m2)))"

text \<open>The CPU times of the running thread from \<open>thread_info\<close>, on a port of its own.\<close>

definition basic_info_usage ::
  "'k darwin_os \<Rightarrow> ('k, 'z) dmachine \<Rightarrow> perfidious_darwin_thread_resource_usage option \<times> ('k, 'z) dmachine" where
  "basic_info_usage os m =
     (case mach_thread_self os m of (thread, m1) \<Rightarrow>
        (case dar_call (dar_thread_info os thread) m1 of (r, m2) \<Rightarrow>
           (let m3 = mach_port_deallocate os thread m2
            in case r of
                 Inl error \<Rightarrow> (None, perfidious_darwin_throw_mach ''thread_info'' error m3)
               | Inr basic_usage \<Rightarrow>
                   or_fail (perfidious_darwin_time_value_to_ns (tbi_user_time basic_usage) m3) (\<lambda>user m4.
                   or_fail (perfidious_darwin_time_value_to_ns (tbi_system_time basic_usage) m4) (\<lambda>system m5.
                     (Some \<lparr>tu_user_time_ns = user, tu_system_time_ns = system,
                            tu_instructions = 0, tu_cycles = 0\<rparr>, m5))))))"

definition perfidious_darwin_read_current_thread_resource_usage ::
  "'k darwin_os \<Rightarrow> darwin_statics \<Rightarrow> ('k, 'z) dmachine
    \<Rightarrow> perfidious_darwin_thread_resource_usage option \<times> ('k, 'z) dmachine" where
  "perfidious_darwin_read_current_thread_resource_usage os g m =
     (if thread_selfcounts_found g
      then case dar_errno_call (dar_thread_selfcounts os) m of
             (Some usage, m1) \<Rightarrow> selfcounts_usage g usage m1
           | (None, m1) \<Rightarrow>
               if errno m1 \<noteq> DARWIN_ENOTSUP \<and> errno m1 \<noteq> DARWIN_ENOSYS
               then (None, perfidious_darwin_throw_errno os ''thread_selfcounts'' (errno m1) m1)
               else basic_info_usage os m1
      else basic_info_usage os m)"

section \<open>Module start\<close>

text \<open>The static variables; the ratio of zero stands for a timebase that is not known.\<close>

definition perfidious_darwin_minit ::
  "'k darwin_os \<Rightarrow> ('k, 'z) dmachine \<Rightarrow> darwin_statics \<times> ('k, 'z) dmachine" where
  "perfidious_darwin_minit os m =
     (case dar_call (dar_dlsym_thread_selfcounts os) m of (found, m1) \<Rightarrow>
        (case dar_call (dar_mach_timebase_info os) m1 of
           (Inl error, m2) \<Rightarrow>
             (\<lparr>thread_selfcounts_found = False, timebase = \<lparr>numer = 0, denom = 0\<rparr>\<rparr>, m2)
         | (Inr ratio, m2) \<Rightarrow> (\<lparr>thread_selfcounts_found = found, timebase = ratio\<rparr>, m2)))"

section \<open>Scaling is exact\<close>

text \<open>With halves of 32 bits the intermediate product never wraps.\<close>

lemma unat_ucast_32_64 [simp]: "unat (ucast (x :: u32) :: u64) = unat x"
  using uint_up_ucast [of x, where 'b = 64] by (simp add: is_up flip: nat_uint_eq)

lemma unat_u32_bound: "unat (x :: u32) < 2 ^ 32"
  using unsigned_less [of x] by simp

lemma quotient_and_fraction:
  "v * n div d = v div d * n + v mod d * n div d" if "d \<noteq> 0" for v n d :: nat
proof -
  have "v * n = v mod d * n + d * (v div d * n)"
    by (metis add.commute mult.assoc add_mult_distrib mult_div_mod_eq)
  then have "v * n div d = (v mod d * n + d * (v div d * n)) div d" by simp
  also have "\<dots> = v div d * n + v mod d * n div d" using that by (simp add: div_mult_self2)
  finally show ?thesis .
qed

lemma fraction_no_wrap:
  fixes v :: u64 and n d :: u32
  assumes "d \<noteq> 0"
  shows "unat ((v mod ucast d) * ucast n :: u64) = (unat v mod unat d) * unat n"
proof -
  have "unat v mod unat d < unat d" using assms by (simp add: unat_gt_0)
  then have "(unat v mod unat d) * unat n < 2 ^ 32 * 2 ^ 32"
    using unat_u32_bound [of d] unat_u32_bound [of n] by (intro mult_strict_mono) linarith+
  then show ?thesis by (subst unat_mult_no_wrap) (simp_all add: unat_mod)
qed

text \<open>With a valid timebase the conversion is the exact quotient rounded down, and it fails only when
  that does not fit; it is the 128-bit reference routine of the Linux backend.\<close>

lemma mach_time_is_scaled:
  assumes "numer (timebase g) \<noteq> 0" "denom (timebase g) \<noteq> 0"
  shows "perfidious_darwin_mach_time_to_ns g v m =
    (case perfidious_scale_uint64 v (ucast (numer (timebase g))) (ucast (denom (timebase g))) of
       None \<Rightarrow> (None, zend_throw_exception OverflowException 0 ''Darwin CPU time is too large to scale'' m)
     | Some ns \<Rightarrow> (Some ns, m))"
proof -
  let ?n = "ucast (numer (timebase g)) :: u64" and ?d = "ucast (denom (timebase g)) :: u64"
  let ?w = "unat v div unat ?d * unat ?n" and ?f = "unat v mod unat ?d * unat ?n div unat ?d"
  have nd: "?n \<noteq> 0" "?d \<noteq> 0" using assms by (simp_all add: unat_eq_0 [symmetric])
  have total: "unat v * unat ?n div unat ?d = ?w + ?f"
    using assms by (intro quotient_and_fraction) (simp add: unat_eq_0)
  have f: "unat ((v mod ?d) * ?n div ?d) = ?f" using fraction_no_wrap [OF assms(2)] by (simp add: unat_div)
  have wg: "UINT64_MAX div ?n < v div ?d \<longleftrightarrow> 2 ^ 64 \<le> ?w"
    using portable_guard [OF nd(1), of "v div ?d"] by (simp add: unat_div mult.commute)
  show ?thesis
  proof (cases "2 ^ 64 \<le> ?w")
    case True
    then show ?thesis using nd wg total by (simp add: perfidious_darwin_mach_time_to_ns_def scale_exact Let_def)
  next
    case False
    then have w: "unat (v div ?d * ?n) = ?w" by (subst unat_mult_no_wrap) (simp_all add: unat_div)
    then have fg: "UINT64_MAX - (v mod ?d) * ?n div ?d < v div ?d * ?n \<longleftrightarrow> 2 ^ 64 \<le> ?w + ?f"
      by (simp only: add_guard_iff f)
    have "v div ?d * ?n + (v mod ?d) * ?n div ?d = of_nat (?w + ?f)"
      unfolding of_nat_add f [symmetric] w [symmetric] by simp
    then show ?thesis
      using nd wg fg total False by (simp add: perfidious_darwin_mach_time_to_ns_def scale_exact Let_def not_le)
  qed
qed

text \<open>A valid time of \<open>thread_info\<close> always fits.\<close>

lemma time_value_exact:
  assumes "0 \<le> tv_seconds v" "tv_seconds v < 2 ^ 31" "0 \<le> tv_microseconds v" "tv_microseconds v < 1000000"
  shows "perfidious_darwin_time_value_to_ns v m =
    (Some (of_int (tv_seconds v * 1000000000 + tv_microseconds v * 1000)), m)"
proof -
  let ?us = "to_u64 (tv_microseconds v)" and ?s = "to_u64 (tv_seconds v)"
  have u: "unat ?us = nat (tv_microseconds v)" "unat ?s = nat (tv_seconds v)"
    using assms uint_of_int_64 [of "tv_microseconds v"] uint_of_int_64 [of "tv_seconds v"]
    by (simp_all add: to_u64_def flip: nat_uint_eq)
  have "unat (?us * 1000) = nat (tv_microseconds v) * 1000"
    using assms by (subst unat_mult_no_wrap) (simp_all add: u)
  then have "unat (UINT64_MAX - ?us * 1000) = 2 ^ 64 - 1 - nat (tv_microseconds v) * 1000"
    using assms by (subst unat_sub_no_wrap) (simp_all add: word_less_nat_alt)
  then have "\<not> (UINT64_MAX - ?us * 1000) div 1000000000 < ?s"
    using assms by (simp add: word_less_nat_alt unat_div u)
  then show ?thesis using assms by (simp add: perfidious_darwin_time_value_to_ns_def Let_def to_u64_def)
qed

section \<open>Every failure is reported\<close>

abbreviation held :: "('k, 'z) dmachine \<Rightarrow> nat multiset" where
  "held m \<equiv> rights (trace m)"

lemma dar_call_result:
  "dar_call f m = (r, m') \<Longrightarrow> trace m' = trace m \<and> exceptions m' = exceptions m"
  by (auto simp: dar_call_def split: prod.splits)

lemma dar_errno_call_result:
  "dar_errno_call f m = (r, m') \<Longrightarrow> trace m' = trace m \<and> exceptions m' = exceptions m"
  by (auto simp: dar_errno_call_def split: prod.splits sum.splits)

lemma dar_logged_simps [simp]:
  "kernel (dar_logged ev k m) = k" "trace (dar_logged ev k m) = ev # trace m"
  "exceptions (dar_logged ev k m) = exceptions m"
  by (simp_all add: dar_logged_def)

lemma mach_time_reports: "reports held (perfidious_darwin_mach_time_to_ns g v)"
  unfolding reports_def by (auto simp: perfidious_darwin_mach_time_to_ns_def Let_def diagnosed_def split: if_splits)

lemma time_value_reports: "reports held (perfidious_darwin_time_value_to_ns v)"
  unfolding reports_def by (auto simp: perfidious_darwin_time_value_to_ns_def Let_def diagnosed_def split: if_splits)

lemma thread_id_reports: "reports held (perfidious_darwin_get_current_thread_id os)"
  unfolding reports_def
  by (auto simp: perfidious_darwin_get_current_thread_id_def perfidious_darwin_throw_errno_def diagnosed_def
      split: prod.splits sum.splits dest!: dar_call_result)

lemma selfcounts_reports: "reports held (selfcounts_usage g usage)"
  unfolding selfcounts_usage_def by (intro reports_or_fail mach_time_reports reports_return)

text \<open>The send right of the thread is given back on every path.\<close>

lemma basic_info_reports: "reports held (basic_info_usage os)"
  unfolding reports_def
proof (intro allI impI)
  fix m r m'
  assume a: "basic_info_usage os m = (r, m')"
  obtain port k where s: "dar_mach_thread_self os (kernel m) = (port, k)" by fastforce
  obtain i k2 where t: "dar_thread_info os port k = (i, k2)" by fastforce
  let ?m3 = "mach_port_deallocate os port ((dar_logged (EvMachThreadSelf port) k m)\<lparr>kernel := k2\<rparr>)"
  have m3: "held ?m3 = held m" "exceptions ?m3 = exceptions m"
    by (simp_all add: mach_port_deallocate_def)
  let ?cont = "\<lambda>b. \<lambda>m. or_fail (perfidious_darwin_time_value_to_ns (tbi_user_time b) m) (\<lambda>user m4.
    or_fail (perfidious_darwin_time_value_to_ns (tbi_system_time b) m4) (\<lambda>system m5.
      (Some \<lparr>tu_user_time_ns = user, tu_system_time_ns = system, tu_instructions = 0, tu_cycles = 0\<rparr>, m5)))"
  have eq: "basic_info_usage os m = (case i of
      Inl error \<Rightarrow> (None, perfidious_darwin_throw_mach ''thread_info'' error ?m3) | Inr b \<Rightarrow> ?cont b ?m3)"
    using s t by (simp add: basic_info_usage_def mach_thread_self_def dar_call_def Let_def)
  have rep: "reports held (?cont b)" for b by (intro reports_or_fail time_value_reports reports_return)
  show "held m' = held m \<and> (if r = None then diagnosed m m' else exceptions m' = exceptions m)"
  proof (cases i)
    case (Inl e)
    with a eq m3 show ?thesis by (auto simp: perfidious_darwin_throw_mach_def diagnosed_def)
  next
    case (Inr b)
    then have "?cont b ?m3 = (r, m')" using a eq by simp
    from reports_after [OF rep this m3] show ?thesis .
  qed
qed

lemma thread_usage_reports: "reports held (perfidious_darwin_read_current_thread_resource_usage os g)"
  unfolding reports_def
proof (intro allI impI)
  fix m r m'
  assume a: "perfidious_darwin_read_current_thread_resource_usage os g m = (r, m')"
  obtain u m1 where c: "dar_errno_call (dar_thread_selfcounts os) m = (u, m1)" by fastforce
  note m1 = dar_errno_call_result [OF c]
  show "held m' = held m \<and> (if r = None then diagnosed m m' else exceptions m' = exceptions m)"
  proof (cases "thread_selfcounts_found g")
    case False
    then have "basic_info_usage os m = (r, m')"
      using a by (simp add: perfidious_darwin_read_current_thread_resource_usage_def)
    then show ?thesis by (rule reportsD [OF basic_info_reports])
  next
    case found: True
    show ?thesis
    proof (cases u)
      case (Some usage)
      then have "selfcounts_usage g usage m1 = (r, m')"
        using a c found by (simp add: perfidious_darwin_read_current_thread_resource_usage_def)
      from reports_after [OF selfcounts_reports this] m1 show ?thesis by simp
    next
      case None
      show ?thesis
      proof (cases "errno m1 \<noteq> DARWIN_ENOTSUP \<and> errno m1 \<noteq> DARWIN_ENOSYS")
        case True
        with a c found None m1 show ?thesis
          by (auto simp: perfidious_darwin_read_current_thread_resource_usage_def perfidious_darwin_throw_errno_def
              diagnosed_def)
      next
        case False
        then have "basic_info_usage os m1 = (r, m')"
          using a c found None by (auto simp: perfidious_darwin_read_current_thread_resource_usage_def)
        from reports_after [OF basic_info_reports this] m1 show ?thesis by simp
      qed
    qed
  qed
qed

end
