(* ===== verification/Darwin_Sampler.thy ===== *)
theory Darwin_Sampler
  imports Darwin_Os
begin

text \<open>
  The Darwin backend of the sampler (\<open>src/darwin/sampler.c\<close>). A sampler owns no system resources; it
  remembers its metrics, its scope and, for the scope of a thread, the thread that opened it.
\<close>

section \<open>Data\<close>

record darwin_platform_sampler =
  ds_metrics :: u32
  ds_scope :: perfidious_scope_id
  ds_thread_id :: u64

definition base_process_metrics :: u32 where
  "base_process_metrics = PERFIDIOUS_METRIC_MASK PERFIDIOUS_METRIC_CPU_TIME OR
     PERFIDIOUS_METRIC_MASK PERFIDIOUS_METRIC_PAGE_FAULTS OR PERFIDIOUS_METRIC_MASK PERFIDIOUS_METRIC_CONTEXT_SWITCHES"

definition nominal_process_metrics :: u32 where
  "nominal_process_metrics = base_process_metrics OR PERFIDIOUS_METRIC_MASK PERFIDIOUS_METRIC_CPU_CYCLES"

section \<open>Helpers\<close>

definition perfidious_darwin_store_cpu_time ::
  "u64 \<Rightarrow> u64 \<Rightarrow> snapshot \<Rightarrow> ('k, 'z) dmachine \<Rightarrow> snapshot option \<times> ('k, 'z) dmachine" where
  "perfidious_darwin_store_cpu_time user_time_ns system_time_ns snap m =
     (if UINT64_MAX - system_time_ns < user_time_ns
      then (None, zend_throw_exception OverflowException 0 ''Darwin total CPU time overflow'' m)
      else (Some (snap(PERFIDIOUS_METRIC_CPU_TIME := user_time_ns + system_time_ns)), m))"

text \<open>The exception of a call that failed with \<open>errno\<close>.\<close>

definition darwin_call_failed :: "'k darwin_os \<Rightarrow> string \<Rightarrow> ('k, 'z) dmachine \<Rightarrow> ('k, 'z) dmachine" where
  "darwin_call_failed os call m =
     zend_throw_exception IOException (errno m)
       (call @ '' failed: ['' @ show_int (errno m) @ ''] '' @ dar_strerror os (errno m)) m"

definition perfidious_darwin_read_process_usage ::
  "'k darwin_os \<Rightarrow> ('k, 'z) dmachine \<Rightarrow> rusage_info_v4 option \<times> ('k, 'z) dmachine" where
  "perfidious_darwin_read_process_usage os m =
     (case dar_errno_call (dar_proc_pid_rusage os) m of
        (None, m1) \<Rightarrow> (None, darwin_call_failed os ''proc_pid_rusage'' m1)
      | (Some usage, m1) \<Rightarrow> (Some usage, m1))"

section \<open>Support, opening, closing\<close>

definition darwin_sampler_supported_metrics ::
  "'k darwin_os \<Rightarrow> u32 \<Rightarrow> perfidious_scope_id \<Rightarrow> ('k, 'z) dmachine \<Rightarrow> u32 option \<times> ('k, 'z) dmachine" where
  "darwin_sampler_supported_metrics os requested_metrics scope m =
     (if scope = PERFIDIOUS_SCOPE_CURRENT_THREAD then (Some (PERFIDIOUS_METRIC_MASK PERFIDIOUS_METRIC_CPU_TIME), m)
      else if requested_metrics AND NOT nominal_process_metrics \<noteq> 0 then (Some nominal_process_metrics, m)
      else if requested_metrics AND PERFIDIOUS_METRIC_MASK PERFIDIOUS_METRIC_CPU_CYCLES = 0
      then (Some base_process_metrics, m)
      else or_fail (perfidious_darwin_read_process_usage os m) (\<lambda>usage m1.
        (Some (if ri_cycles usage \<noteq> 0
               then base_process_metrics OR PERFIDIOUS_METRIC_MASK PERFIDIOUS_METRIC_CPU_CYCLES
               else base_process_metrics), m1)))"

definition darwin_sampler_open ::
  "'k darwin_os \<Rightarrow> u32 \<Rightarrow> perfidious_scope_id \<Rightarrow> ('k, 'z) dmachine
    \<Rightarrow> darwin_platform_sampler option \<times> ('k, 'z) dmachine" where
  "darwin_sampler_open os metrics scope m =
     (let result = \<lparr>ds_metrics = metrics, ds_scope = scope, ds_thread_id = 0\<rparr>
      in if scope = PERFIDIOUS_SCOPE_CURRENT_THREAD
         then or_fail (perfidious_darwin_get_current_thread_id os m) (\<lambda>thread_id m1.
                (Some (result\<lparr>ds_thread_id := thread_id\<rparr>), m1))
         else (Some result, m))"

definition darwin_sampler_close :: "darwin_platform_sampler \<Rightarrow> ('k, 'z) dmachine \<Rightarrow> ('k, 'z) dmachine" where
  "darwin_sampler_close s m = m"

section \<open>Reading\<close>

definition darwin_read_thread ::
  "'k darwin_os \<Rightarrow> darwin_statics \<Rightarrow> darwin_platform_sampler \<Rightarrow> ('k, 'z) dmachine
    \<Rightarrow> snapshot option \<times> ('k, 'z) dmachine" where
  "darwin_read_thread os g s m =
     or_fail (perfidious_darwin_get_current_thread_id os m) (\<lambda>thread_id m1.
       if thread_id \<noteq> ds_thread_id s
       then (None, zend_throw_exception WrongThreadException 0
               ''Darwin current-thread sampler must be read from the thread that opened it'' m1)
       else or_fail (perfidious_darwin_read_current_thread_resource_usage os g m1) (\<lambda>usage.
              perfidious_darwin_store_cpu_time (tu_user_time_ns usage) (tu_system_time_ns usage) (\<lambda>_. 0)))"

text \<open>The CPU time and the cycles of the process, from one call.\<close>

definition darwin_read_usage ::
  "'k darwin_os \<Rightarrow> darwin_statics \<Rightarrow> u32 \<Rightarrow> snapshot \<Rightarrow> ('k, 'z) dmachine \<Rightarrow> snapshot option \<times> ('k, 'z) dmachine" where
  "darwin_read_usage os g metrics snap m =
     or_fail (perfidious_darwin_read_process_usage os m) (\<lambda>usage m1.
     or_fail (if metrics AND PERFIDIOUS_METRIC_MASK PERFIDIOUS_METRIC_CPU_TIME \<noteq> 0
              then or_fail (perfidious_darwin_mach_time_to_ns g (ri_user_time usage) m1) (\<lambda>user_time_ns m2.
                   or_fail (perfidious_darwin_mach_time_to_ns g (ri_system_time usage) m2) (\<lambda>system_time_ns.
                     perfidious_darwin_store_cpu_time user_time_ns system_time_ns snap))
              else (Some snap, m1)) (\<lambda>snap1 m2.
       (Some (if metrics AND PERFIDIOUS_METRIC_MASK PERFIDIOUS_METRIC_CPU_CYCLES \<noteq> 0
              then snap1(PERFIDIOUS_METRIC_CPU_CYCLES := ri_cycles usage) else snap1), m2)))"

text \<open>Two counts of type \<open>long\<close>, checked and added.\<close>

definition darwin_store_sum ::
  "string \<Rightarrow> perfidious_metric_id \<Rightarrow> int \<Rightarrow> int \<Rightarrow> snapshot \<Rightarrow> ('k, 'z) dmachine
    \<Rightarrow> snapshot option \<times> ('k, 'z) dmachine" where
  "darwin_store_sum what metric a b snap m =
     (if a < 0 \<or> b < 0
      then (None, zend_throw_exception IOException 0 (''getrusage returned a negative '' @ what @ '' count'') m)
      else if UINT64_MAX - to_u64 b < to_u64 a
      then (None, zend_throw_exception OverflowException 0 (''Darwin '' @ what @ '' count overflow'') m)
      else (Some (snap(metric := to_u64 a + to_u64 b)), m))"

text \<open>The page faults and the context switches of the process, from one call.\<close>

definition darwin_read_rusage ::
  "'k darwin_os \<Rightarrow> u32 \<Rightarrow> snapshot \<Rightarrow> ('k, 'z) dmachine \<Rightarrow> snapshot option \<times> ('k, 'z) dmachine" where
  "darwin_read_rusage os metrics snap m =
     (case dar_errno_call (dar_getrusage os) m of
        (None, m1) \<Rightarrow> (None, darwin_call_failed os ''getrusage'' m1)
      | (Some usage, m1) \<Rightarrow>
          or_fail (if metrics AND PERFIDIOUS_METRIC_MASK PERFIDIOUS_METRIC_PAGE_FAULTS \<noteq> 0
                   then darwin_store_sum ''page-fault'' PERFIDIOUS_METRIC_PAGE_FAULTS (ru_minflt usage)
                          (ru_majflt usage) snap m1
                   else (Some snap, m1)) (\<lambda>snap1 m2.
            if metrics AND PERFIDIOUS_METRIC_MASK PERFIDIOUS_METRIC_CONTEXT_SWITCHES \<noteq> 0
            then darwin_store_sum ''context-switch'' PERFIDIOUS_METRIC_CONTEXT_SWITCHES (ru_nvcsw usage)
                   (ru_nivcsw usage) snap1 m2
            else (Some snap1, m2)))"

definition darwin_read_process ::
  "'k darwin_os \<Rightarrow> darwin_statics \<Rightarrow> u32 \<Rightarrow> ('k, 'z) dmachine \<Rightarrow> snapshot option \<times> ('k, 'z) dmachine" where
  "darwin_read_process os g metrics m =
     or_fail (if metrics AND (PERFIDIOUS_METRIC_MASK PERFIDIOUS_METRIC_CPU_TIME OR
                   PERFIDIOUS_METRIC_MASK PERFIDIOUS_METRIC_CPU_CYCLES) \<noteq> 0
              then darwin_read_usage os g metrics (\<lambda>_. 0) m else (Some (\<lambda>_. 0), m)) (\<lambda>snap m1.
       if metrics AND (PERFIDIOUS_METRIC_MASK PERFIDIOUS_METRIC_PAGE_FAULTS OR
            PERFIDIOUS_METRIC_MASK PERFIDIOUS_METRIC_CONTEXT_SWITCHES) \<noteq> 0
       then darwin_read_rusage os metrics snap m1 else (Some snap, m1))"

text \<open>Reading never changes the sampler.\<close>

definition darwin_sampler_read ::
  "'k darwin_os \<Rightarrow> darwin_statics \<Rightarrow> darwin_platform_sampler \<Rightarrow> ('k, 'z) dmachine
    \<Rightarrow> (snapshot option \<times> darwin_platform_sampler \<times> ('k, 'z) dmachine) option" where
  "darwin_sampler_read os g s m =
     (case (if ds_scope s = PERFIDIOUS_SCOPE_CURRENT_THREAD then darwin_read_thread os g s m
            else darwin_read_process os g (ds_metrics s) m) of (r, m') \<Rightarrow> Some (r, s, m'))"

definition darwin_backend ::
  "'k darwin_os \<Rightarrow> darwin_statics \<Rightarrow> (('k, 'z) dmachine, darwin_platform_sampler) sampler_backend" where
  "darwin_backend os g = \<lparr>
     platform_sampler_supported_metrics = darwin_sampler_supported_metrics os,
     platform_sampler_open = darwin_sampler_open os,
     platform_sampler_read = darwin_sampler_read os g,
     platform_sampler_close = darwin_sampler_close,
     hrtime_current = dar_call (dar_hrtime os)\<rparr>"

section \<open>The Darwin backend meets the contract\<close>

lemma store_cpu_time_reports: "reports held (perfidious_darwin_store_cpu_time u s snap)"
  unfolding reports_def by (auto simp: perfidious_darwin_store_cpu_time_def diagnosed_def split: if_splits)

lemma store_sum_reports: "reports held (darwin_store_sum what metric a b snap)"
  unfolding reports_def by (auto simp: darwin_store_sum_def diagnosed_def split: if_splits)

lemma process_usage_reports: "reports held (perfidious_darwin_read_process_usage os)"
  unfolding reports_def
  by (auto simp: perfidious_darwin_read_process_usage_def darwin_call_failed_def diagnosed_def
      split: prod.splits option.splits dest!: dar_errno_call_result)

lemma supported_reports: "reports held (darwin_sampler_supported_metrics os v scope)"
  unfolding darwin_sampler_supported_metrics_def
  by (intro reports_if reports_or_fail process_usage_reports reports_return)

lemma open_reports: "reports held (darwin_sampler_open os v scope)"
  unfolding darwin_sampler_open_def Let_def
  by (intro reports_if reports_or_fail thread_id_reports reports_return)

lemma read_thread_reports: "reports held (darwin_read_thread os g s)"
  unfolding darwin_read_thread_def
  by (intro reports_if reports_or_fail thread_id_reports thread_usage_reports store_cpu_time_reports reports_throw) simp

lemma read_usage_reports: "reports held (darwin_read_usage os g v snap)"
  unfolding darwin_read_usage_def
  by (intro reports_or_fail reports_if process_usage_reports mach_time_reports store_cpu_time_reports reports_return)

lemma read_rusage_reports: "reports held (darwin_read_rusage os v snap)"
  unfolding reports_def
proof (intro allI impI)
  fix m r m'
  assume a: "darwin_read_rusage os v snap m = (r, m')"
  let ?cont = "\<lambda>usage m1. or_fail (if v AND PERFIDIOUS_METRIC_MASK PERFIDIOUS_METRIC_PAGE_FAULTS \<noteq> 0
                   then darwin_store_sum ''page-fault'' PERFIDIOUS_METRIC_PAGE_FAULTS (ru_minflt usage)
                          (ru_majflt usage) snap m1
                   else (Some snap, m1)) (\<lambda>snap1 m2.
            if v AND PERFIDIOUS_METRIC_MASK PERFIDIOUS_METRIC_CONTEXT_SWITCHES \<noteq> 0
            then darwin_store_sum ''context-switch'' PERFIDIOUS_METRIC_CONTEXT_SWITCHES (ru_nvcsw usage)
                   (ru_nivcsw usage) snap1 m2
            else (Some snap1, m2))"
  have rep: "reports held (?cont usage)" for usage
    by (intro reports_or_fail reports_if store_sum_reports reports_return)
  obtain u m1 where c: "dar_errno_call (dar_getrusage os) m = (u, m1)" by fastforce
  note m1 = dar_errno_call_result [OF c]
  show "held m' = held m \<and> (if r = None then diagnosed m m' else exceptions m' = exceptions m)"
  proof (cases u)
    case None
    with a c m1 show ?thesis by (auto simp: darwin_read_rusage_def darwin_call_failed_def diagnosed_def)
  next
    case (Some usage)
    then have "?cont usage m1 = (r, m')" using a c by (simp add: darwin_read_rusage_def)
    from reports_after [OF rep this] m1 show ?thesis by simp
  qed
qed

lemma read_process_reports: "reports held (darwin_read_process os g v)"
  unfolding darwin_read_process_def
  by (intro reports_or_fail reports_if read_usage_reports read_rusage_reports reports_return)

interpretation darwin: platform_sampler "darwin_backend os g" held "\<lambda>_. {#}"
proof (unfold_locales, goal_cases)
  case 1
  then show ?case by simp
next
  case 2
  then show ?case by (intro reportsD [OF supported_reports]) (simp add: darwin_backend_def)
next
  case (3 v scope m s m')
  then show ?case using reportsD [OF open_reports, of os v scope m "Some s" m'] by (simp add: darwin_backend_def)
next
  case (4 v scope m m')
  then show ?case using reportsD [OF open_reports, of os v scope m None m'] by (simp add: darwin_backend_def)
next
  case (5 s m r s' m')
  then show ?case
    using reportsD [OF read_thread_reports, of os g s m r m'] reportsD [OF read_process_reports, of os g "ds_metrics s" m r m']
    by (simp add: darwin_backend_def darwin_sampler_read_def split: prod.splits if_splits)
next
  case 6
  then show ?case by (simp add: darwin_backend_def darwin_sampler_close_def)
next
  case 7
  then show ?case by (auto simp: darwin_backend_def dest!: dar_call_result)
qed

end
