(* ===== verification/Darwin_Functions.thy ===== *)
theory Darwin_Functions
  imports Darwin_Os
begin

text \<open>
  The two PHP functions of \<open>src/darwin/functions.c\<close>: the resource usage of the current process and of the
  current thread, as objects of integers.
\<close>

definition darwin_class :: "string \<Rightarrow> string" where
  "darwin_class s = ''Darwin'' @ [CHR 0x5C] @ s"

definition darwin_overflow_message :: "string \<Rightarrow> u64 \<Rightarrow> string" where
  "darwin_overflow_message field_name v =
     ''Darwin '' @ field_name @ '' value '' @ show_hex64 v @ '' is too large to represent as a PHP integer''"

definition perfidious_darwin_uint64_to_zend_long ::
  "string \<Rightarrow> u64 \<Rightarrow> ('k, 'e, 'z) machine_scheme \<Rightarrow> zend_long option \<times> ('k, 'e, 'z) machine_scheme" where
  "perfidious_darwin_uint64_to_zend_long field_name v m =
     (if to_u64 ZEND_LONG_MAX < v
      then (None, zend_throw_exception OverflowException 0 (darwin_overflow_message field_name v) m)
      else (Some (sint v), m))"

interpretation darwin_to_long: checked_to_long "perfidious_darwin_uint64_to_zend_long field_name"
  "darwin_overflow_message field_name" for field_name
  by unfold_locales
    (simp_all add: perfidious_darwin_uint64_to_zend_long_def zend_long_max_guard sint_eq_uint_64)

text \<open>A property of the result: its name, the name of the field in messages, the value.\<close>

type_synonym usage_field = "string \<times> string \<times> u64"

text \<open>All fields are converted, the first that does not fit ends the call; then the object is made.\<close>

definition usage_object :: "string \<Rightarrow> usage_field list \<Rightarrow> ('k, 'z) dmachine \<Rightarrow> zval \<times> ('k, 'z) dmachine" where
  "usage_object cls fs m =
     (case convert_chain (map (\<lambda>(_, field_name, v). perfidious_darwin_uint64_to_zend_long field_name v) fs) m of
        (None, m1) \<Rightarrow> (ZNull, m1)
      | (Some longs, m1) \<Rightarrow> (ZObject (darwin_class cls) (zip (map fst fs) (map ZLong longs)), m1))"

definition process_fields :: "u64 \<Rightarrow> u64 \<Rightarrow> rusage_info_v4 \<Rightarrow> rusage \<Rightarrow> usage_field list" where
  "process_fields user_time_ns system_time_ns process_usage basic_usage =
     [(''userTimeNs'', ''user time'', user_time_ns),
      (''systemTimeNs'', ''system time'', system_time_ns),
      (''minorPageFaultCount'', ''minor page fault count'', to_u64 (ru_minflt basic_usage)),
      (''majorPageFaultCount'', ''major page fault count'', to_u64 (ru_majflt basic_usage)),
      (''voluntaryContextSwitchCount'', ''voluntary context switch count'', to_u64 (ru_nvcsw basic_usage)),
      (''involuntaryContextSwitchCount'', ''involuntary context switch count'', to_u64 (ru_nivcsw basic_usage)),
      (''instructionCount'', ''instruction count'', ri_instructions process_usage),
      (''cycleCount'', ''cycle count'', ri_cycles process_usage)]"

definition get_current_process_resource_usage ::
  "'k darwin_os \<Rightarrow> darwin_statics \<Rightarrow> ('k, 'z) dmachine \<Rightarrow> zval \<times> ('k, 'z) dmachine" where
  "get_current_process_resource_usage os g m =
     (case dar_errno_call (dar_proc_pid_rusage os) m of
        (None, m1) \<Rightarrow> (ZNull, perfidious_darwin_throw_errno os ''proc_pid_rusage'' (errno m1) m1)
      | (Some process_usage, m1) \<Rightarrow>
          (case dar_errno_call (dar_getrusage os) m1 of
             (None, m2) \<Rightarrow> (ZNull, perfidious_darwin_throw_errno os ''getrusage'' (errno m2) m2)
           | (Some basic_usage, m2) \<Rightarrow>
               (case perfidious_darwin_mach_time_to_ns g (ri_user_time process_usage) m2 of
                  (None, m3) \<Rightarrow> (ZNull, m3)
                | (Some user_time_ns, m3) \<Rightarrow>
                    (case perfidious_darwin_mach_time_to_ns g (ri_system_time process_usage) m3 of
                       (None, m4) \<Rightarrow> (ZNull, m4)
                     | (Some system_time_ns, m4) \<Rightarrow>
                         usage_object ''ProcessResourceUsage''
                           (process_fields user_time_ns system_time_ns process_usage basic_usage) m4))))"

definition thread_fields :: "perfidious_darwin_thread_resource_usage \<Rightarrow> usage_field list" where
  "thread_fields usage =
     [(''userTimeNs'', ''thread user time'', tu_user_time_ns usage),
      (''systemTimeNs'', ''thread system time'', tu_system_time_ns usage),
      (''instructionCount'', ''thread instruction count'', tu_instructions usage),
      (''cycleCount'', ''thread cycle count'', tu_cycles usage)]"

definition get_current_thread_resource_usage ::
  "'k darwin_os \<Rightarrow> darwin_statics \<Rightarrow> ('k, 'z) dmachine \<Rightarrow> zval \<times> ('k, 'z) dmachine" where
  "get_current_thread_resource_usage os g m =
     (case perfidious_darwin_read_current_thread_resource_usage os g m of
        (None, m1) \<Rightarrow> (ZNull, m1)
      | (Some usage, m1) \<Rightarrow> usage_object ''ThreadResourceUsage'' (thread_fields usage) m1)"

section \<open>The object of a list of fields\<close>

lemma darwin_chain_fits:
  "\<forall>(_, _, v) \<in> set fs. uint v < 2 ^ 63 \<Longrightarrow>
     convert_chain (map (\<lambda>(_, field_name, v). perfidious_darwin_uint64_to_zend_long field_name v) fs) m =
       (Some (map (\<lambda>(_, _, v). uint v) fs), m)"
  by (induction fs) (auto simp: darwin_to_long.fits)

lemma darwin_chain_overflows:
  "\<forall>(_, _, v) \<in> set before. uint v < 2 ^ 63 \<Longrightarrow> 2 ^ 63 \<le> uint w \<Longrightarrow>
     convert_chain (map (\<lambda>(_, field_name, v). perfidious_darwin_uint64_to_zend_long field_name v)
         (before @ (n, f, w) # after)) m =
       (None, zend_throw_exception OverflowException 0 (darwin_overflow_message f w) m)"
  by (induction before) (auto simp: darwin_to_long.fits darwin_to_long.too_large)

text \<open>Either every value fits and the object has them all under their names, or the first that does
  not is named in the only exception and nothing is returned.\<close>

lemma usage_object_cases:
  obtains
    (fits) "\<forall>(_, _, v) \<in> set fs. uint v < 2 ^ 63"
      "usage_object cls fs m =
         (ZObject (darwin_class cls) (map (\<lambda>(n, _, v). (n, ZLong (uint v))) fs), m)"
  | (overflows) before n f w after where "fs = before @ (n, f, w) # after" "2 ^ 63 \<le> uint w"
      "\<forall>(_, _, v) \<in> set before. uint v < 2 ^ 63"
      "usage_object cls fs m =
         (ZNull, zend_throw_exception OverflowException 0 (darwin_overflow_message f w) m)"
proof (cases "\<forall>(_, _, v) \<in> set fs. uint v < 2 ^ 63")
  case True
  have "zip (map fst fs) (map (ZLong \<circ> (\<lambda>(_, _, v). uint v)) fs) = map (\<lambda>(n, _, v). (n, ZLong (uint v))) fs"
    by (induction fs) auto
  with darwin_chain_fits [OF True, of m] show ?thesis by (intro fits True) (simp add: usage_object_def)
next
  case False
  then have "\<exists>x \<in> set fs. \<not> (case x of (_, _, v) \<Rightarrow> uint v < 2 ^ 63)" by blast
  from split_list_first_prop [OF this] obtain before x after where
    "fs = before @ x # after" "\<not> (case x of (_, _, v) \<Rightarrow> uint v < 2 ^ 63)"
    "\<forall>y \<in> set before. \<not> \<not> (case y of (_, _, v) \<Rightarrow> uint v < 2 ^ 63)" by blast
  moreover obtain n f w where "x = (n, f, w)" by (cases x)
  ultimately have *: "fs = before @ (n, f, w) # after" "2 ^ 63 \<le> uint w"
    "\<forall>(_, _, v) \<in> set before. uint v < 2 ^ 63" by auto
  from darwin_chain_overflows [OF *(3,2), of n f after m] show ?thesis
    by (intro overflows [OF *]) (simp add: usage_object_def *(1))
qed

end
