(* ===== verification/Darwin_Properties.thy ===== *)
theory Darwin_Properties
  imports Darwin_Sampler Darwin_Functions
begin

text \<open>
  The properties of the Darwin backend (\<open>src/darwin\<close>).
\<close>

section \<open>A concrete system\<close>

text \<open>A machine whose Mach time runs at 125/3 nanoseconds per tick and that has no \<open>thread_selfcounts\<close>.\<close>

definition demo_statics :: darwin_statics where
  "demo_statics = \<lparr>thread_selfcounts_found = False, timebase = \<lparr>numer = 125, denom = 3\<rparr>\<rparr>"

definition demo_usage :: rusage_info_v4 where
  "demo_usage = \<lparr>ri_user_time = 7, ri_system_time = 9, ri_instructions = 500, ri_cycles = 900\<rparr>"

definition demo_darwin :: "nat darwin_os" where
  "demo_darwin = \<lparr>
     dar_pthread_threadid_np = (\<lambda>t. (Inr 11, Suc t)),
     dar_thread_selfcounts = (\<lambda>t. (Inl DARWIN_ENOSYS, Suc t)),
     dar_mach_thread_self = (\<lambda>t. (5, Suc t)),
     dar_thread_info = (\<lambda>port t. (Inr \<lparr>tbi_user_time = \<lparr>tv_seconds = 1, tv_microseconds = 2\<rparr>,
       tbi_system_time = \<lparr>tv_seconds = 0, tv_microseconds = 3\<rparr>\<rparr>, Suc t)),
     dar_mach_port_deallocate = (\<lambda>port t. Suc t),
     dar_proc_pid_rusage = (\<lambda>t. (Inr demo_usage, Suc t)),
     dar_getrusage = (\<lambda>t. (Inr \<lparr>ru_minflt = 20, ru_majflt = 2, ru_nvcsw = 3, ru_nivcsw = 4\<rparr>, Suc t)),
     dar_dlsym_thread_selfcounts = (\<lambda>t. (False, t)),
     dar_mach_timebase_info = (\<lambda>t. (Inr \<lparr>numer = 125, denom = 3\<rparr>, t)),
     dar_strerror = (\<lambda>e. ''error''),
     dar_hrtime = (\<lambda>t. (of_nat t, t))\<rparr>"

definition demo_darwin_machine :: "(nat, darwin_event) machine" where
  "demo_darwin_machine = \<lparr>kernel = 3, errno = 0, trace = [], exceptions = [], warnings = [],
     error_mode = PERFIDIOUS_ERROR_MODE_THROW\<rparr>"

definition demo_darwin_world :: "((nat, darwin_event) machine, darwin_platform_sampler) sampler_world" where
  "demo_darwin_world = \<lparr>engine = demo_darwin_machine, samplers = Map.empty, samples = Map.empty, deltas = Map.empty,
     identities = Map.empty, fresh = 0\<rparr>"

section \<open>Times\<close>

text \<open>C33 (mach_time_is_exact). Converting Mach time in 64-bit arithmetic, by quotient and remainder,
  gives what the 128-bit scaling routine gives for the ratio of the timebase: the exact number of
  nanoseconds rounded down, or an \<open>OverflowException\<close> exactly when that does not fit. A ratio with a zero
  is refused with an \<open>IOException\<close>; nothing is divided by zero.\<close>

theorem mach_time_is_exact:
  "perfidious_darwin_mach_time_to_ns g v m =
     (if numer (timebase g) = 0 \<or> denom (timebase g) = 0
      then (None, zend_throw_exception IOException 0 ''mach_timebase_info returned an invalid ratio'' m)
      else case perfidious_scale_uint64 v (ucast (numer (timebase g))) (ucast (denom (timebase g))) of
         None \<Rightarrow> (None, zend_throw_exception OverflowException 0 ''Darwin CPU time is too large to scale'' m)
       | Some ns \<Rightarrow> (Some ns, m))"
proof (cases "numer (timebase g) = 0 \<or> denom (timebase g) = 0")
  case True
  then show ?thesis by (auto simp: perfidious_darwin_mach_time_to_ns_def)
next
  case False
  then show ?thesis using mach_time_is_scaled [of g v m] by simp
qed

section \<open>Samplers\<close>

text \<open>Over the Darwin backend every sequence of calls on samplers, samples and
  deltas is defined, and in every world it reaches exactly the send rights to Mach ports are held
  that were held before the first sampler: every right a reading obtained was given back, also when the
  reading failed.\<close>

lemma darwin_sampler_no_leak:
  assumes "no_samplers w0" and "sampler_reachable (darwin_backend os g) w0 w"
  shows "rights (trace (engine w)) = rights (trace (engine w0)) \<and>
    (\<forall>r. sampler_step (darwin_backend os g) w r \<longrightarrow> r \<noteq> Undefined)"
proof -
  have w: "counted w \<and> accounted held (\<lambda>_. {#}) (held (engine w0)) w"
    using darwin.sampler_reachable_ok [OF assms(2)] no_samplers_counted [OF assms(1)]
      no_samplers_accounted [OF assms(1)] by blast
  moreover have "total_over (native_owned (\<lambda>_. {#})) (samplers w) = {#}"
    unfolding total_over_def native_owned_def by (intro sum.neutral) (auto split: option.splits)
  ultimately show ?thesis using darwin.sampler_step_ok [OF _ w] by (auto simp: accounted_def)
qed

section \<open>What a reading of the process holds\<close>

text \<open>The successful parts of a reading.\<close>

lemma or_fail_Some: "or_fail x f = (Some b, m') \<longleftrightarrow> (\<exists>a m1. x = (Some a, m1) \<and> f a m1 = (Some b, m'))"
  by (cases x; cases "fst x") auto

lemma mach_time_Some:
  "perfidious_darwin_mach_time_to_ns g v m = (Some ns, m') \<Longrightarrow>
     m' = m \<and> unat ns = unat v * unat (numer (timebase g)) div unat (denom (timebase g))"
proof -
  assume a: "perfidious_darwin_mach_time_to_ns g v m = (Some ns, m')"
  then have nz: "numer (timebase g) \<noteq> 0" "denom (timebase g) \<noteq> 0"
    by (auto simp: perfidious_darwin_mach_time_to_ns_def)
  then have "(ucast (denom (timebase g)) :: u64) \<noteq> 0" by (simp add: unat_eq_0 [symmetric])
  with a mach_time_is_scaled [OF nz, of v m] wide.sound show ?thesis
    by (fastforce split: option.splits)
qed

lemma store_cpu_time_Some:
  "perfidious_darwin_store_cpu_time u s snap m = (Some snap', m') \<longleftrightarrow>
     m' = m \<and> unat u + unat s < 2 ^ 64 \<and> snap' = snap(PERFIDIOUS_METRIC_CPU_TIME := u + s)"
  by (auto simp: perfidious_darwin_store_cpu_time_def add_guard_iff not_le)

lemma store_sum_Some:
  "darwin_store_sum what metric a b snap m = (Some snap', m') \<longleftrightarrow>
     m' = m \<and> 0 \<le> a \<and> 0 \<le> b \<and> unat (to_u64 a) + unat (to_u64 b) < 2 ^ 64 \<and>
     snap' = snap(metric := to_u64 a + to_u64 b)"
  by (auto simp: darwin_store_sum_def add_guard_iff not_le)

lemma errno_call_Some: "dar_errno_call f m = (Some r, m') \<Longrightarrow> \<exists>k k'. f k = (Inr r, k')"
  by (auto simp: dar_errno_call_def split: prod.splits sum.splits)

text \<open>The values of one reading: the time of the process in the ratio of the timebase, its cycles, the sums of its page
  faults and of its context switches.\<close>

definition process_values ::
  "mach_timebase \<Rightarrow> rusage_info_v4 \<Rightarrow> rusage \<Rightarrow> perfidious_metric_id \<Rightarrow> nat" where
  "process_values tb u b metric =
     (case metric of
        PERFIDIOUS_METRIC_CPU_TIME \<Rightarrow>
          unat (ri_user_time u) * unat (numer tb) div unat (denom tb) +
          unat (ri_system_time u) * unat (numer tb) div unat (denom tb)
      | PERFIDIOUS_METRIC_CPU_CYCLES \<Rightarrow> unat (ri_cycles u)
      | PERFIDIOUS_METRIC_PAGE_FAULTS \<Rightarrow> unat (to_u64 (ru_minflt b)) + unat (to_u64 (ru_majflt b))
      | PERFIDIOUS_METRIC_CONTEXT_SWITCHES \<Rightarrow> unat (to_u64 (ru_nvcsw b)) + unat (to_u64 (ru_nivcsw b))
      | _ \<Rightarrow> 0)"

lemma unat_sum_fits: "unat a + unat b < 2 ^ 64 \<Longrightarrow> unat (a + b) = unat a + unat b" for a b :: u64
  by (simp add: unat_word_ariths)

lemma read_usage_Some:
  assumes "darwin_read_usage os g v (\<lambda>_. 0) m = (Some snap, m')"
  obtains u k k' where "dar_proc_pid_rusage os k = (Inr u, k')"
    "\<And>b metric. unat (snap metric) =
       (if metric \<in> collected v \<inter> {PERFIDIOUS_METRIC_CPU_TIME, PERFIDIOUS_METRIC_CPU_CYCLES}
        then process_values (timebase g) u b metric else 0)"
proof -
  obtain u m1 snap1 m2 where u: "perfidious_darwin_read_process_usage os m = (Some u, m1)"
    and t: "(if PERFIDIOUS_METRIC_CPU_TIME \<in> collected v
        then or_fail (perfidious_darwin_mach_time_to_ns g (ri_user_time u) m1) (\<lambda>user_time_ns m2.
             or_fail (perfidious_darwin_mach_time_to_ns g (ri_system_time u) m2) (\<lambda>system_time_ns.
               perfidious_darwin_store_cpu_time user_time_ns system_time_ns (\<lambda>_. 0)))
        else (Some (\<lambda>_. 0), m1)) = (Some snap1, m2)"
    and snap: "snap = (if PERFIDIOUS_METRIC_CPU_CYCLES \<in> collected v
        then snap1(PERFIDIOUS_METRIC_CPU_CYCLES := ri_cycles u) else snap1)"
    using assms by (auto simp: darwin_read_usage_def or_fail_Some collected_mask_test)
  have k: "\<exists>k k'. dar_proc_pid_rusage os k = (Inr u, k')"
    using u errno_call_Some [of "dar_proc_pid_rusage os" m u m1]
    by (auto simp: perfidious_darwin_read_process_usage_def split: prod.splits option.splits)
  have "snap1 metric = 0" if "metric \<noteq> PERFIDIOUS_METRIC_CPU_TIME" for metric
    using t that by (auto simp: or_fail_Some store_cpu_time_Some split: if_splits)
  moreover have "unat (snap1 PERFIDIOUS_METRIC_CPU_TIME) = (if PERFIDIOUS_METRIC_CPU_TIME \<in> collected v
      then process_values (timebase g) u b PERFIDIOUS_METRIC_CPU_TIME else 0)" for b
    using t by (auto simp: or_fail_Some store_cpu_time_Some process_values_def unat_sum_fits dest!: mach_time_Some
        split: if_splits)
  ultimately have "unat (snap metric) =
      (if metric \<in> collected v \<inter> {PERFIDIOUS_METRIC_CPU_TIME, PERFIDIOUS_METRIC_CPU_CYCLES}
       then process_values (timebase g) u b metric else 0)" for b metric
    using snap by (cases metric) (auto simp: process_values_def)
  with k that show ?thesis by blast
qed

lemma read_rusage_Some:
  assumes "darwin_read_rusage os v snap m = (Some snap', m')"
  obtains b k k' where "dar_getrusage os k = (Inr b, k')"
    "\<And>u metric. unat (snap' metric) =
       (if metric \<in> collected v \<inter> {PERFIDIOUS_METRIC_PAGE_FAULTS, PERFIDIOUS_METRIC_CONTEXT_SWITCHES}
        then process_values tb u b metric else unat (snap metric))"
proof -
  obtain b m1 where c: "dar_errno_call (dar_getrusage os) m = (Some b, m1)"
    using assms by (auto simp: darwin_read_rusage_def split: prod.splits option.splits)
  obtain snap1 m2 where
    p: "(if PERFIDIOUS_METRIC_PAGE_FAULTS \<in> collected v
       then darwin_store_sum ''page-fault'' PERFIDIOUS_METRIC_PAGE_FAULTS (ru_minflt b) (ru_majflt b) snap m1
       else (Some snap, m1)) = (Some snap1, m2)" and
    x: "(if PERFIDIOUS_METRIC_CONTEXT_SWITCHES \<in> collected v
       then darwin_store_sum ''context-switch'' PERFIDIOUS_METRIC_CONTEXT_SWITCHES (ru_nvcsw b) (ru_nivcsw b) snap1 m2
       else (Some snap1, m2)) = (Some snap', m')"
    using assms c by (auto simp: darwin_read_rusage_def or_fail_Some collected_mask_test)
  have "unat (snap' metric) =
      (if metric \<in> collected v \<inter> {PERFIDIOUS_METRIC_PAGE_FAULTS, PERFIDIOUS_METRIC_CONTEXT_SWITCHES}
       then process_values tb u b metric else unat (snap metric))" for u metric
    using p x by (cases metric) (auto simp: store_sum_Some process_values_def unat_sum_fits split: if_splits)
  with errno_call_Some [OF c] that show ?thesis by blast
qed

text \<open>A successful reading of a process sampler has, for every metric of the sampler, the
  exact value of one call to the system, the CPU time as the sum of user and system time in nanoseconds and
  the page faults and context switches as the sum of both kinds, and 0 for every other metric. It does
  not change the sampler.\<close>

lemma darwin_process_reading:
  assumes "ds_scope s = PERFIDIOUS_SCOPE_CURRENT_PROCESS"
    and "darwin_sampler_read os g s m = Some (Some snap, s', m')"
  shows "s' = s \<and> (\<exists>u b.
    (collected (ds_metrics s) \<inter> {PERFIDIOUS_METRIC_CPU_TIME, PERFIDIOUS_METRIC_CPU_CYCLES} \<noteq> {} \<longrightarrow>
       (\<exists>k k'. dar_proc_pid_rusage os k = (Inr u, k'))) \<and>
    (collected (ds_metrics s) \<inter> {PERFIDIOUS_METRIC_PAGE_FAULTS, PERFIDIOUS_METRIC_CONTEXT_SWITCHES} \<noteq> {} \<longrightarrow>
       (\<exists>k k'. dar_getrusage os k = (Inr b, k'))) \<and>
    (\<forall>metric. unat (snap metric) =
       (if metric \<in> collected (ds_metrics s) then process_values (timebase g) u b metric else 0)))"
proof -
  let ?v = "ds_metrics s"
  let ?U = "collected ?v \<inter> {PERFIDIOUS_METRIC_CPU_TIME, PERFIDIOUS_METRIC_CPU_CYCLES}"
  let ?B = "collected ?v \<inter> {PERFIDIOUS_METRIC_PAGE_FAULTS, PERFIDIOUS_METRIC_CONTEXT_SWITCHES}"
  have test: "?v AND (PERFIDIOUS_METRIC_MASK a OR PERFIDIOUS_METRIC_MASK b) \<noteq> 0 \<longleftrightarrow> collected ?v \<inter> {a, b} \<noteq> {}" for a b
    by (auto simp: bit.conj_disj_distrib or_eq_0_iff collected_mask_test)
  have s': "s' = s" and "darwin_read_process os g ?v m = (Some snap, m')"
    using assms by (auto simp: darwin_sampler_read_def split: prod.splits)
  then obtain snap1 m1 where
    c: "(if ?U \<noteq> {} then darwin_read_usage os g ?v (\<lambda>_. 0) m else (Some (\<lambda>_. 0), m)) = (Some snap1, m1)" and
    d: "(if ?B \<noteq> {} then darwin_read_rusage os ?v snap1 m1 else (Some snap1, m1)) = (Some snap, m')"
    unfolding darwin_read_process_def test or_fail_Some by blast
  obtain u where u: "?U \<noteq> {} \<longrightarrow> (\<exists>k k'. dar_proc_pid_rusage os k = (Inr u, k'))"
    "\<And>b metric. unat (snap1 metric) = (if metric \<in> ?U then process_values (timebase g) u b metric else 0)"
  proof (cases "?U = {}")
    case True
    then show ?thesis using c that by auto
  next
    case False
    then have "darwin_read_usage os g ?v (\<lambda>_. 0) m = (Some snap1, m1)" using c by simp
    then show ?thesis by (rule read_usage_Some) (use that in blast)
  qed
  obtain b where b: "?B \<noteq> {} \<longrightarrow> (\<exists>k k'. dar_getrusage os k = (Inr b, k'))"
    "\<And>metric. unat (snap metric) =
       (if metric \<in> ?B then process_values (timebase g) u b metric else unat (snap1 metric))"
  proof (cases "?B = {}")
    case True
    then show ?thesis using d that by auto
  next
    case False
    then have "darwin_read_rusage os ?v snap1 m1 = (Some snap, m')" using d by simp
    then show ?thesis by (rule read_rusage_Some [where tb = "timebase g"]) (use that in blast)
  qed
  have "unat (snap metric) = (if metric \<in> collected ?v then process_values (timebase g) u b metric else 0)" for metric
    unfolding b(2) u(2) [of _ b] by (cases metric) (auto simp: process_values_def)
  with s' u(1) b(1) show ?thesis by blast
qed

section \<open>Thread samplers\<close>

text \<open>The only metric of a thread sampler.\<close>

lemma single_metric:
  assumes "v AND NOT (PERFIDIOUS_METRIC_MASK a) = 0" "v \<noteq> 0"
  shows "v = PERFIDIOUS_METRIC_MASK a"
proof (rule bit_eqI)
  fix n
  have "v AND PERFIDIOUS_METRIC_MASK a = v"
    using assms(1) by (metis and.right_neutral bit.conj_cancel_right bit.conj_disj_distrib bit.disj_cancel_right or.right_neutral)
  then have imp: "bit v j \<Longrightarrow> bit (PERFIDIOUS_METRIC_MASK a) j" for j by (metis bit_and_iff)
  moreover obtain k where "bit v k" using assms(2) by (metis bit_0_eq bit_eq_iff bot_apply bot_bool_def)
  moreover have "bit (PERFIDIOUS_METRIC_MASK a) j \<longleftrightarrow> j = metric_number a" for j
    using metric_number_bound [of a] by (auto simp: PERFIDIOUS_METRIC_MASK_def bit_simps)
  ultimately show "bit v n = bit (PERFIDIOUS_METRIC_MASK a) n" by metis
qed

text \<open>A thread sampler that \<open>open\<close> can have made measures CPU time
  only, as the assertion of the reading requires, and remembers the thread that opened it; reading it
  from another thread throws a \<open>WrongThreadException\<close> and makes no other call.\<close>

lemma darwin_thread_sampler_reads_own_thread:
  assumes "darwin_sampler_supported_metrics os v PERFIDIOUS_SCOPE_CURRENT_THREAD m0 = (Some supported, m1)"
    and "v AND NOT supported = 0" and "v \<noteq> 0"
    and "darwin_sampler_open os v PERFIDIOUS_SCOPE_CURRENT_THREAD m1 = (Some s, m2)"
  shows "ds_metrics s = PERFIDIOUS_METRIC_MASK PERFIDIOUS_METRIC_CPU_TIME \<and>
    fst (dar_pthread_threadid_np os (kernel m1)) = Inr (ds_thread_id s) \<and>
    (\<forall>m other k. dar_pthread_threadid_np os (kernel m) = (Inr other, k) \<and> other \<noteq> ds_thread_id s \<longrightarrow>
       darwin_sampler_read os g s m = Some (None, s, zend_throw_exception WrongThreadException 0
         ''Darwin current-thread sampler must be read from the thread that opened it'' (m\<lparr>kernel := k\<rparr>)))"
proof -
  have "v = PERFIDIOUS_METRIC_MASK PERFIDIOUS_METRIC_CPU_TIME"
    using single_metric [of v PERFIDIOUS_METRIC_CPU_TIME] assms(1-3) by (simp add: darwin_sampler_supported_metrics_def)
  moreover have "ds_metrics s = v" "ds_scope s = PERFIDIOUS_SCOPE_CURRENT_THREAD"
    "fst (dar_pthread_threadid_np os (kernel m1)) = Inr (ds_thread_id s)"
    using assms(4) by (auto simp: darwin_sampler_open_def or_fail_Some perfidious_darwin_get_current_thread_id_def
        dar_call_def split: prod.splits sum.splits)
  ultimately show ?thesis
    by (auto simp: darwin_sampler_read_def darwin_read_thread_def perfidious_darwin_get_current_thread_id_def
        dar_call_def)
qed

section \<open>Resource usage\<close>

text \<open>A failure of \<open>thread_selfcounts\<close> that does not say it is unsupported is thrown with its code, and no
  other call is made.\<close>

lemma selfcounts_failure_is_thrown:
  assumes "thread_selfcounts_found g" "dar_thread_selfcounts os (kernel m) = (Inl e, k)"
    "e \<noteq> DARWIN_ENOTSUP" "e \<noteq> DARWIN_ENOSYS"
  shows "perfidious_darwin_read_current_thread_resource_usage os g m =
    (None, zend_throw_exception IOException e (''thread_selfcounts failed: '' @ dar_strerror os e)
             (m\<lparr>kernel := k, errno := e\<rparr>))"
  using assms by (simp add: perfidious_darwin_read_current_thread_resource_usage_def dar_errno_call_def
      perfidious_darwin_throw_errno_def)

definition valid_time :: "time_value \<Rightarrow> bool" where
  "valid_time v \<longleftrightarrow> 0 \<le> tv_seconds v \<and> tv_seconds v < 2 ^ 31 \<and> 0 \<le> tv_microseconds v \<and> tv_microseconds v < 1000000"

definition time_ns :: "time_value \<Rightarrow> int" where
  "time_ns v = tv_seconds v * 1000000000 + tv_microseconds v * 1000"

text \<open>Where \<open>thread_selfcounts\<close> is missing or says it is not supported,
  the CPU times of the thread come from \<open>thread_info\<close>: a valid answer is converted exactly, no exception is
  thrown, and the send right of the thread is given back.\<close>

lemma darwin_thread_usage_falls_back:
  assumes "thread_selfcounts_found g \<longrightarrow>
      (\<exists>e k. dar_thread_selfcounts os (kernel m) = (Inl e, k) \<and> e \<in> {DARWIN_ENOTSUP, DARWIN_ENOSYS})"
    and "\<And>port k. fst (dar_thread_info os port k) = Inr b"
    and "valid_time (tbi_user_time b)" "valid_time (tbi_system_time b)"
  shows "\<exists>u m'. perfidious_darwin_read_current_thread_resource_usage os g m = (Some u, m') \<and>
    uint (tu_user_time_ns u) = time_ns (tbi_user_time b) \<and> uint (tu_system_time_ns u) = time_ns (tbi_system_time b) \<and>
    rights (trace m') = rights (trace m) \<and> exceptions m' = exceptions m"
proof -
  have ns: "uint (of_int (time_ns v) :: u64) = time_ns v" if "valid_time v" for v
    using that by (intro uint_of_int_64) (simp_all add: valid_time_def time_ns_def)
  have conv: "perfidious_darwin_time_value_to_ns v q = (Some (of_int (time_ns v)), q)" if "valid_time v" for v q
    using that time_value_exact [of v q] by (simp add: valid_time_def time_ns_def)
  have basic: "\<exists>m'. basic_info_usage os q = (Some \<lparr>tu_user_time_ns = of_int (time_ns (tbi_user_time b)),
      tu_system_time_ns = of_int (time_ns (tbi_system_time b)), tu_instructions = 0, tu_cycles = 0\<rparr>, m')" for q
  proof -
    obtain port k where p: "dar_mach_thread_self os (kernel q) = (port, k)" by fastforce
    obtain k' where "dar_thread_info os port k = (Inr b, k')" by (metis assms(2) eq_fst_iff)
    with p show ?thesis
      by (simp add: basic_info_usage_def mach_thread_self_def dar_call_def Let_def conv assms(3,4))
  qed
  have "\<exists>q. perfidious_darwin_read_current_thread_resource_usage os g m = basic_info_usage os q"
    using assms(1) by (cases "thread_selfcounts_found g")
      (auto simp: perfidious_darwin_read_current_thread_resource_usage_def dar_errno_call_def)
  then obtain u m' where *: "perfidious_darwin_read_current_thread_resource_usage os g m = (Some u, m')"
      "tu_user_time_ns u = of_int (time_ns (tbi_user_time b))"
      "tu_system_time_ns u = of_int (time_ns (tbi_system_time b))"
    by (auto simp: basic) (metis basic perfidious_darwin_thread_resource_usage.select_convs(1,2))
  from reportsD [OF thread_usage_reports *(1)] *(2,3) ns [OF assms(3)] ns [OF assms(4)] *(1) show ?thesis by auto
qed

text \<open>The two calls and the two conversions before the fields are checked.\<close>

lemma process_usage_shape:
  assumes run: "get_current_process_resource_usage os g m = (r, m')"
  obtains (failed) "r = ZNull" "diagnosed m m'" "rights (trace m') = rights (trace m)"
  | (fields) ut st u b m2 where
      "(r, m') = usage_object ''ProcessResourceUsage'' (process_fields ut st u b) m2"
      "rights (trace m2) = rights (trace m)" "exceptions m2 = exceptions m"
      "\<exists>k k'. dar_proc_pid_rusage os k = (Inr u, k')" "\<exists>k k'. dar_getrusage os k = (Inr b, k')"
      "unat ut = unat (ri_user_time u) * unat (numer (timebase g)) div unat (denom (timebase g))"
      "unat st = unat (ri_system_time u) * unat (numer (timebase g)) div unat (denom (timebase g))"
proof -
  obtain u m1 where c: "dar_errno_call (dar_proc_pid_rusage os) m = (u, m1)" by fastforce
  obtain b m2 where d: "dar_errno_call (dar_getrusage os) m1 = (b, m2)" by fastforce
  note keep = dar_errno_call_result [OF c] dar_errno_call_result [OF d]
  show thesis
  proof (cases "u = None \<or> b = None")
    case True
    with c d keep run show thesis
      by (intro failed; cases u; cases b)
        (auto simp: get_current_process_resource_usage_def perfidious_darwin_throw_errno_def diagnosed_def)
  next
    case False
    then obtain u' b' where ub: "u = Some u'" "b = Some b'" by auto
    obtain x m3 where x: "perfidious_darwin_mach_time_to_ns g (ri_user_time u') m2 = (x, m3)" by fastforce
    obtain y m4 where y: "perfidious_darwin_mach_time_to_ns g (ri_system_time u') m3 = (y, m4)" by fastforce
    note rep = reportsD [OF mach_time_reports x] reportsD [OF mach_time_reports y]
    show thesis
    proof (cases "x = None \<or> y = None")
      case True
      with c d keep ub x y rep run show thesis
        by (intro failed; cases x; cases y) (auto simp: get_current_process_resource_usage_def diagnosed_def)
    next
      case False
      then obtain ut st where xy: "x = Some ut" "y = Some st" by auto
      note vals = mach_time_Some [OF x [unfolded xy]] mach_time_Some [OF y [unfolded xy]]
      have "(r, m') = usage_object ''ProcessResourceUsage'' (process_fields ut st u' b') m2"
        using c d ub x y xy vals run by (simp add: get_current_process_resource_usage_def)
      with keep vals errno_call_Some [OF c [unfolded ub]] errno_call_Some [OF d [unfolded ub]]
      show thesis by (intro fields [of ut st u' b' m2]) simp_all
    qed
  qed
qed


end
