(* ===== verification/Pmu.thy ===== *)
theory Pmu
  imports Linux_Os
begin

text \<open>
  What PHP can ask about the performance monitoring units of the machine
  (\<open>src/pmu_info.c\<close>, \<open>src/pmu_event_info.c\<close> and the functions over them in \<open>src/functions.c\<close>). libpfm is a
  record of functions; it only answers questions here, so they have no state.
\<close>

section \<open>libpfm\<close>

record pfm_pmu_info =
  pi_name :: string
  pi_desc :: string
  pi_pmu :: int
  pi_type :: int
  pi_nevents :: int
  pi_first_event :: int
  pi_is_present :: bool

record pfm_event_info =
  ei_name :: string
  ei_desc :: string
  ei_equiv :: "string option"
  ei_pmu :: int
  ei_idx :: int

text \<open>\<open>Inl\<close> is an error code. \<open>PFM_PMU_NONE\<close>, the first member of the enumeration of units, is 0; how many
  members there are depends on the version of the library.\<close>

record libpfm =
  PFM_PMU_MAX :: int
  pfm_get_pmu_info :: "int \<Rightarrow> int + pfm_pmu_info"
  pfm_get_event_info :: "int \<Rightarrow> int + pfm_event_info"
  pfm_get_event_next :: "int \<Rightarrow> int"
  pfm_strerror :: "int \<Rightarrow> string"

section \<open>Objects\<close>

definition perfidious_pfm_get_pmu_info :: "libpfm \<Rightarrow> zend_long \<Rightarrow> int + pfm_pmu_info" where
  "perfidious_pfm_get_pmu_info lib pmu =
     (if pmu < 0 \<or> PFM_PMU_MAX lib \<le> pmu then Inl PFM_ERR_INVAL else pfm_get_pmu_info lib pmu)"

definition perfidious_pmu_info_ctor :: "pfm_pmu_info \<Rightarrow> zval" where
  "perfidious_pmu_info_ctor info = ZObject ''PmuInfo''
     [(''name'', ZString (pi_name info)), (''desc'', ZString (pi_desc info)), (''pmu'', ZLong (pi_pmu info)),
      (''type'', ZLong (pi_type info)), (''nevents'', ZLong (pi_nevents info)), (''is_present'', ZBool (pi_is_present info))]"

definition pmu_not_found ::
  "libpfm \<Rightarrow> string \<Rightarrow> zend_long \<Rightarrow> int \<Rightarrow> ('k, 'e, 'z) machine_scheme \<Rightarrow> ('k, 'e, 'z) machine_scheme" where
  "pmu_not_found lib prefix pmu pfm_err m =
     zend_throw_exception PmuNotFoundException pfm_err
       (prefix @ ''cannot get pmu info for '' @ show_int pmu @ '': '' @ pfm_strerror lib pfm_err) m"

definition perfidious_get_pmu_info ::
  "libpfm \<Rightarrow> zend_long \<Rightarrow> bool \<Rightarrow> ('k, 'e, 'z) machine_scheme \<Rightarrow> zval option \<times> ('k, 'e, 'z) machine_scheme" where
  "perfidious_get_pmu_info lib pmu silent m =
     (case perfidious_pfm_get_pmu_info lib pmu of
        Inl pfm_err \<Rightarrow> (None, if \<not> silent then pmu_not_found lib [] pmu pfm_err m else m)
      | Inr info \<Rightarrow> (Some (perfidious_pmu_info_ctor info), m))"

text \<open>The buffer has 512 bytes; \<open>slprintf\<close> cuts the text so that the terminator fits and returns the
  length that is left.\<close>

definition event_full_name :: "pfm_pmu_info \<Rightarrow> pfm_event_info \<Rightarrow> string" where
  "event_full_name pmu_info info = take 511 (pi_name pmu_info @ ''::'' @ ei_name info)"

definition perfidious_pmu_event_info_ctor :: "pfm_pmu_info \<Rightarrow> pfm_event_info \<Rightarrow> zval" where
  "perfidious_pmu_event_info_ctor pmu_info info = ZObject ''PmuEventInfo''
     [(''name'', ZString (event_full_name pmu_info info)), (''desc'', ZString (ei_desc info)),
      (''equiv'', case ei_equiv info of Some s \<Rightarrow> ZString s | None \<Rightarrow> ZNull), (''pmu'', ZLong (ei_pmu info)),
      (''idx'', ZLong (ei_idx info)), (''is_present'', ZBool (pi_is_present pmu_info))]"

definition perfidious_get_pmu_event_info ::
  "libpfm \<Rightarrow> pfm_pmu_info \<Rightarrow> zend_long \<Rightarrow> ('k, 'e, 'z) machine_scheme
    \<Rightarrow> zval option \<times> ('k, 'e, 'z) machine_scheme" where
  "perfidious_get_pmu_event_info lib pmu_info idx m =
     (case (if idx < 0 \<or> INT_MAX < idx then Inl PFM_ERR_INVAL else pfm_get_event_info lib idx) of
        Inl pfm_err \<Rightarrow>
          (None, zend_throw_exception PmuEventNotFoundException pfm_err
             (''libpfm: cannot get event info for '' @ show_int idx @ '': '' @ pfm_strerror lib pfm_err) m)
      | Inr info \<Rightarrow>
          if ei_pmu info \<noteq> pi_pmu pmu_info
          then (None, zend_throw_exception PmuEventNotFoundException PFM_ERR_NOTFOUND
                  (''event '' @ show_int idx @ '' does not belong to pmu '' @ show_int (pi_pmu pmu_info)) m)
          else (Some (perfidious_pmu_event_info_ctor pmu_info info), m))"

section \<open>Functions\<close>

definition get_pmu_info :: "libpfm \<Rightarrow> zend_long \<Rightarrow> ('k, 'e, 'z) machine_scheme \<Rightarrow> zval \<times> ('k, 'e, 'z) machine_scheme" where
  "get_pmu_info lib pmu m =
     (case perfidious_get_pmu_info lib pmu False m of (None, m1) \<Rightarrow> (ZNull, m1) | (Some v, m1) \<Rightarrow> (v, m1))"

definition get_pmu_event_info ::
  "libpfm \<Rightarrow> zend_long \<Rightarrow> zend_long \<Rightarrow> ('k, 'e, 'z) machine_scheme \<Rightarrow> zval \<times> ('k, 'e, 'z) machine_scheme" where
  "get_pmu_event_info lib pmu idx m =
     (case perfidious_pfm_get_pmu_info lib pmu of
        Inl pfm_err \<Rightarrow> (ZNull, pmu_not_found lib [] pmu pfm_err m)
      | Inr pmu_info \<Rightarrow>
          (case perfidious_get_pmu_event_info lib pmu_info idx m of
             (None, m1) \<Rightarrow> (ZNull, m1) | (Some v, m1) \<Rightarrow> (v, m1)))"

text \<open>An array whose keys are its positions.\<close>

definition packed_array :: "zval list \<Rightarrow> zval" where
  "packed_array vs = ZArray (zip (map (\<lambda>i. KInt (int i)) [0..<length vs]) vs)"

text \<open>The loop over all units, in the order of the enumeration; units without information are
  left out.\<close>

fun collect_pmus ::
  "libpfm \<Rightarrow> zend_long list \<Rightarrow> ('k, 'e, 'z) machine_scheme \<Rightarrow> zval list \<times> ('k, 'e, 'z) machine_scheme" where
  "collect_pmus lib [] m = ([], m)"
| "collect_pmus lib (index # is) m =
     (case perfidious_get_pmu_info lib index True m of
        (None, m1) \<Rightarrow> collect_pmus lib is m1
      | (Some tmp, m1) \<Rightarrow> (case collect_pmus lib is m1 of (vs, m2) \<Rightarrow> (tmp # vs, m2)))"

definition list_pmus :: "libpfm \<Rightarrow> ('k, 'e, 'z) machine_scheme \<Rightarrow> zval \<times> ('k, 'e, 'z) machine_scheme" where
  "list_pmus lib m =
     (case collect_pmus lib [0..PFM_PMU_MAX lib - 1] m of (vs, m1) \<Rightarrow> (packed_array vs, m1))"

text \<open>The loop over the events of a unit follows the links of the library until the index -1.
  \<open>None\<close> is a loop that never ends; \<open>Some None\<close> is one that failed.\<close>

partial_function (option) collect_events ::
  "libpfm \<Rightarrow> pfm_pmu_info \<Rightarrow> int \<Rightarrow> zval list \<Rightarrow> ('k, 'e, 'z) machine_scheme
    \<Rightarrow> (zval list option \<times> ('k, 'e, 'z) machine_scheme) option" where
  "collect_events lib pmu_info i acc m =
     (if i = -1 then Some (Some acc, m)
      else case perfidious_get_pmu_event_info lib pmu_info i m of
             (None, m1) \<Rightarrow> Some (None, m1)
           | (Some tmp, m1) \<Rightarrow> collect_events lib pmu_info (pfm_get_event_next lib i) (acc @ [tmp]) m1)"

definition list_pmu_events ::
  "libpfm \<Rightarrow> zend_long \<Rightarrow> ('k, 'e, 'z) machine_scheme \<Rightarrow> (zval \<times> ('k, 'e, 'z) machine_scheme) option" where
  "list_pmu_events lib pmu_id m =
     (case perfidious_pfm_get_pmu_info lib pmu_id of
        Inl pfm_err \<Rightarrow> Some (ZNull, pmu_not_found lib ''libpfm: '' pmu_id pfm_err m)
      | Inr pmu_info \<Rightarrow>
          map_option (\<lambda>(r, m1). (case r of None \<Rightarrow> ZNull | Some vs \<Rightarrow> packed_array vs, m1))
            (collect_events lib pmu_info (pi_first_event pmu_info) [] m))"

end
