(* ===== verification/Pmu_Properties.thy ===== *)
theory Pmu_Properties
  imports Pmu
begin

text \<open>
  The properties of the listings of performance monitoring units and their events.
\<close>

section \<open>Units\<close>

lemma throw_changes: "zend_throw_exception c n s m \<noteq> m"
proof
  assume "zend_throw_exception c n s m = m"
  then have "length (exceptions (zend_throw_exception c n s m)) = length (exceptions m)" by simp
  then show False by simp
qed

lemma get_pmu_info_cases:
  "get_pmu_info lib pmu m = (case perfidious_get_pmu_info lib pmu True m of
     (None, _) \<Rightarrow> (ZNull, pmu_not_found lib [] pmu (projl (perfidious_pfm_get_pmu_info lib pmu)) m)
   | (Some v, _) \<Rightarrow> (v, m))"
  by (simp add: get_pmu_info_def perfidious_get_pmu_info_def split: sum.split)

lemma collect_pmus_run:
  "collect_pmus lib is m =
     (map (\<lambda>i. fst (get_pmu_info lib i m)) (filter (\<lambda>i. snd (get_pmu_info lib i m) = m) is), m)"
proof (induction "is")
  case (Cons i "is")
  then show ?case
    by (cases "perfidious_pfm_get_pmu_info lib i")
      (simp_all add: get_pmu_info_def perfidious_get_pmu_info_def pmu_not_found_def throw_changes)
qed simp

text \<open>\<open>list_pmus\<close> throws nothing, and its result is the array of exactly what
  \<open>get_pmu_info\<close> returns for the units of the library it does not refuse, in their order.\<close>

lemma pmu_listing_agrees_with_lookup:
  "list_pmus lib m =
     (packed_array (map (\<lambda>i. fst (get_pmu_info lib i m))
        (filter (\<lambda>i. snd (get_pmu_info lib i m) = m) [0..PFM_PMU_MAX lib - 1])), m) \<and>
   (\<forall>i. i \<in> set [0..PFM_PMU_MAX lib - 1] \<or> fst (get_pmu_info lib i m) = ZNull \<and> diagnosed m (snd (get_pmu_info lib i m)))"
proof -
  have "fst (get_pmu_info lib i m) = ZNull \<and> diagnosed m (snd (get_pmu_info lib i m))"
    if "i \<notin> set [0..PFM_PMU_MAX lib - 1]" for i
    using that by (auto simp: get_pmu_info_def perfidious_get_pmu_info_def perfidious_pfm_get_pmu_info_def
        pmu_not_found_def diagnosed_def)
  then show ?thesis by (auto simp: list_pmus_def collect_pmus_run)
qed

section \<open>Events\<close>

text \<open>The events from an index on, if the links of the library reach the end within \<open>n\<close> steps.\<close>

fun event_chain :: "libpfm \<Rightarrow> nat \<Rightarrow> int \<Rightarrow> int list option" where
  "event_chain lib n i =
     (if i = -1 then Some []
      else case n of 0 \<Rightarrow> None | Suc n' \<Rightarrow> map_option ((#) i) (event_chain lib n' (pfm_get_event_next lib i)))"

declare event_chain.simps [simp del]

definition event_listed :: "libpfm \<Rightarrow> pfm_pmu_info \<Rightarrow> int \<Rightarrow> pfm_event_info \<Rightarrow> bool" where
  "event_listed lib pmu_info i info \<longleftrightarrow>
     0 \<le> i \<and> i \<le> INT_MAX \<and> pfm_get_event_info lib i = Inr info \<and> ei_pmu info = pi_pmu pmu_info"

lemma event_info_listed:
  "event_listed lib pmu_info i info \<Longrightarrow>
     perfidious_get_pmu_event_info lib pmu_info i m = (Some (perfidious_pmu_event_info_ctor pmu_info info), m)"
  by (simp add: perfidious_get_pmu_event_info_def event_listed_def)

lemma event_info_not_listed:
  assumes "\<nexists>info. event_listed lib pmu_info i info"
  shows "\<exists>m1. perfidious_get_pmu_event_info lib pmu_info i m = (None, m1) \<and> diagnosed m m1"
  using assms by (auto simp: perfidious_get_pmu_event_info_def event_listed_def diagnosed_def not_less split: sum.split)

text \<open>The loop over a chain that ends.\<close>

lemma collect_events_run:
  "event_chain lib n i = Some is \<Longrightarrow>
     if \<forall>j \<in> set is. \<exists>info. event_listed lib pmu_info j info
     then collect_events lib pmu_info i acc m =
       Some (Some (acc @ map (\<lambda>j. perfidious_pmu_event_info_ctor pmu_info (projr (pfm_get_event_info lib j))) is), m)
     else \<exists>m'. collect_events lib pmu_info i acc m = Some (None, m') \<and> diagnosed m m'"
proof (induction n arbitrary: i "is" acc)
  case 0
  then show ?case by (simp add: event_chain.simps [of lib 0] collect_events.simps split: if_splits)
next
  case (Suc n)
  show ?case
  proof (cases "i = -1")
    case True
    with Suc.prems show ?thesis by (simp add: event_chain.simps [of lib "Suc n"] collect_events.simps)
  next
    case False
    then obtain js where js: "event_chain lib n (pfm_get_event_next lib i) = Some js" "is = i # js"
      using Suc.prems by (auto simp: event_chain.simps [of lib "Suc n"])
    show ?thesis
    proof (cases "\<exists>info. event_listed lib pmu_info i info")
      case True
      then obtain info where e: "event_listed lib pmu_info i info" by blast
      then have "pfm_get_event_info lib i = Inr info" by (simp add: event_listed_def)
      with Suc.IH [OF js(1), of "acc @ [perfidious_pmu_event_info_ctor pmu_info info]"] False True js(2)
      show ?thesis
        by (simp add: collect_events.simps [of lib pmu_info i] event_info_listed [OF e])
    next
      case None: False
      with event_info_not_listed [OF None, of m] \<open>i \<noteq> -1\<close> js(2) show ?thesis
        by (auto simp: collect_events.simps [of lib pmu_info i])
    qed
  qed
qed

text \<open>C35 (event_listing_ends). When the links of libpfm from the first event of a unit reach the end, however far that is,
  \<open>list_pmu_events\<close> returns: the array of all events on the way in their order, if each is an event of
  that unit, and otherwise nothing, with exactly one exception.\<close>

theorem event_listing_ends:
  assumes "perfidious_pfm_get_pmu_info lib pmu = Inr pmu_info"
    and "event_chain lib n (pi_first_event pmu_info) = Some is"
  shows "\<exists>r m'. list_pmu_events lib pmu m = Some (r, m') \<and>
    (if \<forall>j \<in> set is. \<exists>info. event_listed lib pmu_info j info
     then m' = m \<and> r = packed_array
       (map (\<lambda>j. perfidious_pmu_event_info_ctor pmu_info (projr (pfm_get_event_info lib j))) is)
     else r = ZNull \<and> diagnosed m m')"
proof (cases "\<forall>j \<in> set is. \<exists>info. event_listed lib pmu_info j info")
  case True
  with collect_events_run [OF assms(2), of pmu_info "[]" m] assms(1) show ?thesis
    by (simp add: list_pmu_events_def)
next
  case False
  with collect_events_run [OF assms(2), of pmu_info "[]" m] assms(1) show ?thesis
    unfolding if_not_P [OF False] by (auto simp: list_pmu_events_def)
qed

text \<open>A library with two units; the second has two events.\<close>

definition demo_libpfm :: libpfm where
  "demo_libpfm = \<lparr>PFM_PMU_MAX = 2,
     pfm_get_pmu_info = (\<lambda>i. Inr \<lparr>pi_name = ''perf'', pi_desc = ''events'', pi_pmu = i, pi_type = 1, pi_nevents = 2,
       pi_first_event = 40, pi_is_present = True\<rparr>),
     pfm_get_event_info = (\<lambda>i. Inr \<lparr>ei_name = ''cycles'', ei_desc = ''cycles'', ei_equiv = None, ei_pmu = 1, ei_idx = i\<rparr>),
     pfm_get_event_next = (\<lambda>i. if i < 41 then i + 1 else -1),
     pfm_strerror = (\<lambda>e. ''error'')\<rparr>"

theorem event_listing_ends_witness:
  "list_pmu_events demo_libpfm 1 \<lparr>kernel = (), errno = 0, trace = ([] :: unit list), exceptions = [], warnings = [],
      error_mode = PERFIDIOUS_ERROR_MODE_THROW\<rparr> =
   Some (packed_array (map (\<lambda>j. perfidious_pmu_event_info_ctor (projr (pfm_get_pmu_info demo_libpfm 1))
        (projr (pfm_get_event_info demo_libpfm j))) [40, 41]),
     \<lparr>kernel = (), errno = 0, trace = [], exceptions = [], warnings = [], error_mode = PERFIDIOUS_ERROR_MODE_THROW\<rparr>)"
proof -
  let ?i = "projr (pfm_get_pmu_info demo_libpfm 1)"
  have u: "perfidious_pfm_get_pmu_info demo_libpfm 1 = Inr ?i"
    by (simp add: perfidious_pfm_get_pmu_info_def demo_libpfm_def)
  have c: "event_chain demo_libpfm 3 (pi_first_event ?i) = Some [40, 41]" by code_simp
  have l: "\<forall>j \<in> set [40, 41]. \<exists>info. event_listed demo_libpfm ?i j info"
    by (simp add: event_listed_def demo_libpfm_def INT_MAX_def)
  show ?thesis using event_listing_ends [OF u c] unfolding if_P [OF l] by metis
qed

section \<open>Names\<close>

text \<open>The name of an event is complete unless it is longer than the buffer.\<close>

lemma event_full_name_fits:
  "length (event_full_name pmu_info info) \<le> 511"
  "length (pi_name pmu_info) + 2 + length (ei_name info) \<le> 511 \<Longrightarrow>
     event_full_name pmu_info info = pi_name pmu_info @ ''::'' @ ei_name info"
  by (simp_all add: event_full_name_def)

end
