(* ===== verification/Signatures.thy ===== *)
theory Signatures
  imports Windows_Functions Darwin_Functions Sampler
begin

text \<open>
  The signatures the extension declares (\<open>src/common_arginfo.h\<close>, \<open>src/linux_arginfo.h\<close>,
  \<open>src/windows_arginfo.h\<close>, \<open>src/darwin_arginfo.h\<close> and, for the helpers of the debug build, \<open>src/functions.c\<close> and
  \<open>src/handle.c\<close>), the parameters each function body parses, and the tables of functions and methods, which
  give every name its C function and its signature. Class names are written without the namespace
  \<open>Perfidious\<close>.
\<close>

section \<open>Argument information\<close>

datatype arg_type = IS_VOID | IS_NULL | IS_LONG | IS_STRING | IS_ARRAY | IS_OBJECT string

text \<open>The default value is the text of a PHP expression.\<close>

record zend_arg =
  arg_name :: string
  arg_type :: arg_type
  arg_allow_null :: bool
  arg_default :: "string option"

text \<open>\<open>None\<close> as the number of required arguments is the -1 of a signature that does not give one; \<open>None\<close> as
  the return type is a signature without one.\<close>

record arginfo =
  ai_required :: "nat option"
  ai_return :: "(arg_type \<times> bool) option"
  ai_args :: "zend_arg list"

definition ZEND_ARG_TYPE_INFO :: "string \<Rightarrow> arg_type \<Rightarrow> bool \<Rightarrow> zend_arg" where
  "ZEND_ARG_TYPE_INFO name t allow_null =
     \<lparr>arg_name = name, arg_type = t, arg_allow_null = allow_null, arg_default = None\<rparr>"

definition ZEND_ARG_TYPE_INFO_WITH_DEFAULT_VALUE :: "string \<Rightarrow> arg_type \<Rightarrow> bool \<Rightarrow> string \<Rightarrow> zend_arg" where
  "ZEND_ARG_TYPE_INFO_WITH_DEFAULT_VALUE name t allow_null default_value =
     \<lparr>arg_name = name, arg_type = t, arg_allow_null = allow_null, arg_default = Some default_value\<rparr>"

definition ZEND_ARG_OBJ_INFO :: "string \<Rightarrow> string \<Rightarrow> bool \<Rightarrow> zend_arg" where
  "ZEND_ARG_OBJ_INFO name cls allow_null = ZEND_ARG_TYPE_INFO name (IS_OBJECT cls) allow_null"

definition ZEND_ARG_OBJ_INFO_WITH_DEFAULT_VALUE :: "string \<Rightarrow> string \<Rightarrow> bool \<Rightarrow> string \<Rightarrow> zend_arg" where
  "ZEND_ARG_OBJ_INFO_WITH_DEFAULT_VALUE name cls allow_null default_value =
     ZEND_ARG_TYPE_INFO_WITH_DEFAULT_VALUE name (IS_OBJECT cls) allow_null default_value"

definition ZEND_BEGIN_ARG_INFO_EX :: "nat \<Rightarrow> zend_arg list \<Rightarrow> arginfo" where
  "ZEND_BEGIN_ARG_INFO_EX required args = \<lparr>ai_required = Some required, ai_return = None, ai_args = args\<rparr>"

definition ZEND_BEGIN_ARG_WITH_RETURN_TYPE_INFO_EX :: "nat \<Rightarrow> arg_type \<Rightarrow> bool \<Rightarrow> zend_arg list \<Rightarrow> arginfo" where
  "ZEND_BEGIN_ARG_WITH_RETURN_TYPE_INFO_EX required t allow_null args =
     \<lparr>ai_required = Some required, ai_return = Some (t, allow_null), ai_args = args\<rparr>"

definition ZEND_BEGIN_ARG_WITH_RETURN_OBJ_INFO_EX :: "nat \<Rightarrow> string \<Rightarrow> bool \<Rightarrow> zend_arg list \<Rightarrow> arginfo" where
  "ZEND_BEGIN_ARG_WITH_RETURN_OBJ_INFO_EX required cls allow_null args =
     \<lparr>ai_required = Some required, ai_return = Some (IS_OBJECT cls, allow_null), ai_args = args\<rparr>"

definition ZEND_BEGIN_ARG_WITH_RETURN_TYPE_INFO :: "arg_type \<Rightarrow> bool \<Rightarrow> zend_arg list \<Rightarrow> arginfo" where
  "ZEND_BEGIN_ARG_WITH_RETURN_TYPE_INFO t allow_null args =
     \<lparr>ai_required = None, ai_return = Some (t, allow_null), ai_args = args\<rparr>"

text \<open>When it registers a function, the engine takes a missing number to mean all arguments.\<close>

definition required_num_args :: "arginfo \<Rightarrow> nat" where
  "required_num_args ai = (case ai_required ai of None \<Rightarrow> length (ai_args ai) | Some n \<Rightarrow> n)"

lemmas arginfo_macros = ZEND_ARG_TYPE_INFO_def ZEND_ARG_TYPE_INFO_WITH_DEFAULT_VALUE_def ZEND_ARG_OBJ_INFO_def
  ZEND_ARG_OBJ_INFO_WITH_DEFAULT_VALUE_def ZEND_BEGIN_ARG_INFO_EX_def ZEND_BEGIN_ARG_WITH_RETURN_TYPE_INFO_EX_def
  ZEND_BEGIN_ARG_WITH_RETURN_OBJ_INFO_EX_def ZEND_BEGIN_ARG_WITH_RETURN_TYPE_INFO_def

section \<open>The portable part (common_arginfo.h)\<close>

definition arginfo_class_Perfidious_UnsupportedMetricException___construct :: arginfo where
  "arginfo_class_Perfidious_UnsupportedMetricException___construct = ZEND_BEGIN_ARG_INFO_EX 0 []"

definition arginfo_class_Perfidious_Metric_unit :: arginfo where
  "arginfo_class_Perfidious_Metric_unit = ZEND_BEGIN_ARG_WITH_RETURN_OBJ_INFO_EX 0 ''MetricUnit'' False []"

definition arginfo_class_Perfidious_Sampler___construct :: arginfo where
  "arginfo_class_Perfidious_Sampler___construct = arginfo_class_Perfidious_UnsupportedMetricException___construct"

definition arginfo_class_Perfidious_Sampler_open :: arginfo where
  "arginfo_class_Perfidious_Sampler_open =
     ZEND_BEGIN_ARG_WITH_RETURN_OBJ_INFO_EX 1 ''Sampler'' False
       [ZEND_ARG_TYPE_INFO ''metrics'' IS_ARRAY False,
        ZEND_ARG_OBJ_INFO_WITH_DEFAULT_VALUE ''scope'' ''Scope'' False (in_namespace ''Scope::CurrentThread'')]"

definition arginfo_class_Perfidious_Sampler_metrics :: arginfo where
  "arginfo_class_Perfidious_Sampler_metrics = ZEND_BEGIN_ARG_WITH_RETURN_TYPE_INFO_EX 0 IS_ARRAY False []"

definition arginfo_class_Perfidious_Sampler_read :: arginfo where
  "arginfo_class_Perfidious_Sampler_read = ZEND_BEGIN_ARG_WITH_RETURN_OBJ_INFO_EX 0 ''Sample'' False []"

definition arginfo_class_Perfidious_Sampler_close :: arginfo where
  "arginfo_class_Perfidious_Sampler_close = ZEND_BEGIN_ARG_WITH_RETURN_TYPE_INFO_EX 0 IS_VOID False []"

definition arginfo_class_Perfidious_Sample___construct :: arginfo where
  "arginfo_class_Perfidious_Sample___construct = arginfo_class_Perfidious_UnsupportedMetricException___construct"

definition arginfo_class_Perfidious_Sample_value :: arginfo where
  "arginfo_class_Perfidious_Sample_value =
     ZEND_BEGIN_ARG_WITH_RETURN_TYPE_INFO_EX 1 IS_LONG False [ZEND_ARG_OBJ_INFO ''metric'' ''Metric'' False]"

definition arginfo_class_Perfidious_Sample_since :: arginfo where
  "arginfo_class_Perfidious_Sample_since =
     ZEND_BEGIN_ARG_WITH_RETURN_OBJ_INFO_EX 1 ''SampleDelta'' False [ZEND_ARG_OBJ_INFO ''earlier'' ''Sample'' False]"

definition arginfo_class_Perfidious_SampleDelta___construct :: arginfo where
  "arginfo_class_Perfidious_SampleDelta___construct = arginfo_class_Perfidious_UnsupportedMetricException___construct"

definition arginfo_class_Perfidious_SampleDelta_value :: arginfo where
  "arginfo_class_Perfidious_SampleDelta_value = arginfo_class_Perfidious_Sample_value"

lemmas common_arginfo = arginfo_class_Perfidious_UnsupportedMetricException___construct_def
  arginfo_class_Perfidious_Metric_unit_def arginfo_class_Perfidious_Sampler___construct_def
  arginfo_class_Perfidious_Sampler_open_def arginfo_class_Perfidious_Sampler_metrics_def
  arginfo_class_Perfidious_Sampler_read_def arginfo_class_Perfidious_Sampler_close_def
  arginfo_class_Perfidious_Sample___construct_def arginfo_class_Perfidious_Sample_value_def
  arginfo_class_Perfidious_Sample_since_def arginfo_class_Perfidious_SampleDelta___construct_def
  arginfo_class_Perfidious_SampleDelta_value_def

section \<open>Linux (linux_arginfo.h)\<close>

definition arginfo_Perfidious_get_pmu_info :: arginfo where
  "arginfo_Perfidious_get_pmu_info =
     ZEND_BEGIN_ARG_WITH_RETURN_OBJ_INFO_EX 1 ''PmuInfo'' False [ZEND_ARG_TYPE_INFO ''pmu'' IS_LONG False]"

definition arginfo_Perfidious_get_pmu_event_info :: arginfo where
  "arginfo_Perfidious_get_pmu_event_info =
     ZEND_BEGIN_ARG_WITH_RETURN_OBJ_INFO_EX 2 ''PmuEventInfo'' False
       [ZEND_ARG_TYPE_INFO ''pmu'' IS_LONG False, ZEND_ARG_TYPE_INFO ''idx'' IS_LONG False]"

definition arginfo_Perfidious_list_pmus :: arginfo where
  "arginfo_Perfidious_list_pmus = ZEND_BEGIN_ARG_WITH_RETURN_TYPE_INFO_EX 0 IS_ARRAY False []"

definition arginfo_Perfidious_list_pmu_events :: arginfo where
  "arginfo_Perfidious_list_pmu_events =
     ZEND_BEGIN_ARG_WITH_RETURN_TYPE_INFO_EX 1 IS_ARRAY False [ZEND_ARG_TYPE_INFO ''pmu'' IS_LONG False]"

definition arginfo_Perfidious_open :: arginfo where
  "arginfo_Perfidious_open =
     ZEND_BEGIN_ARG_WITH_RETURN_OBJ_INFO_EX 1 ''Handle'' False
       [ZEND_ARG_TYPE_INFO ''event_names'' IS_ARRAY False,
        ZEND_ARG_TYPE_INFO_WITH_DEFAULT_VALUE ''pid'' IS_LONG False ''0'',
        ZEND_ARG_TYPE_INFO_WITH_DEFAULT_VALUE ''cpu'' IS_LONG False ''-1'']"

definition arginfo_Perfidious_request_handle :: arginfo where
  "arginfo_Perfidious_request_handle = ZEND_BEGIN_ARG_WITH_RETURN_OBJ_INFO_EX 0 ''Handle'' True []"

definition arginfo_class_Perfidious_Handle_close :: arginfo where
  "arginfo_class_Perfidious_Handle_close = ZEND_BEGIN_ARG_WITH_RETURN_TYPE_INFO_EX 0 IS_VOID False []"

definition arginfo_class_Perfidious_Handle_enable :: arginfo where
  "arginfo_class_Perfidious_Handle_enable = ZEND_BEGIN_ARG_WITH_RETURN_OBJ_INFO_EX 0 ''Handle'' False []"

definition arginfo_class_Perfidious_Handle_disable :: arginfo where
  "arginfo_class_Perfidious_Handle_disable = arginfo_class_Perfidious_Handle_enable"

definition arginfo_class_Perfidious_Handle_rawStream :: arginfo where
  "arginfo_class_Perfidious_Handle_rawStream =
     ZEND_BEGIN_ARG_INFO_EX 0 [ZEND_ARG_TYPE_INFO_WITH_DEFAULT_VALUE ''idx'' IS_LONG False ''0'']"

definition arginfo_class_Perfidious_Handle_read :: arginfo where
  "arginfo_class_Perfidious_Handle_read = ZEND_BEGIN_ARG_WITH_RETURN_OBJ_INFO_EX 0 ''ReadResult'' False []"

definition arginfo_class_Perfidious_Handle_readArray :: arginfo where
  "arginfo_class_Perfidious_Handle_readArray = arginfo_Perfidious_list_pmus"

definition arginfo_class_Perfidious_Handle_reset :: arginfo where
  "arginfo_class_Perfidious_Handle_reset = arginfo_class_Perfidious_Handle_enable"

text \<open>The helpers of the debug build.\<close>

definition perfidious_debug_uint64_overflow_arginfo :: arginfo where
  "perfidious_debug_uint64_overflow_arginfo = ZEND_BEGIN_ARG_WITH_RETURN_TYPE_INFO_EX 0 IS_LONG False []"

definition perfidious_debug_pmu_event_info_from_names_arginfo :: arginfo where
  "perfidious_debug_pmu_event_info_from_names_arginfo =
     ZEND_BEGIN_ARG_WITH_RETURN_OBJ_INFO_EX 2 ''PmuEventInfo'' False
       [ZEND_ARG_TYPE_INFO ''pmu_name'' IS_STRING False, ZEND_ARG_TYPE_INFO ''event_name'' IS_STRING False]"

definition perfidious_debug_get_open_ex_call_count_arginfo :: arginfo where
  "perfidious_debug_get_open_ex_call_count_arginfo = ZEND_BEGIN_ARG_WITH_RETURN_TYPE_INFO_EX 0 IS_LONG False []"

definition perfidious_debug_fail_next_request_handle_shutdown_arginfo :: arginfo where
  "perfidious_debug_fail_next_request_handle_shutdown_arginfo =
     ZEND_BEGIN_ARG_WITH_RETURN_TYPE_INFO_EX 0 IS_VOID False []"

definition perfidious_handle_debug_corrupt_metric_ids_arginfo :: arginfo where
  "perfidious_handle_debug_corrupt_metric_ids_arginfo = ZEND_BEGIN_ARG_WITH_RETURN_TYPE_INFO IS_NULL True []"

definition perfidious_handle_debug_close_fd_arginfo :: arginfo where
  "perfidious_handle_debug_close_fd_arginfo =
     ZEND_BEGIN_ARG_WITH_RETURN_TYPE_INFO IS_NULL True
       [ZEND_ARG_TYPE_INFO_WITH_DEFAULT_VALUE ''idx'' IS_LONG True ''0'']"

definition perfidious_handle_debug_inject_overflow_read_arginfo :: arginfo where
  "perfidious_handle_debug_inject_overflow_read_arginfo = ZEND_BEGIN_ARG_WITH_RETURN_TYPE_INFO IS_VOID False []"

definition perfidious_handle_debug_inject_scaling_read_arginfo :: arginfo where
  "perfidious_handle_debug_inject_scaling_read_arginfo = ZEND_BEGIN_ARG_WITH_RETURN_TYPE_INFO IS_VOID False []"

lemmas linux_arginfo = arginfo_Perfidious_get_pmu_info_def arginfo_Perfidious_get_pmu_event_info_def
  arginfo_Perfidious_list_pmus_def arginfo_Perfidious_list_pmu_events_def arginfo_Perfidious_open_def
  arginfo_Perfidious_request_handle_def arginfo_class_Perfidious_Handle_close_def
  arginfo_class_Perfidious_Handle_enable_def arginfo_class_Perfidious_Handle_disable_def
  arginfo_class_Perfidious_Handle_rawStream_def arginfo_class_Perfidious_Handle_read_def
  arginfo_class_Perfidious_Handle_readArray_def arginfo_class_Perfidious_Handle_reset_def

lemmas debug_arginfo = perfidious_debug_uint64_overflow_arginfo_def
  perfidious_debug_pmu_event_info_from_names_arginfo_def perfidious_debug_get_open_ex_call_count_arginfo_def
  perfidious_debug_fail_next_request_handle_shutdown_arginfo_def perfidious_handle_debug_corrupt_metric_ids_arginfo_def
  perfidious_handle_debug_close_fd_arginfo_def perfidious_handle_debug_inject_overflow_read_arginfo_def
  perfidious_handle_debug_inject_scaling_read_arginfo_def

section \<open>Windows (windows_arginfo.h)\<close>

definition arginfo_Perfidious_Windows_query_current_process_cycle_time :: arginfo where
  "arginfo_Perfidious_Windows_query_current_process_cycle_time =
     ZEND_BEGIN_ARG_WITH_RETURN_TYPE_INFO_EX 0 IS_LONG False []"

definition arginfo_Perfidious_Windows_query_current_thread_cycle_time :: arginfo where
  "arginfo_Perfidious_Windows_query_current_thread_cycle_time =
     arginfo_Perfidious_Windows_query_current_process_cycle_time"

definition arginfo_Perfidious_Windows_get_current_process_times :: arginfo where
  "arginfo_Perfidious_Windows_get_current_process_times =
     ZEND_BEGIN_ARG_WITH_RETURN_OBJ_INFO_EX 0 (windows_class ''ProcessTimes'') False []"

definition arginfo_Perfidious_Windows_get_current_thread_times :: arginfo where
  "arginfo_Perfidious_Windows_get_current_thread_times =
     ZEND_BEGIN_ARG_WITH_RETURN_OBJ_INFO_EX 0 (windows_class ''ThreadTimes'') False []"

definition arginfo_Perfidious_Windows_get_current_process_memory_info :: arginfo where
  "arginfo_Perfidious_Windows_get_current_process_memory_info =
     ZEND_BEGIN_ARG_WITH_RETURN_OBJ_INFO_EX 0 (windows_class ''ProcessMemoryInfo'') False []"

definition arginfo_Perfidious_Windows_enable_current_thread_profiling :: arginfo where
  "arginfo_Perfidious_Windows_enable_current_thread_profiling =
     ZEND_BEGIN_ARG_WITH_RETURN_OBJ_INFO_EX 0 (windows_class ''ThreadProfile'') False
       [ZEND_ARG_TYPE_INFO_WITH_DEFAULT_VALUE ''hardwareCounterMask'' IS_LONG False ''0'']"

definition arginfo_class_Perfidious_Windows_ProcessTimes___construct :: arginfo where
  "arginfo_class_Perfidious_Windows_ProcessTimes___construct = ZEND_BEGIN_ARG_INFO_EX 0 []"

definition arginfo_class_Perfidious_Windows_ThreadProfile___construct :: arginfo where
  "arginfo_class_Perfidious_Windows_ThreadProfile___construct = arginfo_class_Perfidious_Windows_ProcessTimes___construct"

definition arginfo_class_Perfidious_Windows_ThreadProfile_read :: arginfo where
  "arginfo_class_Perfidious_Windows_ThreadProfile_read =
     ZEND_BEGIN_ARG_WITH_RETURN_OBJ_INFO_EX 0 (windows_class ''ThreadProfileSnapshot'') False []"

definition arginfo_class_Perfidious_Windows_ThreadProfile_close :: arginfo where
  "arginfo_class_Perfidious_Windows_ThreadProfile_close = ZEND_BEGIN_ARG_WITH_RETURN_TYPE_INFO_EX 0 IS_VOID False []"

lemmas windows_arginfo = arginfo_Perfidious_Windows_query_current_process_cycle_time_def
  arginfo_Perfidious_Windows_query_current_thread_cycle_time_def arginfo_Perfidious_Windows_get_current_process_times_def
  arginfo_Perfidious_Windows_get_current_thread_times_def arginfo_Perfidious_Windows_get_current_process_memory_info_def
  arginfo_Perfidious_Windows_enable_current_thread_profiling_def
  arginfo_class_Perfidious_Windows_ProcessTimes___construct_def
  arginfo_class_Perfidious_Windows_ThreadProfile___construct_def arginfo_class_Perfidious_Windows_ThreadProfile_read_def
  arginfo_class_Perfidious_Windows_ThreadProfile_close_def

section \<open>macOS (darwin_arginfo.h)\<close>

definition arginfo_Perfidious_Darwin_get_current_process_resource_usage :: arginfo where
  "arginfo_Perfidious_Darwin_get_current_process_resource_usage =
     ZEND_BEGIN_ARG_WITH_RETURN_OBJ_INFO_EX 0 (darwin_class ''ProcessResourceUsage'') False []"

definition arginfo_Perfidious_Darwin_get_current_thread_resource_usage :: arginfo where
  "arginfo_Perfidious_Darwin_get_current_thread_resource_usage =
     ZEND_BEGIN_ARG_WITH_RETURN_OBJ_INFO_EX 0 (darwin_class ''ThreadResourceUsage'') False []"

definition arginfo_class_Perfidious_Darwin_ProcessResourceUsage___construct :: arginfo where
  "arginfo_class_Perfidious_Darwin_ProcessResourceUsage___construct = ZEND_BEGIN_ARG_INFO_EX 0 []"

lemmas darwin_arginfo = arginfo_Perfidious_Darwin_get_current_process_resource_usage_def
  arginfo_Perfidious_Darwin_get_current_thread_resource_usage_def
  arginfo_class_Perfidious_Darwin_ProcessResourceUsage___construct_def

section \<open>Parameters of the function bodies\<close>

text \<open>What \<open>ZEND_PARSE_PARAMETERS_START(min, max)\<close> ... \<open>ZEND_PARSE_PARAMETERS_END()\<close> asks for: the parameters before
  \<open>Z_PARAM_OPTIONAL\<close> and those after it.\<close>

datatype z_param =
    Z_PARAM_LONG
  | Z_PARAM_LONG_OR_NULL
  | Z_PARAM_STR
  | Z_PARAM_ARRAY_HT
  | Z_PARAM_OBJECT_OF_CLASS string

record parameters =
  min_num_args :: nat
  max_num_args :: nat
  required_params :: "z_param list"
  optional_params :: "z_param list"

definition ZEND_PARSE_PARAMETERS :: "nat \<Rightarrow> nat \<Rightarrow> z_param list \<Rightarrow> z_param list \<Rightarrow> parameters" where
  "ZEND_PARSE_PARAMETERS min_args max_args required optional =
     \<lparr>min_num_args = min_args, max_num_args = max_args, required_params = required, optional_params = optional\<rparr>"

definition ZEND_PARSE_PARAMETERS_NONE :: parameters where
  "ZEND_PARSE_PARAMETERS_NONE = ZEND_PARSE_PARAMETERS 0 0 [] []"

definition all_params :: "parameters \<Rightarrow> z_param list" where
  "all_params ps = required_params ps @ optional_params ps"

definition get_pmu_info_parameters :: parameters where
  "get_pmu_info_parameters = ZEND_PARSE_PARAMETERS 1 1 [Z_PARAM_LONG] []"

definition get_pmu_event_info_parameters :: parameters where
  "get_pmu_event_info_parameters = ZEND_PARSE_PARAMETERS 2 2 [Z_PARAM_LONG, Z_PARAM_LONG] []"

definition list_pmu_events_parameters :: parameters where
  "list_pmu_events_parameters = ZEND_PARSE_PARAMETERS 1 1 [Z_PARAM_LONG] []"

definition open_parameters :: parameters where
  "open_parameters = ZEND_PARSE_PARAMETERS 1 3 [Z_PARAM_ARRAY_HT] [Z_PARAM_LONG, Z_PARAM_LONG]"

definition debug_pmu_event_info_from_names_parameters :: parameters where
  "debug_pmu_event_info_from_names_parameters = ZEND_PARSE_PARAMETERS 2 2 [Z_PARAM_STR, Z_PARAM_STR] []"

definition rawStream_parameters :: parameters where
  "rawStream_parameters = ZEND_PARSE_PARAMETERS 0 1 [] [Z_PARAM_LONG_OR_NULL]"

definition debugCloseFd_parameters :: parameters where
  "debugCloseFd_parameters = ZEND_PARSE_PARAMETERS 0 1 [] [Z_PARAM_LONG]"

definition sampler_open_parameters :: parameters where
  "sampler_open_parameters = ZEND_PARSE_PARAMETERS 1 2 [Z_PARAM_ARRAY_HT] [Z_PARAM_OBJECT_OF_CLASS ''Scope'']"

definition sample_value_parameters :: parameters where
  "sample_value_parameters = ZEND_PARSE_PARAMETERS 1 1 [Z_PARAM_OBJECT_OF_CLASS ''Metric''] []"

definition sample_since_parameters :: parameters where
  "sample_since_parameters = ZEND_PARSE_PARAMETERS 1 1 [Z_PARAM_OBJECT_OF_CLASS ''Sample''] []"

definition enable_current_thread_profiling_parameters :: parameters where
  "enable_current_thread_profiling_parameters = ZEND_PARSE_PARAMETERS 0 1 [] [Z_PARAM_LONG]"

lemmas parameters_defs = ZEND_PARSE_PARAMETERS_def ZEND_PARSE_PARAMETERS_NONE_def get_pmu_info_parameters_def
  get_pmu_event_info_parameters_def list_pmu_events_parameters_def open_parameters_def
  debug_pmu_event_info_from_names_parameters_def rawStream_parameters_def debugCloseFd_parameters_def
  sampler_open_parameters_def sample_value_parameters_def sample_since_parameters_def
  enable_current_thread_profiling_parameters_def

section \<open>Tables of functions and methods\<close>

text \<open>The C function behind a name.\<close>

datatype native_function = ZEND_FN string | ZEND_MN string string

datatype access_flag = ZEND_ACC_PUBLIC | ZEND_ACC_PRIVATE | ZEND_ACC_STATIC | ZEND_ACC_FINAL

record function_entry =
  fe_name :: string
  fe_handler :: native_function
  fe_arginfo :: arginfo
  fe_flags :: "access_flag list"

definition PERFIDIOUS_RAW_FENTRY :: "string \<Rightarrow> native_function \<Rightarrow> arginfo \<Rightarrow> function_entry" where
  "PERFIDIOUS_RAW_FENTRY name handler ai =
     \<lparr>fe_name = name, fe_handler = handler, fe_arginfo = ai, fe_flags = []\<rparr>"

definition PHP_ME :: "string \<Rightarrow> string \<Rightarrow> arginfo \<Rightarrow> access_flag list \<Rightarrow> function_entry" where
  "PHP_ME cls name ai flags =
     \<lparr>fe_name = name, fe_handler = ZEND_MN cls name, fe_arginfo = ai, fe_flags = flags\<rparr>"

definition perfidious_functions :: "bool \<Rightarrow> function_entry list" where
  "perfidious_functions debug =
     [PERFIDIOUS_RAW_FENTRY ''get_pmu_info'' (ZEND_FN ''perfidious_get_pmu_info'') arginfo_Perfidious_get_pmu_info,
      PERFIDIOUS_RAW_FENTRY ''get_pmu_event_info'' (ZEND_FN ''perfidious_get_pmu_event_info'')
        arginfo_Perfidious_get_pmu_event_info,
      PERFIDIOUS_RAW_FENTRY ''list_pmus'' (ZEND_FN ''perfidious_list_pmus'') arginfo_Perfidious_list_pmus,
      PERFIDIOUS_RAW_FENTRY ''list_pmu_events'' (ZEND_FN ''perfidious_list_pmu_events'') arginfo_Perfidious_list_pmu_events,
      PERFIDIOUS_RAW_FENTRY ''open'' (ZEND_FN ''perfidious_open'') arginfo_Perfidious_open,
      PERFIDIOUS_RAW_FENTRY ''request_handle'' (ZEND_FN ''perfidious_request_handle'') arginfo_Perfidious_request_handle] @
     (if debug then
       [PERFIDIOUS_RAW_FENTRY ''debug_uint64_overflow'' (ZEND_FN ''perfidious_debug_uint64_overflow'')
          perfidious_debug_uint64_overflow_arginfo,
        PERFIDIOUS_RAW_FENTRY ''debug_pmu_event_info_from_names'' (ZEND_FN ''perfidious_debug_pmu_event_info_from_names'')
          perfidious_debug_pmu_event_info_from_names_arginfo,
        PERFIDIOUS_RAW_FENTRY ''debug_get_open_ex_call_count'' (ZEND_FN ''perfidious_debug_get_open_ex_call_count'')
          perfidious_debug_get_open_ex_call_count_arginfo,
        PERFIDIOUS_RAW_FENTRY ''debug_fail_next_request_handle_shutdown''
          (ZEND_FN ''perfidious_debug_fail_next_request_handle_shutdown'')
          perfidious_debug_fail_next_request_handle_shutdown_arginfo]
      else [])"

definition perfidious_handle_methods :: "bool \<Rightarrow> function_entry list" where
  "perfidious_handle_methods debug =
     [PHP_ME ''PerfidiousHandle'' ''close'' arginfo_class_Perfidious_Handle_close [ZEND_ACC_PUBLIC, ZEND_ACC_FINAL],
      PHP_ME ''PerfidiousHandle'' ''disable'' arginfo_class_Perfidious_Handle_disable [ZEND_ACC_PUBLIC, ZEND_ACC_FINAL],
      PHP_ME ''PerfidiousHandle'' ''enable'' arginfo_class_Perfidious_Handle_enable [ZEND_ACC_PUBLIC, ZEND_ACC_FINAL],
      PHP_ME ''PerfidiousHandle'' ''rawStream'' arginfo_class_Perfidious_Handle_rawStream [ZEND_ACC_PUBLIC, ZEND_ACC_FINAL],
      PHP_ME ''PerfidiousHandle'' ''read'' arginfo_class_Perfidious_Handle_read [ZEND_ACC_PUBLIC, ZEND_ACC_FINAL],
      PHP_ME ''PerfidiousHandle'' ''readArray'' arginfo_class_Perfidious_Handle_readArray [ZEND_ACC_PUBLIC, ZEND_ACC_FINAL],
      PHP_ME ''PerfidiousHandle'' ''reset'' arginfo_class_Perfidious_Handle_reset [ZEND_ACC_PUBLIC, ZEND_ACC_FINAL]] @
     (if debug then
       [PHP_ME ''PerfidiousHandle'' ''debugCorruptMetricIds'' perfidious_handle_debug_corrupt_metric_ids_arginfo
          [ZEND_ACC_PUBLIC, ZEND_ACC_FINAL],
        PHP_ME ''PerfidiousHandle'' ''debugCloseFd'' perfidious_handle_debug_close_fd_arginfo
          [ZEND_ACC_PUBLIC, ZEND_ACC_FINAL],
        PHP_ME ''PerfidiousHandle'' ''debugInjectOverflowRead'' perfidious_handle_debug_inject_overflow_read_arginfo
          [ZEND_ACC_PUBLIC, ZEND_ACC_FINAL],
        PHP_ME ''PerfidiousHandle'' ''debugInjectScalingRead'' perfidious_handle_debug_inject_scaling_read_arginfo
          [ZEND_ACC_PUBLIC, ZEND_ACC_FINAL]]
      else [])"

definition perfidious_unsupported_metric_exception_methods :: "function_entry list" where
  "perfidious_unsupported_metric_exception_methods =
     [PHP_ME ''PerfidiousUnsupportedMetricException'' ''__construct''
        arginfo_class_Perfidious_UnsupportedMetricException___construct [ZEND_ACC_PRIVATE]]"

definition perfidious_metric_methods :: "function_entry list" where
  "perfidious_metric_methods =
     [PHP_ME ''PerfidiousMetric'' ''unit'' arginfo_class_Perfidious_Metric_unit [ZEND_ACC_PUBLIC]]"

definition perfidious_sampler_methods :: "function_entry list" where
  "perfidious_sampler_methods =
     [PHP_ME ''PerfidiousSamplerObject'' ''__construct'' arginfo_class_Perfidious_Sampler___construct [ZEND_ACC_PRIVATE],
      PHP_ME ''PerfidiousSampler'' ''open'' arginfo_class_Perfidious_Sampler_open [ZEND_ACC_PUBLIC, ZEND_ACC_STATIC],
      PHP_ME ''PerfidiousSampler'' ''metrics'' arginfo_class_Perfidious_Sampler_metrics [ZEND_ACC_PUBLIC],
      PHP_ME ''PerfidiousSampler'' ''read'' arginfo_class_Perfidious_Sampler_read [ZEND_ACC_PUBLIC],
      PHP_ME ''PerfidiousSampler'' ''close'' arginfo_class_Perfidious_Sampler_close [ZEND_ACC_PUBLIC]]"

definition perfidious_sample_methods :: "function_entry list" where
  "perfidious_sample_methods =
     [PHP_ME ''PerfidiousSamplerObject'' ''__construct'' arginfo_class_Perfidious_Sample___construct [ZEND_ACC_PRIVATE],
      PHP_ME ''PerfidiousSample'' ''value'' arginfo_class_Perfidious_Sample_value [ZEND_ACC_PUBLIC],
      PHP_ME ''PerfidiousSample'' ''since'' arginfo_class_Perfidious_Sample_since [ZEND_ACC_PUBLIC]]"

definition perfidious_sample_delta_methods :: "function_entry list" where
  "perfidious_sample_delta_methods =
     [PHP_ME ''PerfidiousSamplerObject'' ''__construct'' arginfo_class_Perfidious_SampleDelta___construct [ZEND_ACC_PRIVATE],
      PHP_ME ''PerfidiousSampleDelta'' ''value'' arginfo_class_Perfidious_SampleDelta_value [ZEND_ACC_PUBLIC]]"

definition perfidious_windows_result_methods :: "function_entry list" where
  "perfidious_windows_result_methods =
     [PHP_ME ''PerfidiousWindowsResult'' ''__construct'' arginfo_class_Perfidious_Windows_ProcessTimes___construct
        [ZEND_ACC_PRIVATE]]"

definition perfidious_windows_thread_profile_methods :: "function_entry list" where
  "perfidious_windows_thread_profile_methods =
     [PHP_ME ''PerfidiousWindowsThreadProfile'' ''__construct'' arginfo_class_Perfidious_Windows_ThreadProfile___construct
        [ZEND_ACC_PRIVATE],
      PHP_ME ''PerfidiousWindowsThreadProfile'' ''read'' arginfo_class_Perfidious_Windows_ThreadProfile_read
        [ZEND_ACC_PUBLIC, ZEND_ACC_FINAL],
      PHP_ME ''PerfidiousWindowsThreadProfile'' ''close'' arginfo_class_Perfidious_Windows_ThreadProfile_close
        [ZEND_ACC_PUBLIC, ZEND_ACC_FINAL]]"

definition perfidious_windows_functions :: "function_entry list" where
  "perfidious_windows_functions =
     [PERFIDIOUS_RAW_FENTRY (windows_class ''query_current_process_cycle_time'')
        (ZEND_FN ''perfidious_windows_query_current_process_cycle_time'')
        arginfo_Perfidious_Windows_query_current_process_cycle_time,
      PERFIDIOUS_RAW_FENTRY (windows_class ''query_current_thread_cycle_time'')
        (ZEND_FN ''perfidious_windows_query_current_thread_cycle_time'')
        arginfo_Perfidious_Windows_query_current_thread_cycle_time,
      PERFIDIOUS_RAW_FENTRY (windows_class ''get_current_process_times'')
        (ZEND_FN ''perfidious_windows_get_current_process_times'') arginfo_Perfidious_Windows_get_current_process_times,
      PERFIDIOUS_RAW_FENTRY (windows_class ''get_current_thread_times'')
        (ZEND_FN ''perfidious_windows_get_current_thread_times'') arginfo_Perfidious_Windows_get_current_thread_times,
      PERFIDIOUS_RAW_FENTRY (windows_class ''get_current_process_memory_info'')
        (ZEND_FN ''perfidious_windows_get_current_process_memory_info'')
        arginfo_Perfidious_Windows_get_current_process_memory_info,
      PERFIDIOUS_RAW_FENTRY (windows_class ''enable_current_thread_profiling'')
        (ZEND_FN ''perfidious_windows_enable_current_thread_profiling'')
        arginfo_Perfidious_Windows_enable_current_thread_profiling]"

definition perfidious_darwin_result_methods :: "function_entry list" where
  "perfidious_darwin_result_methods =
     [PHP_ME ''PerfidiousDarwinResult'' ''__construct'' arginfo_class_Perfidious_Darwin_ProcessResourceUsage___construct
        [ZEND_ACC_PRIVATE]]"

definition perfidious_darwin_functions :: "function_entry list" where
  "perfidious_darwin_functions =
     [PERFIDIOUS_RAW_FENTRY (darwin_class ''get_current_process_resource_usage'')
        (ZEND_FN ''perfidious_darwin_get_current_process_resource_usage'')
        arginfo_Perfidious_Darwin_get_current_process_resource_usage,
      PERFIDIOUS_RAW_FENTRY (darwin_class ''get_current_thread_resource_usage'')
        (ZEND_FN ''perfidious_darwin_get_current_thread_resource_usage'')
        arginfo_Perfidious_Darwin_get_current_thread_resource_usage]"

lemmas method_tables = perfidious_handle_methods_def perfidious_unsupported_metric_exception_methods_def
  perfidious_metric_methods_def perfidious_sampler_methods_def perfidious_sample_methods_def
  perfidious_sample_delta_methods_def perfidious_windows_result_methods_def
  perfidious_windows_thread_profile_methods_def perfidious_darwin_result_methods_def
  PERFIDIOUS_RAW_FENTRY_def PHP_ME_def

text \<open>The parameters in the body of each C function; all functions not named here begin with
  \<open>ZEND_PARSE_PARAMETERS_NONE()\<close>.\<close>

definition parameters_of :: "native_function \<Rightarrow> parameters" where
  "parameters_of handler =
     (case map_of
        [(ZEND_FN ''perfidious_get_pmu_info'', get_pmu_info_parameters),
         (ZEND_FN ''perfidious_get_pmu_event_info'', get_pmu_event_info_parameters),
         (ZEND_FN ''perfidious_list_pmu_events'', list_pmu_events_parameters),
         (ZEND_FN ''perfidious_open'', open_parameters),
         (ZEND_FN ''perfidious_debug_pmu_event_info_from_names'', debug_pmu_event_info_from_names_parameters),
         (ZEND_MN ''PerfidiousHandle'' ''rawStream'', rawStream_parameters),
         (ZEND_MN ''PerfidiousHandle'' ''debugCloseFd'', debugCloseFd_parameters),
         (ZEND_MN ''PerfidiousSampler'' ''open'', sampler_open_parameters),
         (ZEND_MN ''PerfidiousSample'' ''value'', sample_value_parameters),
         (ZEND_MN ''PerfidiousSample'' ''since'', sample_since_parameters),
         (ZEND_MN ''PerfidiousSampleDelta'' ''value'', sample_value_parameters),
         (ZEND_FN ''perfidious_windows_enable_current_thread_profiling'', enable_current_thread_profiling_parameters)]
        handler of
        None \<Rightarrow> ZEND_PARSE_PARAMETERS_NONE | Some ps \<Rightarrow> ps)"

section \<open>Signatures against parameters\<close>

fun accepts_type :: "z_param \<Rightarrow> arg_type \<Rightarrow> bool \<Rightarrow> bool" where
  "accepts_type Z_PARAM_LONG IS_LONG allow_null = (\<not> allow_null)"
| "accepts_type Z_PARAM_LONG_OR_NULL IS_LONG allow_null = allow_null"
| "accepts_type Z_PARAM_STR IS_STRING allow_null = (\<not> allow_null)"
| "accepts_type Z_PARAM_ARRAY_HT IS_ARRAY allow_null = (\<not> allow_null)"
| "accepts_type (Z_PARAM_OBJECT_OF_CLASS c) (IS_OBJECT d) allow_null = (c = d \<and> \<not> allow_null)"
| "accepts_type _ _ _ = False"

text \<open>A body asks for what the signature says: as many arguments, as many of them required, of the same types.
  \<open>well_formed\<close> is about the two on their own: counts that fit the lists, names given once, default values for
  the optional arguments.\<close>

definition same_signature :: "arginfo \<Rightarrow> parameters \<Rightarrow> bool" where
  "same_signature ai ps \<longleftrightarrow>
     required_num_args ai = min_num_args ps \<and> length (ai_args ai) = max_num_args ps \<and>
     list_all2 (\<lambda>p a. accepts_type p (arg_type a) (arg_allow_null a)) (all_params ps) (ai_args ai)"

definition well_formed_arginfo :: "arginfo \<Rightarrow> bool" where
  "well_formed_arginfo ai \<longleftrightarrow>
     required_num_args ai \<le> length (ai_args ai) \<and> distinct (map arg_name (ai_args ai)) \<and>
     list_all (\<lambda>a. arg_default a \<noteq> None) (drop (required_num_args ai) (ai_args ai))"

definition well_formed_parameters :: "parameters \<Rightarrow> bool" where
  "well_formed_parameters ps \<longleftrightarrow>
     min_num_args ps = length (required_params ps) \<and> max_num_args ps = length (all_params ps)"

definition entry_agrees :: "function_entry \<Rightarrow> bool" where
  "entry_agrees e \<longleftrightarrow> same_signature (fe_arginfo e) (parameters_of (fe_handler e))"

end
