(* ===== verification/Classes.thy ===== *)
theory Classes
  imports Pmu Signatures Handle
begin

text \<open>
  The classes the extension registers (\<open>src/exceptions.c\<close>, \<open>src/read_result.c\<close>, the \<open>minit\<close> functions of the
  other files, \<open>src/zend_helpers.h\<close>) as a table of class entries, and what the engine does when a
  property of such a class is written. Class names are written without the namespace
  \<open>Perfidious\<close>.
\<close>

section \<open>Class entries\<close>

datatype type_bit = MAY_BE_NULL | MAY_BE_BOOL | MAY_BE_LONG | MAY_BE_STRING | MAY_BE_ARRAY

datatype zend_type = ZEND_TYPE_INIT_MASK "type_bit list" | ZEND_TYPE_INIT_CLASS string

record class_entry =
  ce_name :: string
  ce_is_interface :: bool
  ce_parent :: "string option"
  ce_interfaces :: "string list"
  ce_methods :: "function_entry list"
  ce_final :: bool
  ce_no_dynamic_properties :: bool
  ce_not_serializable :: bool
  ce_clonable :: bool
  ce_readonly_properties :: "(string \<times> zend_type) list"

text \<open>What \<open>zend_register_internal_class_ex\<close> makes of a name, a parent and a table of methods.\<close>

definition zend_register_internal_class_ex :: "string \<Rightarrow> string option \<Rightarrow> function_entry list \<Rightarrow> class_entry" where
  "zend_register_internal_class_ex name parent methods =
     \<lparr>ce_name = name, ce_is_interface = False, ce_parent = parent, ce_interfaces = [],
      ce_methods = methods, ce_final = False, ce_no_dynamic_properties = False,
      ce_not_serializable = False, ce_clonable = True, ce_readonly_properties = []\<rparr>"

definition perfidious_declare_readonly_property_ex :: "class_entry \<Rightarrow> string \<Rightarrow> zend_type \<Rightarrow> class_entry" where
  "perfidious_declare_readonly_property_ex ce property_name type =
     ce\<lparr>ce_readonly_properties := ce_readonly_properties ce @ [(property_name, type)]\<rparr>"

text \<open>A sequence of declarations with a mask of types.\<close>

definition declare_all :: "(string \<times> type_bit list) list \<Rightarrow> class_entry \<Rightarrow> class_entry" where
  "declare_all ps ce =
     foldl (\<lambda>ce (n, bits). perfidious_declare_readonly_property_ex ce n (ZEND_TYPE_INIT_MASK bits)) ce ps"

definition final_class :: "class_entry \<Rightarrow> class_entry" where
  "final_class ce = ce\<lparr>ce_final := True, ce_no_dynamic_properties := True\<rparr>"

text \<open>A class with native state behind its objects.\<close>

definition native_class :: "class_entry \<Rightarrow> class_entry" where
  "native_class ce = (final_class ce)\<lparr>ce_not_serializable := True, ce_clonable := False\<rparr>"

section \<open>Exceptions (exceptions.c)\<close>

definition register_class_ExceptionInterface :: class_entry where
  "register_class_ExceptionInterface =
     (zend_register_internal_class_ex ''ExceptionInterface'' None [])\<lparr>ce_is_interface := True\<rparr>"

definition perfidious_register_exception :: "string \<Rightarrow> string \<Rightarrow> class_entry \<Rightarrow> function_entry list \<Rightarrow> bool \<Rightarrow> class_entry" where
  "perfidious_register_exception name parent iface methods not_serializable =
     (let ce = zend_register_internal_class_ex name (Some parent) methods
      in (final_class ce)\<lparr>ce_not_serializable := not_serializable, ce_interfaces := [ce_name iface]\<rparr>)"

definition register_class_UnsupportedMetricException :: "class_entry \<Rightarrow> class_entry" where
  "register_class_UnsupportedMetricException iface =
     declare_all [(''unsupportedMetrics'', [MAY_BE_ARRAY])]
       (perfidious_declare_readonly_property_ex
          (perfidious_register_exception ''UnsupportedMetricException'' ''RuntimeException'' iface
             perfidious_unsupported_metric_exception_methods True)
          ''scope'' (ZEND_TYPE_INIT_CLASS ''Scope''))"

text \<open>The class entry of each exception class of the extension.\<close>

definition perfidious_exceptions_minit :: "(exn_class \<times> class_entry) list" where
  "perfidious_exceptions_minit =
     (let iface = register_class_ExceptionInterface;
          reg = (\<lambda>name parent. perfidious_register_exception name parent iface [] False)
      in [(OverflowException, reg ''OverflowException'' ''OverflowException''),
          (PmuNotFoundException, reg ''PmuNotFoundException'' ''InvalidArgumentException''),
          (PmuEventNotFoundException, reg ''PmuEventNotFoundException'' ''InvalidArgumentException''),
          (IOException, reg ''IOException'' ''RuntimeException''),
          (ClosedException, reg ''ClosedException'' ''LogicException''),
          (WrongThreadException, reg ''WrongThreadException'' ''LogicException''),
          (ResourceBusyException, reg ''ResourceBusyException'' ''RuntimeException''),
          (UnsupportedMetricException, register_class_UnsupportedMetricException iface)])"

section \<open>Results and objects\<close>

definition register_class_PerfidiousReadResult :: class_entry where
  "register_class_PerfidiousReadResult =
     final_class (declare_all [(''timeEnabled'', [MAY_BE_LONG]), (''timeRunning'', [MAY_BE_LONG]), (''values'', [MAY_BE_ARRAY])]
       (zend_register_internal_class_ex ''ReadResult'' None []))"

definition register_class_PmuInfo :: class_entry where
  "register_class_PmuInfo =
     final_class (declare_all [(''name'', [MAY_BE_STRING]), (''desc'', [MAY_BE_STRING]), (''pmu'', [MAY_BE_LONG]),
         (''type'', [MAY_BE_LONG]), (''nevents'', [MAY_BE_LONG]), (''is_present'', [MAY_BE_BOOL])]
       (zend_register_internal_class_ex ''PmuInfo'' None []))"

definition register_class_PmuEventInfo :: class_entry where
  "register_class_PmuEventInfo =
     final_class (declare_all [(''name'', [MAY_BE_STRING]), (''desc'', [MAY_BE_STRING]),
         (''equiv'', [MAY_BE_STRING, MAY_BE_NULL]), (''pmu'', [MAY_BE_LONG]), (''idx'', [MAY_BE_LONG]),
         (''is_present'', [MAY_BE_BOOL])]
       (zend_register_internal_class_ex ''PmuEventInfo'' None []))"

definition register_class_Handle :: "bool \<Rightarrow> class_entry" where
  "register_class_Handle debug =
     native_class (zend_register_internal_class_ex ''Handle'' None (perfidious_handle_methods debug))"

text \<open>The classes of \<open>perfidious_sampler_minit\<close>.\<close>

definition sampler_classes :: "class_entry list" where
  "sampler_classes =
     [native_class (zend_register_internal_class_ex ''Sampler'' None perfidious_sampler_methods),
      native_class (zend_register_internal_class_ex ''Sample'' None perfidious_sample_methods),
      declare_all [(''elapsedTimeNs'', [MAY_BE_LONG])]
        (native_class (zend_register_internal_class_ex ''SampleDelta'' None perfidious_sample_delta_methods))]"

definition all_long :: "string list \<Rightarrow> (string \<times> type_bit list) list" where
  "all_long = map (\<lambda>n. (n, [MAY_BE_LONG]))"

text \<open>The classes of \<open>perfidious_darwin_minit\<close>.\<close>

definition darwin_classes :: "class_entry list" where
  "darwin_classes =
     [declare_all (all_long [''userTimeNs'', ''systemTimeNs'', ''minorPageFaultCount'', ''majorPageFaultCount'',
          ''voluntaryContextSwitchCount'', ''involuntaryContextSwitchCount'', ''instructionCount'', ''cycleCount''])
        (final_class
          (zend_register_internal_class_ex (darwin_class ''ProcessResourceUsage'') None perfidious_darwin_result_methods)),
      declare_all (all_long [''userTimeNs'', ''systemTimeNs'', ''instructionCount'', ''cycleCount''])
        (final_class
          (zend_register_internal_class_ex (darwin_class ''ThreadResourceUsage'') None perfidious_darwin_result_methods))]"

definition perfidious_windows_register_result_class :: "string \<Rightarrow> class_entry" where
  "perfidious_windows_register_result_class name =
     final_class (zend_register_internal_class_ex (windows_class name) None perfidious_windows_result_methods)"

definition perfidious_windows_register_process_result_classes :: "class_entry list" where
  "perfidious_windows_register_process_result_classes =
     [declare_all (all_long [''creationTimeFiletime'', ''kernelTime100ns'', ''userTime100ns''])
        (perfidious_windows_register_result_class ''ProcessTimes''),
      declare_all (all_long [''pageFaultCount'', ''peakWorkingSetSize'', ''workingSetSize'', ''quotaPeakPagedPoolUsage'',
          ''quotaPagedPoolUsage'', ''quotaPeakNonPagedPoolUsage'', ''quotaNonPagedPoolUsage'', ''pagefileUsage'',
          ''peakPagefileUsage'', ''privateUsage''])
        (perfidious_windows_register_result_class ''ProcessMemoryInfo'')]"

definition perfidious_windows_register_thread_result_classes :: "class_entry list" where
  "perfidious_windows_register_thread_result_classes =
     [declare_all (all_long [''creationTimeFiletime'', ''kernelTime100ns'', ''userTime100ns''])
        (perfidious_windows_register_result_class ''ThreadTimes''),
      declare_all (all_long [''index'', ''type'', ''value''])
        (perfidious_windows_register_result_class ''HardwareCounterSnapshot''),
      declare_all [(''contextSwitchCount'', [MAY_BE_LONG]), (''waitReasonBitmapHex'', [MAY_BE_STRING]),
          (''cycleCount'', [MAY_BE_LONG]), (''readRetryCount'', [MAY_BE_LONG]), (''hardwareCounterCount'', [MAY_BE_LONG]),
          (''hardwareCounters'', [MAY_BE_ARRAY])]
        (perfidious_windows_register_result_class ''ThreadProfileSnapshot'')]"

definition perfidious_windows_minit :: "class_entry list" where
  "perfidious_windows_minit =
     perfidious_windows_register_process_result_classes @ perfidious_windows_register_thread_result_classes @
     [native_class
        (zend_register_internal_class_ex (windows_class ''ThreadProfile'') None perfidious_windows_thread_profile_methods)]"

text \<open>The classes of all builds, without debug helpers.\<close>

definition class_table :: "class_entry list" where
  "class_table =
     [register_class_ExceptionInterface] @ map snd perfidious_exceptions_minit @
     [register_class_PerfidiousReadResult, register_class_PmuInfo, register_class_PmuEventInfo, register_class_Handle False] @
     sampler_classes @ darwin_classes @ perfidious_windows_minit"

definition class_named :: "string \<Rightarrow> class_entry option" where
  "class_named name = find (\<lambda>ce. ce_name ce = name) class_table"

section \<open>Writing properties\<close>

fun has_bit :: "type_bit \<Rightarrow> zval \<Rightarrow> bool" where
  "has_bit MAY_BE_NULL ZNull = True"
| "has_bit MAY_BE_BOOL (ZBool _) = True"
| "has_bit MAY_BE_LONG (ZLong _) = True"
| "has_bit MAY_BE_STRING (ZString _) = True"
| "has_bit MAY_BE_ARRAY (ZArray _) = True"
| "has_bit _ _ = False"

fun has_type :: "zend_type \<Rightarrow> zval \<Rightarrow> bool" where
  "has_type (ZEND_TYPE_INIT_MASK bits) v = list_ex (\<lambda>b. has_bit b v) bits"
| "has_type (ZEND_TYPE_INIT_CLASS c) v = (case v of ZEnum c' _ _ \<Rightarrow> c' = c | ZObject c' _ \<Rightarrow> c' = c | _ \<Rightarrow> False)"

text \<open>\<open>zend_update_property\<close> on an object whose properties \<open>written\<close> already have a value: a property that is
  not declared, a value of another type and a second write of a readonly property throw an \<open>Error\<close>, here \<open>None\<close>.\<close>

definition update_property :: "class_entry \<Rightarrow> string list option \<Rightarrow> string \<times> zval \<Rightarrow> string list option" where
  "update_property ce written p =
     (case written of None \<Rightarrow> None | Some names \<Rightarrow>
        (case map_of (ce_readonly_properties ce) (fst p) of
           None \<Rightarrow> None
         | Some t \<Rightarrow> if has_type t (snd p) \<and> fst p \<notin> set names then Some (names @ [fst p]) else None))"

text \<open>All writes succeed and no property is left without a value.\<close>

definition fully_initialised :: "class_entry \<Rightarrow> (string \<times> zval) list \<Rightarrow> bool" where
  "fully_initialised ce ps =
     (case foldl (update_property ce) (Some []) ps of
        None \<Rightarrow> False | Some names \<Rightarrow> list_all (\<lambda>(n, _). n \<in> set names) (ce_readonly_properties ce))"

text \<open>Every object within a value is a fully initialised object of a registered class.\<close>

fun well_typed :: "zval \<Rightarrow> bool" where
  "well_typed (ZObject c ps) =
     ((case class_named c of None \<Rightarrow> False | Some ce \<Rightarrow> fully_initialised ce ps) \<and> list_all (\<lambda>(_, v). well_typed v) ps)"
| "well_typed (ZArray kvs) = list_all (\<lambda>(_, v). well_typed v) kvs"
| "well_typed _ = True"

end
