(* ===== verification/Module.thy ===== *)
theory Module
  imports Classes Lifecycle
begin

text \<open>
  The module entry of \<open>src/extension.c\<close> in its three builds: what each build registers with the engine
  (constants, functions, classes, enums), and module start over the functions that \<open>src/platform.h\<close>
  declares. On Linux these are in \<open>src/linux/platform.c\<close>; the Windows and macOS builds take
  them from \<open>src/platform.c\<close>.
\<close>

section \<open>What the engine keeps of an extension\<close>

record enum_entry =
  en_name :: string
  en_backing :: "type_bit option"
  en_methods :: "function_entry list"
  en_cases :: "(string \<times> string option) list"

record registry =
  reg_constants :: "(string \<times> zval) list"
  reg_functions :: "function_entry list"
  reg_classes :: "class_entry list"
  reg_enums :: "enum_entry list"

definition register_constants :: "(string \<times> zval) list \<Rightarrow> registry \<Rightarrow> registry" where
  "register_constants cs r = r\<lparr>reg_constants := reg_constants r @ cs\<rparr>"

definition register_classes :: "class_entry list \<Rightarrow> registry \<Rightarrow> registry" where
  "register_classes cs r = r\<lparr>reg_classes := reg_classes r @ cs\<rparr>"

definition register_enums :: "enum_entry list \<Rightarrow> registry \<Rightarrow> registry" where
  "register_enums es r = r\<lparr>reg_enums := reg_enums r @ es\<rparr>"

definition zend_register_internal_enum :: "string \<Rightarrow> type_bit option \<Rightarrow> function_entry list \<Rightarrow> enum_entry" where
  "zend_register_internal_enum name type methods =
     \<lparr>en_name = name, en_backing = type, en_methods = methods, en_cases = []\<rparr>"

definition zend_enum_add_case_cstr :: "string \<Rightarrow> string option \<Rightarrow> enum_entry \<Rightarrow> enum_entry" where
  "zend_enum_add_case_cstr name val ce = ce\<lparr>en_cases := en_cases ce @ [(name, val)]\<rparr>"

text \<open>The cases of an enum as a program sees them.\<close>

definition enum_values :: "enum_entry \<Rightarrow> zval list" where
  "enum_values ce = map (\<lambda>(c, v). ZEnum (en_name ce) c v) (en_cases ce)"

section \<open>Enums and classes of the sampler (sampler.c)\<close>

definition perfidious_add_string_enum_case :: "string \<Rightarrow> string \<Rightarrow> enum_entry \<Rightarrow> enum_entry" where
  "perfidious_add_string_enum_case name val ce = zend_enum_add_case_cstr name (Some val) ce"

definition perfidious_metric_unit_ce :: enum_entry where
  "perfidious_metric_unit_ce =
     zend_enum_add_case_cstr ''Count'' None (zend_enum_add_case_cstr ''Nanoseconds'' None
       (zend_register_internal_enum ''MetricUnit'' None []))"

definition perfidious_metric_ce :: enum_entry where
  "perfidious_metric_ce =
     foldl (\<lambda>ce metric. perfidious_add_string_enum_case
              (perfidious_metric_case_name metric) (perfidious_metric_name metric) ce)
       (zend_register_internal_enum ''Metric'' (Some MAY_BE_STRING) perfidious_metric_methods) all_metrics"

definition perfidious_scope_ce :: enum_entry where
  "perfidious_scope_ce =
     perfidious_add_string_enum_case ''CurrentThread'' ''current-thread''
       (perfidious_add_string_enum_case ''CurrentProcess'' ''current-process''
          (zend_register_internal_enum ''Scope'' (Some MAY_BE_STRING) []))"

definition perfidious_sampler_minit :: "registry \<Rightarrow> registry" where
  "perfidious_sampler_minit r =
     register_classes sampler_classes
       (register_enums [perfidious_metric_unit_ce, perfidious_metric_ce, perfidious_scope_ce] r)"

section \<open>The functions of platform.h\<close>

text \<open>The state of a build besides the registry: the static variables of its backend and the machine.\<close>

record ('b, 'm) platform =
  PLATFORM_FUNCTIONS :: "function_entry list"
  platform_minit :: "registry \<Rightarrow> 'b \<Rightarrow> 'm \<Rightarrow> bool \<times> registry \<times> 'b \<times> 'm"
  platform_mshutdown :: "'m \<Rightarrow> bool \<times> 'm"
  platform_rinit :: "'m \<Rightarrow> 'm cval"
  platform_rshutdown :: "'m \<Rightarrow> 'm cval"
  platform_minfo :: "'m \<Rightarrow> (info_item list \<times> 'm) cval"
  platform_globals_shutdown :: "'m \<Rightarrow> 'm cval"

text \<open>\<open>src/platform.c\<close>: the start of the backend and nothing else.\<close>

definition generic_platform ::
  "function_entry list \<Rightarrow> (registry \<Rightarrow> 'b \<Rightarrow> 'm \<Rightarrow> registry \<times> 'b \<times> 'm) \<Rightarrow> ('b, 'm) platform" where
  "generic_platform functions backend_minit =
     \<lparr>PLATFORM_FUNCTIONS = functions,
      platform_minit = (\<lambda>r b m. (True, backend_minit r b m)),
      platform_mshutdown = (\<lambda>m. (True, m)),
      platform_rinit = Ret,
      platform_rshutdown = Ret,
      platform_minfo = (\<lambda>m. Ret ([], m)),
      platform_globals_shutdown = Ret\<rparr>"

definition windows_platform :: "(unit, ('k, 'z) wmachine) platform" where
  "windows_platform =
     generic_platform perfidious_windows_functions (\<lambda>r b m. (register_classes perfidious_windows_minit r, b, m))"

definition darwin_platform :: "'k darwin_os \<Rightarrow> (darwin_statics, ('k, 'z) dmachine) platform" where
  "darwin_platform os =
     generic_platform perfidious_darwin_functions
       (\<lambda>r b m. (register_classes darwin_classes r, perfidious_darwin_minit os m))"

definition perfidious_handle_minit :: "bool \<Rightarrow> registry \<Rightarrow> registry" where
  "perfidious_handle_minit debug = register_classes [register_class_Handle debug]"

definition perfidious_pmu_event_info_minit :: "registry \<Rightarrow> registry" where
  "perfidious_pmu_event_info_minit = register_classes [register_class_PmuEventInfo]"

definition perfidious_pmu_info_minit :: "registry \<Rightarrow> registry" where
  "perfidious_pmu_info_minit = register_classes [register_class_PmuInfo]"

definition linux_platform ::
  "bool \<Rightarrow> 'k linux_os \<Rightarrow> bool option \<Rightarrow> string option \<Rightarrow> (unit, 'k process) platform" where
  "linux_platform debug os enable_ini metrics_ini =
     \<lparr>PLATFORM_FUNCTIONS = perfidious_functions debug,
      platform_minit = (\<lambda>r b p.
        case MINIT_perfidious_platform os enable_ini metrics_ini p of
          (False, p1) \<Rightarrow> (False, r, b, p1)
        | (True, p1) \<Rightarrow>
            (True, perfidious_pmu_info_minit (perfidious_pmu_event_info_minit (perfidious_handle_minit debug r)), b, p1)),
      platform_mshutdown = (\<lambda>p. (True, p)),
      platform_rinit = RINIT_perfidious_platform os,
      platform_rshutdown = RSHUTDOWN_perfidious_platform os,
      platform_minfo = MINFO_perfidious_platform os,
      platform_globals_shutdown = perfidious_platform_globals_shutdown os\<rparr>"

section \<open>Module start (extension.c)\<close>

definition module_constants :: "bool \<Rightarrow> (string \<times> zval) list" where
  "module_constants debug =
     [(''DEBUG'', ZBool debug), (''VERSION'', ZString PHP_PERFIDIOUS_VERSION)] @
     (if debug then [(''UINT64_MAX'', ZString (show_nat (unat UINT64_MAX)))] else []) @
     [(''MOTD'', ZString PERFIDIOUS_MOTD)]"

lemma UINT64_MAX_text: "show_nat (unat UINT64_MAX) = ''18446744073709551615''"
proof -
  have digits: "digit 0 = CHR ''0''" "digit 1 = CHR ''1''" "digit 3 = CHR ''3''" "digit 4 = CHR ''4''" "digit 5 = CHR ''5''"
    "digit 6 = CHR ''6''" "digit 7 = CHR ''7''" "digit 8 = CHR ''8''" "digit 9 = CHR ''9''"
    by code_simp+
  show ?thesis by (simp add: unat_UINT64_MAX show_nat.simps digits digits(2) [simplified])
qed

lemma module_constants_text [code]:
  "module_constants debug =
     [(''DEBUG'', ZBool debug), (''VERSION'', ZString PHP_PERFIDIOUS_VERSION)] @
     (if debug then [(''UINT64_MAX'', ZString ''18446744073709551615'')] else []) @
     [(''MOTD'', ZString PERFIDIOUS_MOTD)]"
  unfolding module_constants_def UINT64_MAX_text by (rule refl)

definition perfidious_read_result_minit :: "registry \<Rightarrow> registry" where
  "perfidious_read_result_minit = register_classes [register_class_PerfidiousReadResult]"

text \<open>What is registered before the platform starts.\<close>

definition portable_minit :: "bool \<Rightarrow> registry \<Rightarrow> registry" where
  "portable_minit debug r =
     perfidious_sampler_minit
       (perfidious_read_result_minit
          (register_classes (register_class_ExceptionInterface # map snd perfidious_exceptions_minit)
             (register_constants (module_constants debug) r)))"

definition module_minit ::
  "bool \<Rightarrow> ('b, ('k, 'e, 'z) machine_scheme) platform \<Rightarrow> registry \<Rightarrow> 'b \<Rightarrow> ('k, 'e, 'z) machine_scheme
    \<Rightarrow> bool \<times> registry \<times> 'b \<times> ('k, 'e, 'z) machine_scheme" where
  "module_minit debug pl r b m =
     (case platform_minit pl (portable_minit debug r) b (m\<lparr>error_mode := PERFIDIOUS_ERROR_MODE_WARNING\<rparr>) of
        (False, r1, b1, m1) \<Rightarrow> (False, r1, b1, m1)
      | (True, r1, b1, m1) \<Rightarrow> (True, r1, b1, m1\<lparr>error_mode := PERFIDIOUS_ERROR_MODE_THROW\<rparr>))"

definition module_mshutdown ::
  "('b, ('k, 'e, 'z) machine_scheme) platform \<Rightarrow> ('k, 'e, 'z) machine_scheme \<Rightarrow> bool \<times> ('k, 'e, 'z) machine_scheme" where
  "module_mshutdown pl m = platform_mshutdown pl (m\<lparr>error_mode := PERFIDIOUS_ERROR_MODE_WARNING\<rparr>)"

text \<open>The engine registers the table of functions of the module entry before it starts the module.\<close>

definition perfidious_module_entry ::
  "bool \<Rightarrow> ('b, ('k, 'e, 'z) machine_scheme) platform \<Rightarrow> 'b \<Rightarrow> ('k, 'e, 'z) machine_scheme
    \<Rightarrow> bool \<times> registry \<times> 'b \<times> ('k, 'e, 'z) machine_scheme" where
  "perfidious_module_entry debug pl b m =
     module_minit debug pl
       \<lparr>reg_constants = [], reg_functions = PLATFORM_FUNCTIONS pl, reg_classes = [], reg_enums = []\<rparr> b m"

end
