(* ===== verification/Classes_Properties.thy ===== *)
theory Classes_Properties
  imports Classes
begin

text \<open>
  The objects the extension makes fit the classes it registers.
\<close>

section \<open>The table of classes\<close>

lemmas class_defs = class_table_def perfidious_exceptions_minit_def register_class_ExceptionInterface_def
  perfidious_register_exception_def register_class_UnsupportedMetricException_def
  register_class_PerfidiousReadResult_def register_class_PmuInfo_def register_class_PmuEventInfo_def
  register_class_Handle_def sampler_classes_def darwin_classes_def perfidious_windows_minit_def
  perfidious_windows_register_process_result_classes_def perfidious_windows_register_thread_result_classes_def
  perfidious_windows_register_result_class_def zend_register_internal_class_ex_def final_class_def native_class_def
  declare_all_def all_long_def perfidious_declare_readonly_property_ex_def

lemma classes_by_name:
  "class_named ''ReadResult'' = Some register_class_PerfidiousReadResult"
  "class_named ''PmuInfo'' = Some register_class_PmuInfo"
  "class_named ''PmuEventInfo'' = Some register_class_PmuEventInfo"
  "class_named (darwin_class ''ProcessResourceUsage'') = Some (darwin_classes ! 0)"
  "class_named (darwin_class ''ThreadResourceUsage'') = Some (darwin_classes ! 1)"
  "class_named (windows_class ''ProcessTimes'') = Some (perfidious_windows_minit ! 0)"
  "class_named (windows_class ''ProcessMemoryInfo'') = Some (perfidious_windows_minit ! 1)"
  "class_named (windows_class ''ThreadTimes'') = Some (perfidious_windows_minit ! 2)"
  "class_named (windows_class ''HardwareCounterSnapshot'') = Some (perfidious_windows_minit ! 3)"
  "class_named (windows_class ''ThreadProfileSnapshot'') = Some (perfidious_windows_minit ! 4)"
  by code_simp+

text \<open>Names are unique, every exception class is final and carries the interface, and the objects with native
  state behind them can be neither copied nor serialized.\<close>

lemma class_names_distinct: "distinct (map ce_name class_table)"
  by code_simp

lemma exception_classes:
  "list_all (\<lambda>(_, ce). ce_final ce \<and> ce_parent ce \<noteq> None \<and> ce_interfaces ce = [''ExceptionInterface''])
     perfidious_exceptions_minit"
  by code_simp

lemma native_objects_cannot_be_copied:
  "list_all (\<lambda>c. case class_named c of
       None \<Rightarrow> False
     | Some ce \<Rightarrow> ce_final ce \<and> ce_not_serializable ce \<and> \<not> ce_clonable ce)
   [''Handle'', ''Sampler'', ''Sample'', ''SampleDelta'', windows_class ''ThreadProfile'']"
  by code_simp

section \<open>Objects of integers\<close>

definition long_class :: "class_entry \<Rightarrow> string list \<Rightarrow> bool" where
  "long_class ce names \<longleftrightarrow> distinct names \<and>
     ce_readonly_properties ce = map (\<lambda>n. (n, ZEND_TYPE_INIT_MASK [MAY_BE_LONG])) names"

lemma map_of_constant: "map_of (map (\<lambda>n. (n, t)) names) n = (if n \<in> set names then Some t else None)"
  by (induction names) auto

lemma updates_of_longs:
  "long_class ce names \<Longrightarrow> set ns \<subseteq> set names \<Longrightarrow> distinct (ds @ ns) \<Longrightarrow> length ls = length ns \<Longrightarrow>
     foldl (update_property ce) (Some ds) (zip ns (map ZLong ls)) = Some (ds @ ns)"
proof (induction ns arbitrary: ds ls)
  case (Cons n ns)
  then obtain l ls' where ls: "ls = l # ls'" "length ls' = length ns" by (cases ls) auto
  have "update_property ce (Some ds) (n, ZLong l) = Some (ds @ [n])"
    using Cons.prems by (auto simp: update_property_def long_class_def map_of_constant)
  then show ?case using Cons.IH [of "ds @ [n]" ls'] Cons.prems ls by simp
qed simp

lemma longs_initialise:
  assumes "long_class ce names" "length ls = length names"
  shows "fully_initialised ce (zip names (map ZLong ls))"
  using updates_of_longs [OF assms(1), of names "[]" ls] assms
  by (auto simp: fully_initialised_def long_class_def list_all_iff)

lemma longs_well_typed:
  assumes "class_named c = Some ce" "long_class ce names" "length ls = length names"
  shows "well_typed (ZObject c (zip names (map ZLong ls)))"
proof -
  have "well_typed v" if "(n, v) \<in> set (zip names (map ZLong ls))" for n v
    using set_zip_rightD [OF that] by auto
  then show ?thesis using longs_initialise [OF assms(2,3)] assms(1) by (auto simp: list_all_iff)
qed

lemma convert_chain_length: "convert_chain fs m = (Some xs, m') \<Longrightarrow> length xs = length fs"
  by (induction fs arbitrary: m xs) (auto split: prod.splits option.splits)

lemma long_classes:
  "long_class (darwin_classes ! 0) (map fst (process_fields a b u v))"
  "long_class (darwin_classes ! 1) (map fst (thread_fields t))"
  "long_class (perfidious_windows_minit ! 0) [''creationTimeFiletime'', ''kernelTime100ns'', ''userTime100ns'']"
  "long_class (perfidious_windows_minit ! 2) [''creationTimeFiletime'', ''kernelTime100ns'', ''userTime100ns'']"
  "long_class (perfidious_windows_minit ! 1)
     [''pageFaultCount'', ''peakWorkingSetSize'', ''workingSetSize'', ''quotaPeakPagedPoolUsage'',
      ''quotaPagedPoolUsage'', ''quotaPeakNonPagedPoolUsage'', ''quotaNonPagedPoolUsage'', ''pagefileUsage'',
      ''peakPagefileUsage'', ''privateUsage'']"
  by (simp_all add: long_class_def process_fields_def thread_fields_def class_defs)

lemma usage_object_well_typed:
  assumes "class_named (darwin_class cls) = Some ce" "long_class ce (map fst fs)"
  shows "well_typed (fst (usage_object cls fs m))"
proof (cases "convert_chain (map (\<lambda>(_, field_name, v). perfidious_darwin_uint64_to_zend_long field_name v) fs) m")
  case (Pair r m')
  then show ?thesis
    using convert_chain_length [of "map (\<lambda>(_, field_name, v). perfidious_darwin_uint64_to_zend_long field_name v) fs" m]
      longs_well_typed [OF assms] by (cases r) (auto simp: usage_object_def)
qed

lemma convert_to_object_well_typed:
  assumes "class_named (windows_class cls) = Some ce" "long_class ce names" "length vals = length names"
  shows "well_typed (fst (convert_to_object cls names vals m))"
proof (cases "convert_chain (map perfidious_windows_uint64_to_zend_long vals) m")
  case (Pair r m')
  then show ?thesis
    using convert_chain_length [of "map perfidious_windows_uint64_to_zend_long vals" m]
      longs_well_typed [OF assms(1,2)] assms(3) by (cases r) (auto simp: convert_to_object_def result_object_def)
qed

section \<open>The functions\<close>

lemma darwin_results_well_typed:
  "well_typed (fst (get_current_process_resource_usage os g m))"
  "well_typed (fst (get_current_thread_resource_usage os g m))"
  by (auto simp: get_current_process_resource_usage_def get_current_thread_resource_usage_def
      usage_object_well_typed [OF classes_by_name(4) long_classes(1)]
      usage_object_well_typed [OF classes_by_name(5) long_classes(2)] split: prod.split option.split)

lemma windows_results_well_typed:
  "well_typed (fst (get_current_process_times os m))"
  "well_typed (fst (get_current_thread_times os m))"
  "well_typed (fst (get_current_process_memory_info os m))"
  by (auto simp: get_current_process_times_def get_current_thread_times_def get_current_process_memory_info_def
      times_object_def convert_to_object_well_typed [OF classes_by_name(6) long_classes(3)]
      convert_to_object_well_typed [OF classes_by_name(8) long_classes(4)]
      convert_to_object_well_typed [OF classes_by_name(7) long_classes(5)] split: prod.split option.split)

lemma pmu_results_well_typed:
  "well_typed (perfidious_pmu_info_ctor info)" "well_typed (perfidious_pmu_event_info_ctor info ev)"
  by (auto simp: perfidious_pmu_info_ctor_def perfidious_pmu_event_info_ctor_def classes_by_name fully_initialised_def
      update_property_def class_defs split: option.split)

lemma packed_array_well_typed: "well_typed (packed_array vs) \<longleftrightarrow> (\<forall>v \<in> set vs. well_typed v)"
proof -
  have "set vs = snd ` set (zip (map (\<lambda>i. KInt (int i)) [0..<length vs]) vs)"
    by (metis length_map length_upt map_snd_zip minus_nat.diff_0 set_map)
  then show ?thesis by (auto simp: packed_array_def list_all_iff)
qed

lemma collect_pmus_well_typed: "v \<in> set (fst (collect_pmus lib is m)) \<Longrightarrow> well_typed v"
proof (induction "is" arbitrary: m)
  case (Cons i "is")
  obtain r m1 where "perfidious_get_pmu_info lib i True m = (r, m1)" by fastforce
  then show ?case
    using Cons.IH [of m1] Cons.prems
    by (auto simp: perfidious_get_pmu_info_def pmu_results_well_typed split: sum.splits prod.splits option.splits)
qed simp

lemma event_info_well_typed:
  "perfidious_get_pmu_event_info lib info i m = (Some v, m') \<Longrightarrow> well_typed v"
  by (auto simp: perfidious_get_pmu_event_info_def pmu_results_well_typed split: sum.splits if_splits)

lemma collect_events_well_typed:
  assumes "collect_events lib info i acc m = Some (Some vs, m')" "\<forall>v \<in> set acc. well_typed v"
  shows "\<forall>v \<in> set vs. well_typed v"
proof -
  let ?P = "\<lambda>lib info i acc m y. (\<forall>v \<in> set acc. well_typed v) \<longrightarrow> (case fst y of None \<Rightarrow> True | Some vs \<Rightarrow> \<forall>v \<in> set vs. well_typed v)"
  have "?P lib info i acc m (Some vs, m')"
  proof (rule collect_events.raw_induct [where P = ?P, OF _ assms(1)], goal_cases)
    case (1 f lib info i acc m y)
    show ?case
    proof (cases "i = -1")
      case True
      with 1(2) show ?thesis by auto
    next
      case False
      obtain r m1 where e: "perfidious_get_pmu_event_info lib info i m = (r, m1)" by fastforce
      show ?thesis
      proof (cases r)
        case None
        with 1(2) False e show ?thesis by auto
      next
        case (Some tmp)
        with 1(2) False e have "f lib info (pfm_get_event_next lib i) (acc @ [tmp]) m1 = Some y" by simp
        from 1(1) [OF this] event_info_well_typed [OF e [unfolded Some]] show ?thesis by simp
      qed
    qed
  qed
  with assms(2) show ?thesis by simp
qed

lemma read_values_well_typed:
  "read_values os i n ms vs arr m = Ret (Some arr', m') \<Longrightarrow> list_all (\<lambda>(_, v). well_typed v) arr \<Longrightarrow>
     list_all (\<lambda>(_, v). well_typed v) arr'"
proof (induction os i n ms vs arr m rule: read_values.induct)
  case (2 os i n mt ms v vid vs arr m)
  have up: "list_all (\<lambda>(_, v). well_typed v) (AList.update k (ZLong z) xs)" if "list_all (\<lambda>(_, v). well_typed v) xs" for k z xs
    using that by (induction xs) auto
  from 2 show ?case
    by (auto simp: up split: if_splits option.splits prod.splits)
qed auto

lemma read_result_well_typed:
  "perfidious_handle_read_to_result os h m = Ret (Some v, m') \<Longrightarrow> well_typed v"
  by (auto simp: perfidious_handle_read_to_result_def perfidious_handle_read_to_array_with_times_def
      classes_by_name fully_initialised_def update_property_def class_defs Let_def
      dest!: read_values_well_typed split: cval.splits option.splits prod.splits if_splits)

text \<open>The snapshot of a thread profile and the counters in it.\<close>

lemma counter_well_typed: "well_typed (hardware_counter_object d i v)"
  by (simp add: hardware_counter_object_def classes_by_name fully_initialised_def update_property_def class_defs)

lemma snapshot_well_typed: "well_typed (profile_snapshot d c cs)"
  by (auto simp: profile_snapshot_def classes_by_name fully_initialised_def update_property_def class_defs
      counter_well_typed list_all_iff)

lemma profile_read_well_typed:
  "PerfidiousWindowsThreadProfile_read os i p = Ret (v, p') \<Longrightarrow> well_typed v"
  by (auto simp: PerfidiousWindowsThreadProfile_read_def Let_def snapshot_well_typed
      split: option.splits prod.splits sum.splits if_splits)

text \<open>What the functions over performance monitoring units return.\<close>

lemma pmu_functions_well_typed:
  "well_typed (fst (get_pmu_info lib pmu m))" "well_typed (fst (get_pmu_event_info lib pmu idx m))"
  "well_typed (fst (list_pmus lib m))" "list_pmu_events lib pmu m = Some (v, m') \<Longrightarrow> well_typed v"
proof -
  show "well_typed (fst (get_pmu_info lib pmu m))"
    by (auto simp: get_pmu_info_def perfidious_get_pmu_info_def pmu_results_well_typed split: sum.split)
  show "well_typed (fst (get_pmu_event_info lib pmu idx m))"
    by (auto simp: get_pmu_event_info_def dest: event_info_well_typed split: sum.split prod.split option.split)
  show "well_typed (fst (list_pmus lib m))"
    using collect_pmus_well_typed [of _ lib "[0..PFM_PMU_MAX lib - 1]" m]
    by (auto simp: list_pmus_def packed_array_well_typed split: prod.split)
  show "well_typed v" if "list_pmu_events lib pmu m = Some (v, m')"
    using that by (auto simp: list_pmu_events_def packed_array_well_typed dest!: collect_events_well_typed
        split: sum.splits option.splits)
qed

text \<open>C8 (results_are_well_typed). Every value the functions of the extension return is well typed: each object in it, however
  deep, is of a registered class, every write of its properties is accepted by the engine (the
  property is declared, the value has the declared type, a readonly property is written once), and no
  declared property is left without a value.\<close>

theorem results_are_well_typed:
  "well_typed (fst (get_pmu_info lib pmu m)) \<and> well_typed (fst (get_pmu_event_info lib pmu idx m)) \<and>
   well_typed (fst (list_pmus lib m)) \<and>
   (case list_pmu_events lib pmu m of None \<Rightarrow> True | Some (v, _) \<Rightarrow> well_typed v) \<and>
   (case perfidious_handle_read_to_result los h ml of Ret (Some v, _) \<Rightarrow> well_typed v | _ \<Rightarrow> True) \<and>
   well_typed (fst (get_current_process_times wos mw)) \<and> well_typed (fst (get_current_thread_times wos mw)) \<and>
   well_typed (fst (get_current_process_memory_info wos mw)) \<and>
   (case PerfidiousWindowsThreadProfile_read wos i p of Ret (v, _) \<Rightarrow> well_typed v | Undefined \<Rightarrow> True) \<and>
   well_typed (fst (get_current_process_resource_usage dos g md)) \<and>
   well_typed (fst (get_current_thread_resource_usage dos g md))"
  by (auto simp: pmu_functions_well_typed windows_results_well_typed darwin_results_well_typed
      dest: pmu_functions_well_typed(4) read_result_well_typed profile_read_well_typed
      split: option.split prod.split cval.split)

text \<open>The exception for unsupported metrics fits its class too.\<close>

lemma unsupported_metric_exception_well_typed:
  "exceptions m = [] \<Longrightarrow>
     class_named ''UnsupportedMetricException'' = Some (register_class_UnsupportedMetricException register_class_ExceptionInterface) \<and>
     fully_initialised (register_class_UnsupportedMetricException register_class_ExceptionInterface)
       (ex_props (hd (exceptions (perfidious_throw_unsupported_metrics scope ord rejected m))))"
  by (auto simp: perfidious_throw_unsupported_metrics_def fully_initialised_def update_property_def scope_case_def
      php_list_def class_defs class_named_def)

end
