(* ===== verification/Module_Properties.thy ===== *)
theory Module_Properties
  imports Module Classes_Properties Demo_Os
begin

text \<open>
  What module start leaves in the tables of the engine, in each build.
\<close>

section \<open>Enum cases\<close>

text \<open>The metrics and scopes that the portable code recognises are the cases that are registered, and
  every metric's unit is one.\<close>

lemma registered_cases:
  "enum_values perfidious_metric_ce = map metric_case all_metrics"
  "enum_values perfidious_scope_ce = map scope_case [PERFIDIOUS_SCOPE_CURRENT_PROCESS, PERFIDIOUS_SCOPE_CURRENT_THREAD]"
  "list_all (\<lambda>metric. (perfidious_metric_unit_case_name metric, None) \<in> set (en_cases perfidious_metric_unit_ce)) all_metrics"
  by code_simp+

lemma cases_parse_back:
  "map (\<lambda>z. perfidious_metric_from_zval z m) (enum_values perfidious_metric_ce) =
     map (\<lambda>metric. (Some metric, m)) all_metrics"
  "map (\<lambda>z. perfidious_scope_from_zval (Some z)) (enum_values perfidious_scope_ce) =
     [PERFIDIOUS_SCOPE_CURRENT_PROCESS, PERFIDIOUS_SCOPE_CURRENT_THREAD]"
  by (simp_all add: registered_cases all_metrics_def perfidious_metric_from_zval_def metric_case_def
      perfidious_metric_name_def perfidious_scope_from_zval_def scope_case_def)

section \<open>Tables without conflicts\<close>

text \<open>The engine compares names of classes and functions without regard to the case of ASCII letters. The
  capital letters are the characters from 65 to 90.\<close>

fun ascii_lower :: "char \<Rightarrow> char" where
  "ascii_lower (Char b0 b1 b2 b3 b4 True False False) =
     Char b0 b1 b2 b3 b4 ((b0 \<or> b1 \<or> b2 \<or> b3 \<or> b4) \<and> \<not> (b4 \<and> b3 \<and> (b2 \<or> b1 \<and> b0))) True False"
| "ascii_lower c = c"

definition zend_tolower :: "string \<Rightarrow> string" where
  "zend_tolower = map ascii_lower"

definition names_once :: "registry \<Rightarrow> bool" where
  "names_once r \<longleftrightarrow>
     distinct (map zend_tolower (map ce_name (reg_classes r) @ map en_name (reg_enums r))) \<and>
     distinct (map (zend_tolower \<circ> fe_name) (reg_functions r)) \<and> distinct (map fst (reg_constants r))"

text \<open>Parents are classes of PHP, interfaces and the classes of properties are registered by the extension.\<close>

definition php_exceptions :: "string list" where
  "php_exceptions = [''OverflowException'', ''InvalidArgumentException'', ''RuntimeException'', ''LogicException'']"

definition type_known :: "registry \<Rightarrow> zend_type \<Rightarrow> bool" where
  "type_known r t =
     (case t of ZEND_TYPE_INIT_MASK bits \<Rightarrow> bits \<noteq> []
      | ZEND_TYPE_INIT_CLASS c \<Rightarrow> c \<in> set (map ce_name (reg_classes r) @ map en_name (reg_enums r)))"

definition references_resolved :: "registry \<Rightarrow> bool" where
  "references_resolved r =
     list_all (\<lambda>ce.
       (case ce_parent ce of None \<Rightarrow> True | Some q \<Rightarrow> q \<in> set php_exceptions) \<and>
       list_all (\<lambda>i. list_ex (\<lambda>d. ce_name d = i \<and> ce_is_interface d) (reg_classes r)) (ce_interfaces ce) \<and>
       list_all (\<lambda>(n, t). type_known r t) (ce_readonly_properties ce)) (reg_classes r)"

text \<open>The class of every exception the extension throws is registered, and the classes called \<open>names\<close>.\<close>

definition provides :: "string list \<Rightarrow> registry \<Rightarrow> bool" where
  "provides names r =
     list_all (\<lambda>n. n \<in> set (map ce_name (reg_classes r))) (map (\<lambda>(c, ce). ce_name ce) perfidious_exceptions_minit @ names)"

text \<open>The signatures of functions and methods are well formed and name registered classes, and no class or enum
  has a method twice.\<close>

definition all_entries :: "registry \<Rightarrow> function_entry list" where
  "all_entries r = reg_functions r @ concat (map ce_methods (reg_classes r)) @ concat (map en_methods (reg_enums r))"

definition arg_type_known :: "registry \<Rightarrow> arg_type \<Rightarrow> bool" where
  "arg_type_known r t =
     (case t of IS_OBJECT c \<Rightarrow> c \<in> set (map ce_name (reg_classes r) @ map en_name (reg_enums r)) | _ \<Rightarrow> True)"

definition signature_sound :: "registry \<Rightarrow> arginfo \<Rightarrow> bool" where
  "signature_sound r ai \<longleftrightarrow>
     well_formed_arginfo ai \<and> list_all (\<lambda>a. arg_type_known r (arg_type a)) (ai_args ai) \<and>
     (case ai_return ai of None \<Rightarrow> True | Some (t, _) \<Rightarrow> arg_type_known r t)"

definition methods_once :: "registry \<Rightarrow> bool" where
  "methods_once r =
     list_all (\<lambda>ms. distinct (map (zend_tolower \<circ> fe_name) ms)) (map ce_methods (reg_classes r) @ map en_methods (reg_enums r))"

definition signatures_sound :: "registry \<Rightarrow> bool" where
  "signatures_sound r = list_all (\<lambda>e. signature_sound r (fe_arginfo e)) (all_entries r)"

definition good_registry :: "string list \<Rightarrow> registry \<Rightarrow> bool" where
  "good_registry names r \<longleftrightarrow>
     names_once r \<and> references_resolved r \<and> methods_once r \<and> provides ([''Sampler'', ''Sample'', ''SampleDelta'', ''ReadResult''] @ names) r"

definition started_registry :: "string list \<Rightarrow> registry \<Rightarrow> bool" where
  "started_registry names r \<longleftrightarrow> good_registry names r \<and> signatures_sound r"

definition initial_registry :: "function_entry list \<Rightarrow> registry" where
  "initial_registry functions = \<lparr>reg_constants = [], reg_functions = functions, reg_classes = [], reg_enums = []\<rparr>"

definition linux_registry :: "bool \<Rightarrow> registry" where
  "linux_registry debug =
     perfidious_pmu_info_minit (perfidious_pmu_event_info_minit (perfidious_handle_minit debug
       (portable_minit debug (initial_registry (perfidious_functions debug)))))"

lemma started_linux: "started_registry [''Handle'', ''PmuInfo'', ''PmuEventInfo''] (linux_registry False)"
  unfolding started_registry_def good_registry_def by (intro conjI; code_simp)

lemma started_linux_debug: "started_registry [''Handle'', ''PmuInfo'', ''PmuEventInfo''] (linux_registry True)"
  unfolding started_registry_def good_registry_def by (intro conjI; code_simp)

lemma good_without_platform: "good_registry [] (portable_minit debug (initial_registry (perfidious_functions debug)))"
  by (cases debug) (simp; unfold good_registry_def; intro conjI; code_simp)+

lemma started_windows:
  "started_registry (map windows_class [''ProcessTimes'', ''ProcessMemoryInfo'', ''ThreadTimes'', ''HardwareCounterSnapshot'',
       ''ThreadProfileSnapshot'', ''ThreadProfile''])
     (register_classes perfidious_windows_minit (portable_minit False (initial_registry perfidious_windows_functions)))"
  unfolding started_registry_def good_registry_def by (intro conjI; code_simp)

lemma started_darwin:
  "started_registry (map darwin_class [''ProcessResourceUsage'', ''ThreadResourceUsage''])
     (register_classes darwin_classes (portable_minit False (initial_registry perfidious_darwin_functions)))"
  unfolding started_registry_def good_registry_def by (intro conjI; code_simp)


text \<open>On Linux this is the module start of the life cycle.\<close>

lemma linux_module_start:
  "(case module_minit debug (linux_platform debug os enable_ini metrics_ini) r b p of (ok, _, _, p') \<Rightarrow> (ok, p')) =
     MINIT_perfidious os enable_ini metrics_ini p"
  by (auto simp: module_minit_def linux_platform_def MINIT_perfidious_def split: prod.split bool.split)

end
