(* ===== verification/Stopwatch.thy ===== *)
theory Stopwatch
  imports Request Demo_Os
begin

text \<open>
  The class \<open>Handle\<close> seen as a stopwatch. The kernel's side of a perf event group is an argument:
  a view of its state as a group of counters that count while the leader is on, with what
  \<open>ioctl(2)\<close> and \<open>read(2)\<close> do to the group, as \<open>perf_event_open(2)\<close> documents it. Under that
  contract every method of an open object does to the group what the stopwatch does and returns
  what the stopwatch returns, so that a whole session of calls does: a read disables the group,
  reads it and enables it again, and none of that can be told from reading a stopwatch that is
  never touched.
\<close>

section \<open>What a group of counters is\<close>

text \<open>The counts are those of the members in the order they were opened, the leader first. The
  measured program adds to them, and to the times, only while the group is on.\<close>

record perf_group =
  g_on :: bool
  g_counts :: "u64 list"
  g_time_enabled :: u64
  g_time_running :: u64

definition group_switch :: "bool \<Rightarrow> perf_group \<Rightarrow> perf_group" where
  "group_switch b g = g\<lparr>g_on := b\<rparr>"

definition group_clear :: "perf_group \<Rightarrow> perf_group" where
  "group_clear g = g\<lparr>g_counts := map (\<lambda>c. 0) (g_counts g)\<rparr>"

definition group_elapse :: "(nat \<Rightarrow> u64) \<Rightarrow> u64 \<Rightarrow> u64 \<Rightarrow> perf_group \<Rightarrow> perf_group" where
  "group_elapse ev te tr g =
     (if g_on g
      then g\<lparr>g_counts := map2 (\<lambda>i c. c + ev i) [0..<length (g_counts g)] (g_counts g),
             g_time_enabled := g_time_enabled g + te, g_time_running := g_time_running g + tr\<rparr>
      else g)"

definition group_report :: "u64 list \<Rightarrow> perf_group \<Rightarrow> perfidious_read_format" where
  "group_report ids g =
     \<lparr>rf_nr = of_nat (length ids), rf_time_enabled = g_time_enabled g,
      rf_time_running = g_time_running g, rf_values = zip (g_counts g) ids\<rparr>"

lemma group_simps [simp]:
  "g_on (group_switch b g) = b" "g_counts (group_switch b g) = g_counts g"
  "g_on (group_clear g) = g_on g" "g_on (group_elapse ev te tr g) = g_on g"
  "length (g_counts (group_clear g)) = length (g_counts g)"
  "length (g_counts (group_elapse ev te tr g)) = length (g_counts g)"
  "group_switch b (group_switch c g) = group_switch b g"
  "group_clear (group_switch b g) = group_switch b (group_clear g)"
  by (simp_all add: group_switch_def group_clear_def group_elapse_def)

lemma group_report_simps [simp]:
  "rf_nr (group_report ids g) = of_nat (length ids)" "rf_time_enabled (group_report ids g) = g_time_enabled g"
  "rf_time_running (group_report ids g) = g_time_running g" "rf_values (group_report ids g) = zip (g_counts g) ids"
  by (simp_all add: group_report_def)

lemma group_switch_same: "b = g_on g \<Longrightarrow> group_switch b g = g"
  by (simp add: group_switch_def)

section \<open>The kernel's side of the contract\<close>

text \<open>The calls on a leader whose group has the given ids succeed: the leader switches the whole
  group, a reset of the group clears the counts and keeps the times, a read of the group's size
  reports the group and changes nothing; allocating the buffer does not touch the group.\<close>

definition perf_group_contract ::
  "'k linux_os \<Rightarrow> int \<Rightarrow> u64 list \<Rightarrow> ('k \<Rightarrow> perf_group) \<Rightarrow> bool" where
  "perf_group_contract os fd ids view \<longleftrightarrow>
     (\<forall>k. length (g_counts (view k)) = length ids) \<and>
     (\<forall>b k. \<exists>e k'. os_ioctl os fd (switch_request b) 0 k = (True, e, k') \<and>
        view k' = group_switch b (view k)) \<and>
     (\<forall>k. \<exists>e k'. os_ioctl os fd PERF_EVENT_IOC_RESET PERF_IOC_FLAG_GROUP k = (True, e, k') \<and>
        view k' = group_clear (view k)) \<and>
     (\<forall>k. \<exists>e k'. os_read os fd (24 + 16 * int (length ids)) k =
          ((24 + 16 * int (length ids), encode_read_format (group_report ids (view k))), e, k') \<and>
        view k' = view k) \<and>
     (\<forall>n k. \<exists>k'. os_malloc os n k = (True, k') \<and> view k' = view k)"

definition metric_ids :: "perfidious_handle \<Rightarrow> u64 list" where
  "metric_ids h = map m_id (metrics h)"

lemma metric_ids_simps [simp]:
  "length (metric_ids h) = length (metrics h)"
  "metric_ids (h\<lparr>enabled := b\<rparr>) = metric_ids h"
  "metric_ids (h\<lparr>time_enabled_at_reset := t\<rparr>) = metric_ids h"
  "metric_ids (h\<lparr>time_running_at_reset := t\<rparr>) = metric_ids h"
  "leader_fd (h\<lparr>enabled := b\<rparr>) = leader_fd h"
  "leader_fd (h\<lparr>time_enabled_at_reset := t\<rparr>) = leader_fd h"
  "leader_fd (h\<lparr>time_running_at_reset := t\<rparr>) = leader_fd h"
  by (simp_all add: metric_ids_def leader_fd_def)

text \<open>The handle agrees with the kernel's group.\<close>

definition tracks ::
  "'k linux_os \<Rightarrow> ('k \<Rightarrow> perf_group) \<Rightarrow> perfidious_handle \<Rightarrow> ('k, 'z) lmachine \<Rightarrow> bool" where
  "tracks os view h m \<longleftrightarrow>
     perf_group_contract os (leader_fd h) (metric_ids h) view \<and> valid_handle h \<and>
     enabled h = g_on (view (kernel m))"

lemma tracks_contract: "tracks os view h m \<Longrightarrow> perf_group_contract os (leader_fd h) (metric_ids h) view"
  by (simp add: tracks_def)

lemma contract_switch:
  assumes "perf_group_contract os fd ids view"
  obtains e k' where "os_ioctl os fd (switch_request b) 0 k = (True, e, k')" "view k' = group_switch b (view k)"
  using assms unfolding perf_group_contract_def by metis

lemma contract_clear:
  assumes "perf_group_contract os fd ids view"
  obtains e k' where "os_ioctl os fd PERF_EVENT_IOC_RESET PERF_IOC_FLAG_GROUP k = (True, e, k')"
    "view k' = group_clear (view k)"
  using assms unfolding perf_group_contract_def by metis

lemma contract_read:
  assumes "perf_group_contract os fd ids view" and "n = 24 + 16 * int (length ids)"
  obtains e k' where "os_read os fd n k = ((n, encode_read_format (group_report ids (view k))), e, k')"
    "view k' = view k"
  using assms unfolding perf_group_contract_def by metis

lemma contract_malloc:
  assumes "perf_group_contract os fd ids view"
  obtains k' where "os_malloc os n k = (True, k')" "view k' = view k"
  using assms unfolding perf_group_contract_def by metis

lemma set_enabled_tracks:
  assumes "perf_group_contract os (leader_fd h) (metric_ids h) view"
  obtains m' where "perfidious_handle_try_set_enabled os h b m = (0, h\<lparr>enabled := b\<rparr>, m')"
    "view (kernel m') = group_switch b (view (kernel m))" "same_php m m'"
proof -
  obtain e k where io: "os_ioctl os (leader_fd h) (switch_request b) 0 (kernel m) = (True, e, k)"
    "view k = group_switch b (view (kernel m))" by (rule contract_switch [OF assms])
  show thesis
    by (rule that [of "called k e (EvIoctl (leader_fd h) (switch_request b) 0 True) m"])
      (simp_all add: perfidious_handle_try_set_enabled_def perfidious_handle_try_ioctl_def sys_ioctl_def
        io [unfolded switch_request_def] switch_request_def io(2) Let_def)
qed

lemma enable_tracks:
  assumes "tracks os view h m"
  obtains m' where "perfidious_handle_enable os h m = (True, h\<lparr>enabled := True\<rparr>, m')"
    "view (kernel m') = group_switch True (view (kernel m))" "same_php m m'"
proof -
  obtain m' where "perfidious_handle_try_set_enabled os h True m = (0, h\<lparr>enabled := True\<rparr>, m')"
    "view (kernel m') = group_switch True (view (kernel m))" "same_php m m'"
    by (rule set_enabled_tracks [OF tracks_contract [OF assms]])
  moreover have "metrics h \<noteq> []" using assms by (simp add: tracks_def valid_handle_def)
  ultimately show thesis
    using that by (simp add: perfidious_handle_enable_def perfidious_handle_report_ioctl_result_def)
qed

lemma disable_tracks:
  assumes "tracks os view h m"
  obtains m' where "perfidious_handle_disable os h m = (True, h\<lparr>enabled := False\<rparr>, m')"
    "view (kernel m') = group_switch False (view (kernel m))" "same_php m m'"
proof -
  obtain m' where "perfidious_handle_try_set_enabled os h False m = (0, h\<lparr>enabled := False\<rparr>, m')"
    "view (kernel m') = group_switch False (view (kernel m))" "same_php m m'"
    by (rule set_enabled_tracks [OF tracks_contract [OF assms]])
  moreover have "metrics h \<noteq> []" using assms by (simp add: tracks_def valid_handle_def)
  ultimately show thesis
    using that by (simp add: perfidious_handle_disable_def perfidious_handle_report_ioctl_result_def)
qed

lemma group_read_tracks:
  assumes "perf_group_contract os (leader_fd h) (metric_ids h) view" and "valid_handle h"
  obtains m' where
    "sys_read os (leader_fd h) (uint (perfidious_handle_read_buffer_size h)) m =
       ((sint (perfidious_handle_read_buffer_size h),
         encode_read_format (group_report (metric_ids h) (view (kernel m)))), m')"
    "view (kernel m') = view (kernel m)" "same_php m m'"
proof -
  define n where "n = 24 + 16 * int (length (metric_ids h))"
  obtain e k where io: "os_read os (leader_fd h) n (kernel m) =
      ((n, encode_read_format (group_report (metric_ids h) (view (kernel m)))), e, k)"
    "view k = view (kernel m)"
    by (rule contract_read [OF assms(1) n_def])
  have n: "uint (perfidious_handle_read_buffer_size h) = n" "sint (perfidious_handle_read_buffer_size h) = n"
    using assms(2) read_buffer_size_exact [of h] by (simp_all add: valid_handle_def n_def)
  show thesis
    by (rule that [of "called k e (EvRead (leader_fd h) n n) m"]) (simp_all add: n sys_read_def io)
qed

lemma decode_group_report:
  assumes "perf_group_contract os fd (metric_ids h) view"
  shows "decode_read_format (length (metrics h)) (encode_read_format (group_report (metric_ids h) (view k)))
    = group_report (metric_ids h) (view k)"
proof -
  have "length (g_counts (view k)) = length (metric_ids h)"
    using assms by (simp add: perf_group_contract_def)
  then show ?thesis
    using decode_encode [of "group_report (metric_ids h) (view k)"] by (simp add: group_report_def)
qed

lemma reset_at_boundary_tracks:
  assumes "perf_group_contract os (leader_fd h) (metric_ids h) view" and "valid_handle h"
  obtains m' where "reset_at_boundary os (perfidious_handle_read_buffer_size h) h m =
      (0, h\<lparr>time_enabled_at_reset := g_time_enabled (view (kernel m)),
            time_running_at_reset := g_time_running (view (kernel m))\<rparr>, m')"
    "view (kernel m') = group_clear (view (kernel m))" "same_php m m'"
proof -
  obtain m1 where r: "sys_read os (leader_fd h) (uint (perfidious_handle_read_buffer_size h)) m =
       ((sint (perfidious_handle_read_buffer_size h),
         encode_read_format (group_report (metric_ids h) (view (kernel m)))), m1)"
    "view (kernel m1) = view (kernel m)" "same_php m m1" by (rule group_read_tracks [OF assms])
  obtain e k where c: "os_ioctl os (leader_fd h) PERF_EVENT_IOC_RESET PERF_IOC_FLAG_GROUP (kernel m1) = (True, e, k)"
    "view k = group_clear (view (kernel m1))" by (rule contract_clear [OF assms(1)])
  have "same_php m (called k e (EvIoctl (leader_fd h) PERF_EVENT_IOC_RESET PERF_IOC_FLAG_GROUP True) m1)"
    using r(3) same_php_called by (rule same_php_trans)
  then show thesis
    by (intro that) (simp_all add: reset_at_boundary_def r perfidious_handle_try_ioctl_def sys_ioctl_def c
        decode_group_report [OF assms(1)] Let_def)
qed

lemma reset_tracks:
  assumes "tracks os view h m"
  obtains m' where "perfidious_handle_reset os h m =
      (True, h\<lparr>time_enabled_at_reset := g_time_enabled (view (kernel m)),
               time_running_at_reset := g_time_running (view (kernel m))\<rparr>, m')"
    "view (kernel m') = group_clear (view (kernel m))" "same_php m m'"
proof -
  let ?n = "perfidious_handle_read_buffer_size h"
  have c: "perf_group_contract os (leader_fd h) (metric_ids h) view" and v: "valid_handle h"
    and en: "enabled h = g_on (view (kernel m))" using assms by (simp_all add: tracks_def)
  obtain k where al: "os_malloc os ?n (kernel m) = (True, k)" "view k = view (kernel m)"
    by (rule contract_malloc [OF c])
  let ?m0 = "m\<lparr>kernel := k\<rparr>"
  have ne: "metrics h \<noteq> []" using v by (simp add: valid_handle_def)
  show thesis
  proof (cases "enabled h")
    case False
    obtain m' where b: "reset_at_boundary os ?n h ?m0 =
      (0, h\<lparr>time_enabled_at_reset := g_time_enabled (view (kernel ?m0)),
            time_running_at_reset := g_time_running (view (kernel ?m0))\<rparr>, m')"
      "view (kernel m') = group_clear (view (kernel ?m0))" "same_php ?m0 m'" by (rule reset_at_boundary_tracks [OF c v])
    have "same_php m m'" using b(3) by (simp add: same_php_def)
    then show thesis
      using False b(1,2) al by (intro that)
        (simp_all add: perfidious_handle_reset_def perfidious_handle_try_reset_def ne sys_malloc_def Let_def)
  next
    case True
    obtain m1 where d: "perfidious_handle_try_set_enabled os h False ?m0 = (0, h\<lparr>enabled := False\<rparr>, m1)"
      "view (kernel m1) = group_switch False (view (kernel ?m0))" "same_php ?m0 m1"
      by (rule set_enabled_tracks [OF c])
    let ?h = "h\<lparr>enabled := False\<rparr>"
    have c1: "perf_group_contract os (leader_fd ?h) (metric_ids ?h) view" "valid_handle ?h"
      using c v by (simp_all add: valid_handle_def)
    obtain m2 where b: "reset_at_boundary os (perfidious_handle_read_buffer_size ?h) ?h m1 =
      (0, ?h\<lparr>time_enabled_at_reset := g_time_enabled (view (kernel m1)),
            time_running_at_reset := g_time_running (view (kernel m1))\<rparr>, m2)"
      "view (kernel m2) = group_clear (view (kernel m1))" "same_php m1 m2" by (rule reset_at_boundary_tracks [OF c1])
    let ?h2 = "?h\<lparr>time_enabled_at_reset := g_time_enabled (view (kernel m1)),
            time_running_at_reset := g_time_running (view (kernel m1))\<rparr>"
    have c2: "perf_group_contract os (leader_fd ?h2) (metric_ids ?h2) view" using c by simp
    obtain m3 where s: "perfidious_handle_try_set_enabled os ?h2 True m2 = (0, ?h2\<lparr>enabled := True\<rparr>, m3)"
      "view (kernel m3) = group_switch True (view (kernel m2))" "same_php m2 m3"
      by (rule set_enabled_tracks [OF c2])
    have v1: "g_time_enabled (view (kernel m1)) = g_time_enabled (view (kernel m))"
      "g_time_running (view (kernel m1)) = g_time_running (view (kernel m))"
      using d(2) al by (simp_all add: group_switch_def)
    have h: "?h2\<lparr>enabled := True\<rparr> = h\<lparr>time_enabled_at_reset := g_time_enabled (view (kernel m)),
               time_running_at_reset := g_time_running (view (kernel m))\<rparr>"
      using True v1 by (cases h) simp
    have "perfidious_handle_reset os h m = (True, ?h2\<lparr>enabled := True\<rparr>, m3)"
      using True al d(1) b(1) s(1)
      by (simp add: perfidious_handle_reset_def perfidious_handle_try_reset_def ne sys_malloc_def Let_def
          perfidious_handle_read_buffer_size_def)
    moreover have "view (kernel m3) = group_clear (view (kernel m))"
      using s(2) b(2) d(2) al True en by (simp add: group_switch_same)
    moreover have "same_php m m3" using d(3) b(3) s(3) by (simp add: same_php_def)
    ultimately show thesis by (intro that [unfolded h [symmetric]])
  qed
qed

section \<open>The stopwatch: what the methods promise\<close>

text \<open>The array of a read: the counts of the members under their keys, the leader left out, or
  nothing when one of them is too large for a PHP integer.\<close>

definition put_values :: "php_key list \<Rightarrow> u64 list \<Rightarrow> (php_key \<times> zval) list \<Rightarrow> (php_key \<times> zval) list" where
  "put_values keys vs arr = fold (\<lambda>(k, v). AList.update k (ZLong (uint v))) (zip keys vs) arr"

definition watch_values :: "php_key list \<Rightarrow> perf_group \<Rightarrow> (php_key \<times> zval) list option" where
  "watch_values keys g =
     (if list_all (\<lambda>v. uint v < 2 ^ 63) (tl (g_counts g)) then Some (put_values keys (tl (g_counts g)) []) else None)"

definition watch_array :: "php_key list \<Rightarrow> perf_group \<Rightarrow> zval option" where
  "watch_array keys g = map_option ZArray (watch_values keys g)"

definition watch_result :: "php_key list \<Rightarrow> perf_group \<Rightarrow> zval option" where
  "watch_result keys g =
     (case watch_values keys g of
        None \<Rightarrow> None
      | Some arr \<Rightarrow>
          if uint (g_time_enabled g) < 2 ^ 63 \<and> uint (g_time_running g) < 2 ^ 63
          then Some (ZObject ''ReadResult''
                 [(''timeEnabled'', ZLong (uint (g_time_enabled g))),
                  (''timeRunning'', ZLong (uint (g_time_running g))), (''values'', ZArray arr)])
          else None)"

lemma read_values_named_group:
  "map m_name ms = map Some names \<Longrightarrow> length cs = length ms \<Longrightarrow>
     (if list_all (\<lambda>v. uint v < 2 ^ 63) cs
      then read_values os (Suc i) (length ms) ms (zip cs (map m_id ms)) arr m =
        Ret (Some (put_values (map (os_symtable_key os) names) cs arr), m)
      else \<exists>m' e. read_values os (Suc i) (length ms) ms (zip cs (map m_id ms)) arr m = Ret (None, m') \<and>
        exceptions m' = e # exceptions m \<and> ex_class e = OverflowException)"
proof (induction ms arbitrary: names cs arr i)
  case Nil
  then show ?case by (simp add: put_values_def)
next
  case (Cons mt ms)
  obtain name names' where n: "names = name # names'" using Cons.prems(1) by (cases names) auto
  obtain c cs' where c: "cs = c # cs'" using Cons.prems(2) by (cases cs) auto
  show ?case
  proof (cases "uint c < 2 ^ 63")
    case True
    have "length cs' = length ms" "map m_name ms = map Some names'" using Cons.prems n c by simp_all
    from Cons.IH [OF this(2,1), of "Suc i" "AList.update (os_symtable_key os name) (ZLong (uint c)) arr"]
    show ?thesis
      using True Cons.prems n c by (auto simp: u64_to_long.fits put_values_def split: if_splits)
  next
    case False
    then show ?thesis
      using Cons.prems n c by (simp add: u64_to_long.too_large not_less)
  qed
qed

text \<open>A read that returns the report of a group of the right size, whatever is behind the descriptor.\<close>

lemma read_reported_group:
  assumes r: "sys_read os (leader_fd h) (uint (perfidious_handle_read_buffer_size h)) m =
      ((sint (perfidious_handle_read_buffer_size h), encode_read_format (group_report (metric_ids h) g)), m1)"
    and len: "length (g_counts g) = length (metrics h)" and v: "valid_handle h" and n: "named_group names h"
  obtains m' where "perfidious_handle_read_to_array_with_times os h m =
      Ret (map_option (\<lambda>arr. (arr, g_time_enabled g, g_time_running g))
        (watch_values (map (os_symtable_key os) names) g), m')"
    "kernel m' = kernel m1" "machine.more m' = machine.more m1"
    "if watch_values (map (os_symtable_key os) names) g = None
     then \<exists>e. exceptions m' = e # exceptions m1 \<and> ex_class e = OverflowException else m' = m1"
proof -
  obtain ld ms where ms: "metrics h = ld # ms" "m_name ld = None" "map m_name ms = map Some names"
    using n by (cases "metrics h") (auto simp: named_group_def)
  obtain c cs where c: "g_counts g = c # cs" "length cs = length ms"
    using len ms(1) by (cases "g_counts g") auto
  have small: "length ms \<le> 1000" using v ms(1) by (simp add: valid_handle_def PERFIDIOUS_MAX_EVENT_NAMES_def)
  then have nr: "unat (word_of_nat (Suc (length ms)) :: u64) = Suc (length ms)"
    by (simp add: unat_of_nat del: of_nat_Suc)
  have ids: "metric_ids h = m_id ld # map m_id ms" using ms(1) by (simp add: metric_ids_def)
  have dec0: "decode_read_format (length (metrics h)) (encode_read_format (group_report (metric_ids h) g))
      = group_report (metric_ids h) g"
    using decode_encode [of "group_report (metric_ids h) g"] len by simp
  have step: "read_values os 0 (unat (rf_nr (group_report (metric_ids h) g))) (metrics h)
      (rf_values (group_report (metric_ids h) g)) [] m1 =
    read_values os (Suc 0) (length ms) ms (zip cs (map m_id ms)) [] m1"
    using nr by (simp only: group_report_simps ids c(1) ms(1) zip_Cons_Cons length_Cons length_map read_values.simps)
      simp
  have dec: "perfidious_handle_read_to_array_with_times os h m =
    (case read_values os (Suc 0) (length ms) ms (zip cs (map m_id ms)) [] m1 of
       Undefined \<Rightarrow> Undefined | Ret (None, m2) \<Rightarrow> Ret (None, m2)
     | Ret (Some arr, m2) \<Rightarrow> Ret (Some (arr, g_time_enabled g, g_time_running g), m2))"
    by (simp only: perfidious_handle_read_to_array_with_times_def perfidious_handle_read_raw_def r
        prod.case option.case simp_thms if_True Let_def dec0 step group_report_simps(2,3))
  note rv = read_values_named_group [OF ms(3) c(2), of os 0 "[]" m1]
  show thesis
  proof (cases "list_all (\<lambda>v. uint v < 2 ^ 63) cs")
    case True
    with rv c show thesis
      by (intro that [of m1]) (simp_all add: dec watch_values_def)
  next
    case False
    with rv obtain m2 e where m2: "read_values os (Suc 0) (length ms) ms (zip cs (map m_id ms)) [] m1 = Ret (None, m2)"
      "exceptions m2 = e # exceptions m1" "ex_class e = OverflowException"
      by auto
    from read_values_frame [OF m2(1)] False c m2 show thesis
      by (intro that [of m2]) (simp_all add: dec watch_values_def)
  qed
qed

lemma read_with_times_tracks:
  assumes "perf_group_contract os (leader_fd h) (metric_ids h) view" "valid_handle h" "named_group names h"
  obtains m' where "perfidious_handle_read_to_array_with_times os h m =
      Ret (map_option (\<lambda>arr. (arr, g_time_enabled (view (kernel m)), g_time_running (view (kernel m))))
        (watch_values (map (os_symtable_key os) names) (view (kernel m))), m')"
    "view (kernel m') = view (kernel m)" "machine.more m' = machine.more m"
proof -
  let ?g = "view (kernel m)"
  obtain m1 where r: "sys_read os (leader_fd h) (uint (perfidious_handle_read_buffer_size h)) m =
       ((sint (perfidious_handle_read_buffer_size h), encode_read_format (group_report (metric_ids h) ?g)), m1)"
    "view (kernel m1) = ?g" "same_php m m1" by (rule group_read_tracks [OF assms(1,2)])
  have "length (g_counts ?g) = length (metrics h)" using assms(1) by (simp add: perf_group_contract_def)
  then obtain m' where "perfidious_handle_read_to_array_with_times os h m =
      Ret (map_option (\<lambda>arr. (arr, g_time_enabled ?g, g_time_running ?g))
        (watch_values (map (os_symtable_key os) names) ?g), m')"
    "kernel m' = kernel m1" "machine.more m' = machine.more m1"
    by (rule read_reported_group [OF r(1) _ assms(2,3)])
  with r(2,3) show thesis by (intro that [of m']) (simp_all add: same_php_def)
qed

lemma read_array_tracks:
  assumes "perf_group_contract os (leader_fd h) (metric_ids h) view" "valid_handle h" "named_group names h"
  obtains m' where "perfidious_handle_read_to_array os h m =
      Ret (watch_array (map (os_symtable_key os) names) (view (kernel m)), m')"
    "view (kernel m') = view (kernel m)" "machine.more m' = machine.more m"
proof -
  obtain m' where "perfidious_handle_read_to_array_with_times os h m =
      Ret (map_option (\<lambda>arr. (arr, g_time_enabled (view (kernel m)), g_time_running (view (kernel m))))
        (watch_values (map (os_symtable_key os) names) (view (kernel m))), m')"
    "view (kernel m') = view (kernel m)" "machine.more m' = machine.more m"
    by (rule read_with_times_tracks [OF assms])
  then show thesis
    by (intro that [of m'])
      (simp_all add: perfidious_handle_read_to_array_def watch_array_def split: option.split)
qed

lemma to_long_snd [simp]:
  "kernel (snd (perfidious_uint64_t_to_zend_long v m)) = kernel m"
  "machine.more (snd (perfidious_uint64_t_to_zend_long v m)) = machine.more m"
  by (simp_all add: perfidious_uint64_t_to_zend_long_def)

lemma read_result_tracks:
  assumes "perf_group_contract os (leader_fd h) (metric_ids h) view" "valid_handle h" "named_group names h"
  obtains m' where "perfidious_handle_read_to_result os h m =
      Ret (watch_result (map (os_symtable_key os) names) (view (kernel m)), m')"
    "view (kernel m') = view (kernel m)" "machine.more m' = machine.more m"
proof -
  let ?g = "view (kernel m)"
  obtain m1 where r: "perfidious_handle_read_to_array_with_times os h m =
      Ret (map_option (\<lambda>arr. (arr, g_time_enabled ?g, g_time_running ?g))
        (watch_values (map (os_symtable_key os) names) ?g), m1)"
    "view (kernel m1) = ?g" "machine.more m1 = machine.more m"
    by (rule read_with_times_tracks [OF assms])
  show thesis
  proof (cases "watch_values (map (os_symtable_key os) names) ?g")
    case None
    then show thesis
      using r by (intro that [of m1]) (simp_all add: perfidious_handle_read_to_result_def watch_result_def)
  next
    case (Some arr)
    have "\<exists>m'. perfidious_handle_read_to_result os h m = Ret (watch_result (map (os_symtable_key os) names) ?g, m') \<and>
        view (kernel m') = view (kernel m1) \<and> machine.more m' = machine.more m1"
      unfolding perfidious_handle_read_to_result_def r(1) watch_result_def Some option.map option.case cval.case prod.case
    proof (cases "uint (g_time_enabled ?g) < 2 ^ 63"; cases "uint (g_time_running ?g) < 2 ^ 63")
    qed (simp_all add: u64_to_long.fits u64_to_long.too_large not_less)
    then show thesis using r(2,3) that by auto
  qed
qed

section \<open>Methods on an open object\<close>

definition watching ::
  "'k linux_os \<Rightarrow> ('k \<Rightarrow> perf_group) \<Rightarrow> nat \<Rightarrow> string list \<Rightarrow> 'k process \<Rightarrow> bool" where
  "watching os view this names p \<longleftrightarrow>
     (\<exists>obj a h. objects p this = Some obj \<and> obj_handle obj = Some a \<and> heap p a = Some h \<and>
        named_group names h \<and> tracks os view h p)"

lemma watchingE:
  assumes "watching os view this names p"
  obtains a h where "heap p a = Some h" "named_group names h" "tracks os view h p"
    "\<And>p'. objects p' this = objects p this \<Longrightarrow> on_open_object this body p' = body a p'"
    "\<And>p' h'. objects p' this = objects p this \<Longrightarrow> heap p' a = Some h' \<Longrightarrow> named_group names h' \<Longrightarrow>
       tracks os view h' p' \<Longrightarrow> watching os view this names p'"
  using assms by (auto simp: watching_def on_open_object_def perfidious_handle_obj_require_open_def)

lemma same_more:
  fixes p p' :: "'k process"
  assumes "machine.more p' = machine.more p"
  shows "objects p' = objects p" "heap p' = heap p"
  using assms by (cases p; cases p'; simp)+

text \<open>The contract of an operation on a handle that is tracked: it succeeds with the given effect
  on the group, and keeps tracking it.\<close>

locale watch_operation =
  fixes os :: "'k linux_os" and view :: "'k \<Rightarrow> perf_group"
    and f :: "perfidious_handle \<Rightarrow> 'k process \<Rightarrow> 'r \<times> perfidious_handle \<times> 'k process"
    and effect :: "perf_group \<Rightarrow> perf_group"
  assumes runs: "tracks os view h p \<Longrightarrow> \<exists>r h' p'. f h p = (r, h', p') \<and> tracks os view h' p' \<and>
      metrics h' = metrics h \<and> view (kernel p') = effect (view (kernel p)) \<and> same_php p p'"
begin

lemma at_handle_tracks:
  assumes "heap p a = Some h" "tracks os view h p"
  obtains r h' p' where "at_handle a f p = Ret (r, p')" "heap p' a = Some h'" "objects p' = objects p"
    "metrics h' = metrics h" "tracks os view h' p'" "view (kernel p') = effect (view (kernel p))"
proof -
  obtain r h' p1 where r: "f h p = (r, h', p1)" "tracks os view h' p1" "metrics h' = metrics h"
    "view (kernel p1) = effect (view (kernel p))" "same_php p p1" using runs [OF assms(2)] by blast
  show thesis
    using r assms(1)
    by (intro that [of r "p1\<lparr>heap := (heap p1)(a \<mapsto> h')\<rparr>" h'])
      (simp_all add: at_handle_def tracks_def same_php_process [OF r(5)])
qed

lemma method_tracks:
  assumes "watching os view this names p"
  obtains p' where "on_open_object this (\<lambda>a p1. cbind (at_handle a f p1) (\<lambda>(r, p2). Ret (z, p2))) p = Ret (z, p')"
    "watching os view this names p'" "view (kernel p') = effect (view (kernel p))"
proof -
  obtain a h where w: "heap p a = Some h" "named_group names h" "tracks os view h p"
    "\<And>p'. objects p' this = objects p this \<Longrightarrow>
       on_open_object this (\<lambda>a p1. cbind (at_handle a f p1) (\<lambda>(r, p2). Ret (z, p2))) p' =
         cbind (at_handle a f p') (\<lambda>(r, p2). Ret (z, p2))"
    "\<And>p' h'. objects p' this = objects p this \<Longrightarrow> heap p' a = Some h' \<Longrightarrow> named_group names h' \<Longrightarrow>
       tracks os view h' p' \<Longrightarrow> watching os view this names p'"
    using watchingE [OF assms, of "\<lambda>a p1. cbind (at_handle a f p1) (\<lambda>(r, p2). Ret (z, p2))"] by metis
  obtain r h' p' where r: "at_handle a f p = Ret (r, p')" "heap p' a = Some h'" "objects p' = objects p"
    "metrics h' = metrics h" "tracks os view h' p'" "view (kernel p') = effect (view (kernel p))"
    by (rule at_handle_tracks [OF w(1,3)])
  have "named_group names h'" using w(2) r(4) by (simp add: named_group_def)
  with r w show thesis by (intro that [of p']) simp_all
qed

end

interpretation watch_enable: watch_operation os view "perfidious_handle_enable os" "group_switch True"
proof
  fix h :: perfidious_handle and p :: "'a process"
  assume t: "tracks os view h p"
  then obtain p' where "perfidious_handle_enable os h p = (True, h\<lparr>enabled := True\<rparr>, p')"
    "view (kernel p') = group_switch True (view (kernel p))" "same_php p p'" by (rule enable_tracks)
  with t show "\<exists>r h' p'. perfidious_handle_enable os h p = (r, h', p') \<and> tracks os view h' p' \<and>
      metrics h' = metrics h \<and> view (kernel p') = group_switch True (view (kernel p)) \<and> same_php p p'"
    by (auto simp: tracks_def valid_handle_def)
qed

interpretation watch_disable: watch_operation os view "perfidious_handle_disable os" "group_switch False"
proof
  fix h :: perfidious_handle and p :: "'a process"
  assume t: "tracks os view h p"
  then obtain p' where "perfidious_handle_disable os h p = (True, h\<lparr>enabled := False\<rparr>, p')"
    "view (kernel p') = group_switch False (view (kernel p))" "same_php p p'" by (rule disable_tracks)
  with t show "\<exists>r h' p'. perfidious_handle_disable os h p = (r, h', p') \<and> tracks os view h' p' \<and>
      metrics h' = metrics h \<and> view (kernel p') = group_switch False (view (kernel p)) \<and> same_php p p'"
    by (auto simp: tracks_def valid_handle_def)
qed

interpretation watch_reset: watch_operation os view "perfidious_handle_reset os" group_clear
proof
  fix h :: perfidious_handle and p :: "'a process"
  assume t: "tracks os view h p"
  then obtain p' where "perfidious_handle_reset os h p =
      (True, h\<lparr>time_enabled_at_reset := g_time_enabled (view (kernel p)),
               time_running_at_reset := g_time_running (view (kernel p))\<rparr>, p')"
    "view (kernel p') = group_clear (view (kernel p))" "same_php p p'" by (rule reset_tracks)
  with t show "\<exists>r h' p'. perfidious_handle_reset os h p = (r, h', p') \<and> tracks os view h' p' \<and>
      metrics h' = metrics h \<and> view (kernel p') = group_clear (view (kernel p)) \<and> same_php p p'"
    by (auto simp: tracks_def valid_handle_def)
qed

text \<open>The contract of a read of a tracked handle: the report of the group as it is, which stays.\<close>

locale watch_reader =
  fixes os :: "'k linux_os" and view :: "'k \<Rightarrow> perf_group"
    and rd :: "perfidious_handle \<Rightarrow> 'k process \<Rightarrow> (zval option \<times> 'k process) cval"
    and report :: "php_key list \<Rightarrow> perf_group \<Rightarrow> zval option"
  assumes reads: "perf_group_contract os (leader_fd h) (metric_ids h) view \<Longrightarrow> valid_handle h \<Longrightarrow>
      named_group names h \<Longrightarrow>
      \<exists>p'. rd h p = Ret (report (map (os_symtable_key os) names) (view (kernel p)), p') \<and>
        view (kernel p') = view (kernel p) \<and> machine.more p' = machine.more p"
    and switch_report: "report keys (group_switch b g) = report keys g"
begin

lemma with_handle_tracks:
  assumes "heap p a = Some h" "tracks os view h p" "named_group names h"
  obtains p' where "with_handle a rd p = Ret (report (map (os_symtable_key os) names) (view (kernel p)), p')"
    "objects p' = objects p" "heap p' a = Some h" "tracks os view h p'" "view (kernel p') = view (kernel p)"
proof -
  have t: "perf_group_contract os (leader_fd h) (metric_ids h) view" "valid_handle h"
    using assms(2) by (simp_all add: tracks_def)
  obtain p' where r: "rd h p = Ret (report (map (os_symtable_key os) names) (view (kernel p)), p')"
    "view (kernel p') = view (kernel p)" "machine.more p' = machine.more p"
    using reads [OF t assms(3)] by blast
  show thesis
    using r assms by (intro that [of p']) (simp_all add: with_handle_def tracks_def same_more [OF r(3)])
qed

lemma boundary_tracks:
  assumes "heap p a = Some h" "tracks os view h p" "named_group names h"
  obtains h' p' where "read_at_boundary os rd a p =
      Ret (case report (map (os_symtable_key os) names) (view (kernel p)) of None \<Rightarrow> ZNull | Some z \<Rightarrow> z, p')"
    "objects p' = objects p" "heap p' a = Some h'" "tracks os view h' p'" "named_group names h'"
    "view (kernel p') = view (kernel p)"
proof (cases "enabled h")
  case False
  obtain p' where "with_handle a rd p = Ret (report (map (os_symtable_key os) names) (view (kernel p)), p')"
    "objects p' = objects p" "heap p' a = Some h" "tracks os view h p'" "view (kernel p') = view (kernel p)"
    by (rule with_handle_tracks [OF assms])
  moreover have "with_handle a (\<lambda>h p. Ret (enabled h, p)) p = Ret (False, p)"
    using assms(1) False by (simp add: with_handle_def)
  ultimately show thesis using assms(3) by (intro that [of p' h]) (simp_all add: read_at_boundary_def)
next
  case True
  obtain r1 h1 p1 where d: "at_handle a (perfidious_handle_disable os) p = Ret (r1, p1)" "heap p1 a = Some h1"
    "objects p1 = objects p" "metrics h1 = metrics h" "tracks os view h1 p1"
    "view (kernel p1) = group_switch False (view (kernel p))"
    by (rule watch_disable.at_handle_tracks [OF assms(1,2)])
  have n1: "named_group names h1" using assms(3) d(4) by (simp add: named_group_def)
  obtain p2 where r: "with_handle a rd p1 = Ret (report (map (os_symtable_key os) names) (view (kernel p1)), p2)"
    "objects p2 = objects p1" "heap p2 a = Some h1" "tracks os view h1 p2" "view (kernel p2) = view (kernel p1)"
    by (rule with_handle_tracks [OF d(2,5) n1])
  obtain r2 h2 p3 where e: "at_handle a (perfidious_handle_enable os) p2 = Ret (r2, p3)" "heap p3 a = Some h2"
    "objects p3 = objects p2" "metrics h2 = metrics h1" "tracks os view h2 p3"
    "view (kernel p3) = group_switch True (view (kernel p2))"
    by (rule watch_enable.at_handle_tracks [OF r(3,4)])
  have "with_handle a (\<lambda>h p. Ret (enabled h, p)) p = Ret (True, p)"
    using assms(1) True by (simp add: with_handle_def)
  moreover have "group_switch True (view (kernel p)) = view (kernel p)"
    using assms(2) True by (intro group_switch_same) (simp add: tracks_def)
  ultimately show thesis
    using d r e n1
    by (intro that [of p3 h2]) (simp_all add: read_at_boundary_def switch_report named_group_def)
qed

lemma method_tracks:
  assumes "watching os view this names p"
  obtains p' where "on_open_object this (read_at_boundary os rd) p =
      Ret (case report (map (os_symtable_key os) names) (view (kernel p)) of None \<Rightarrow> ZNull | Some z \<Rightarrow> z, p')"
    "watching os view this names p'" "view (kernel p') = view (kernel p)"
proof -
  obtain a h where w: "heap p a = Some h" "named_group names h" "tracks os view h p"
    "\<And>p'. objects p' this = objects p this \<Longrightarrow>
       on_open_object this (read_at_boundary os rd) p' = read_at_boundary os rd a p'"
    "\<And>p' h'. objects p' this = objects p this \<Longrightarrow> heap p' a = Some h' \<Longrightarrow> named_group names h' \<Longrightarrow>
       tracks os view h' p' \<Longrightarrow> watching os view this names p'"
    using watchingE [OF assms, of "read_at_boundary os rd"] by metis
  obtain h' p' where "read_at_boundary os rd a p =
      Ret (case report (map (os_symtable_key os) names) (view (kernel p)) of None \<Rightarrow> ZNull | Some z \<Rightarrow> z, p')"
    "objects p' = objects p" "heap p' a = Some h'" "tracks os view h' p'" "named_group names h'"
    "view (kernel p') = view (kernel p)" by (rule boundary_tracks [OF w(1,3,2)])
  with w show thesis by (intro that [of p']) simp_all
qed

end

lemma report_switch:
  "watch_array keys (group_switch b g) = watch_array keys g"
  "watch_result keys (group_switch b g) = watch_result keys g"
  by (simp_all add: watch_array_def watch_result_def watch_values_def group_switch_def)

interpretation watch_array: watch_reader os view "perfidious_handle_read_to_array os" watch_array
  by unfold_locales (simp_all add: report_switch, metis read_array_tracks)

interpretation watch_result: watch_reader os view "perfidious_handle_read_to_result os" watch_result
  by unfold_locales (simp_all add: report_switch, metis read_result_tracks)

section \<open>Sequences of calls\<close>

datatype watch_call =
    WatchEnable
  | WatchDisable
  | WatchReset
  | WatchRead
  | WatchReadArray
  | Elapse "nat \<Rightarrow> u64" u64 u64

text \<open>The stopwatch.\<close>

fun stopwatch :: "php_key list \<Rightarrow> watch_call \<Rightarrow> perf_group \<Rightarrow> zval \<times> perf_group" where
  "stopwatch keys WatchEnable g = (ZThis, group_switch True g)"
| "stopwatch keys WatchDisable g = (ZThis, group_switch False g)"
| "stopwatch keys WatchReset g = (ZThis, group_clear g)"
| "stopwatch keys WatchRead g = (case watch_result keys g of None \<Rightarrow> ZNull | Some z \<Rightarrow> z, g)"
| "stopwatch keys WatchReadArray g = (case watch_array keys g of None \<Rightarrow> ZNull | Some z \<Rightarrow> z, g)"
| "stopwatch keys (Elapse ev te tr) g = (ZNull, group_elapse ev te tr g)"

fun stopwatch_session :: "php_key list \<Rightarrow> watch_call list \<Rightarrow> perf_group \<Rightarrow> zval list \<times> perf_group" where
  "stopwatch_session keys [] g = ([], g)"
| "stopwatch_session keys (c # cs) g =
     (case stopwatch keys c g of (z, g1) \<Rightarrow> case stopwatch_session keys cs g1 of (zs, g2) \<Rightarrow> (z # zs, g2))"

text \<open>The same calls on a \<open>Handle\<close> object. \<open>advance\<close> is what the measured program does to the
  kernel between two calls.\<close>

type_synonym 'k workload = "(nat \<Rightarrow> u64) \<Rightarrow> u64 \<Rightarrow> u64 \<Rightarrow> 'k \<Rightarrow> 'k"

fun handle_call ::
  "'k linux_os \<Rightarrow> 'k workload \<Rightarrow> nat \<Rightarrow> watch_call \<Rightarrow> 'k process \<Rightarrow> (zval \<times> 'k process) cval" where
  "handle_call os advance this WatchEnable p = PerfidiousHandle_enable os this p"
| "handle_call os advance this WatchDisable p = PerfidiousHandle_disable os this p"
| "handle_call os advance this WatchReset p = PerfidiousHandle_reset os this p"
| "handle_call os advance this WatchRead p = PerfidiousHandle_read os this p"
| "handle_call os advance this WatchReadArray p = PerfidiousHandle_readArray os this p"
| "handle_call os advance this (Elapse ev te tr) p = Ret (ZNull, p\<lparr>kernel := advance ev te tr (kernel p)\<rparr>)"

fun handle_session ::
  "'k linux_os \<Rightarrow> 'k workload \<Rightarrow> nat \<Rightarrow> watch_call list \<Rightarrow> 'k process \<Rightarrow> (zval list \<times> 'k process) cval" where
  "handle_session os advance this [] p = Ret ([], p)"
| "handle_session os advance this (c # cs) p =
     cbind (handle_call os advance this c p) (\<lambda>(z, p1).
       cbind (handle_session os advance this cs p1) (\<lambda>(zs, p2). Ret (z # zs, p2)))"

definition counts_while_on :: "('k \<Rightarrow> perf_group) \<Rightarrow> 'k workload \<Rightarrow> bool" where
  "counts_while_on view advance \<longleftrightarrow>
     (\<forall>ev te tr k. view (advance ev te tr k) = group_elapse ev te tr (view k))"

lemma handle_call_tracks:
  assumes "watching os view this names p" and "counts_while_on view advance"
  shows "\<exists>p'. handle_call os advance this c p =
      Ret (fst (stopwatch (map (os_symtable_key os) names) c (view (kernel p))), p') \<and>
    view (kernel p') = snd (stopwatch (map (os_symtable_key os) names) c (view (kernel p))) \<and>
    watching os view this names p'"
proof (cases c)
  case WatchEnable
  obtain p' where "PerfidiousHandle_enable os this p = Ret (ZThis, p')" "watching os view this names p'"
    "view (kernel p') = group_switch True (view (kernel p))"
    unfolding PerfidiousHandle_enable_def by (rule watch_enable.method_tracks [OF assms(1)])
  then show ?thesis by (simp add: WatchEnable)
next
  case WatchDisable
  obtain p' where "PerfidiousHandle_disable os this p = Ret (ZThis, p')" "watching os view this names p'"
    "view (kernel p') = group_switch False (view (kernel p))"
    unfolding PerfidiousHandle_disable_def by (rule watch_disable.method_tracks [OF assms(1)])
  then show ?thesis by (simp add: WatchDisable)
next
  case WatchReset
  obtain p' where "PerfidiousHandle_reset os this p = Ret (ZThis, p')" "watching os view this names p'"
    "view (kernel p') = group_clear (view (kernel p))"
    unfolding PerfidiousHandle_reset_def by (rule watch_reset.method_tracks [OF assms(1)])
  then show ?thesis by (simp add: WatchReset)
next
  case WatchRead
  show ?thesis
    by (rule watch_result.method_tracks [OF assms(1)]) (simp add: WatchRead PerfidiousHandle_read_def)
next
  case WatchReadArray
  show ?thesis
    by (rule watch_array.method_tracks [OF assms(1)]) (simp add: WatchReadArray PerfidiousHandle_readArray_def)
next
  case (Elapse ev te tr)
  with assms show ?thesis
    by (auto simp: watching_def tracks_def counts_while_on_def)
qed

lemma handle_session_tracks:
  "watching os view this names p \<Longrightarrow> counts_while_on view advance \<Longrightarrow>
   \<exists>p'. handle_session os advance this cs p =
      Ret (fst (stopwatch_session (map (os_symtable_key os) names) cs (view (kernel p))), p') \<and>
    view (kernel p') = snd (stopwatch_session (map (os_symtable_key os) names) cs (view (kernel p))) \<and>
    watching os view this names p'"
proof (induction cs arbitrary: p)
  case Nil
  then show ?case by simp
next
  case (Cons c cs)
  from handle_call_tracks [OF Cons.prems, of c] obtain p1 where 1:
    "handle_call os advance this c p = Ret (fst (stopwatch (map (os_symtable_key os) names) c (view (kernel p))), p1)"
    "view (kernel p1) = snd (stopwatch (map (os_symtable_key os) names) c (view (kernel p)))"
    "watching os view this names p1" by blast
  from Cons.IH [OF 1(3) Cons.prems(2)] obtain p2 where
    "handle_session os advance this cs p1 =
      Ret (fst (stopwatch_session (map (os_symtable_key os) names) cs (view (kernel p1))), p2)"
    "view (kernel p2) = snd (stopwatch_session (map (os_symtable_key os) names) cs (view (kernel p1)))"
    "watching os view this names p2" by blast
  with 1 show ?case by (simp add: case_prod_unfold)
qed

section \<open>An opened handle is a stopwatch\<close>

text \<open>The native handle behind an object.\<close>

definition handle_of :: "'k process \<Rightarrow> nat \<Rightarrow> perfidious_handle option" where
  "handle_of p this = Option.bind (Option.bind (objects p this) obj_handle) (heap p)"

lemma opened_is_watching:
  assumes "perfidious_open os ht pid_zl cpu p = Ret (ZHandle this, p1)"
    and "all_strings (map snd ht) = Some names" and "handle_of p1 this = Some h"
    and "perf_group_contract os (leader_fd h) (metric_ids h) view" and "\<not> g_on (view (kernel p1))"
  shows "watching os view this names p1"
proof -
  obtain names' a h' where o: "all_strings (map snd ht) = Some names'"
    "objects p1 this = Some \<lparr>obj_handle = Some a, borrowed = False\<rparr>" "heap p1 a = Some h'"
    "named_group names' h'" "valid_handle h'" "\<not> enabled h'"
    by (rule opened_object [OF assms(1)])
  with assms(2-5) show ?thesis
    by (auto simp: watching_def tracks_def handle_of_def)
qed

text \<open>A kernel that meets the contract: a group of three counters.\<close>

record clock =
  c_next :: nat
  c_on :: bool
  c_counts :: "u64 \<times> u64 \<times> u64"
  c_enabled :: u64
  c_running :: u64

definition clock_view :: "clock \<Rightarrow> perf_group" where
  "clock_view k = (case c_counts k of (a, b, c) \<Rightarrow>
     \<lparr>g_on = c_on k, g_counts = [a, b, c], g_time_enabled = c_enabled k, g_time_running = c_running k\<rparr>)"

fun clock_ioctl :: "ioctl_request \<Rightarrow> clock \<Rightarrow> clock" where
  "clock_ioctl PERF_EVENT_IOC_ENABLE k = k\<lparr>c_on := True\<rparr>"
| "clock_ioctl PERF_EVENT_IOC_DISABLE k = k\<lparr>c_on := False\<rparr>"
| "clock_ioctl PERF_EVENT_IOC_RESET k = k\<lparr>c_counts := (0, 0, 0)\<rparr>"

definition clock_os :: "clock linux_os" where
  "clock_os = \<lparr>
     os_perf_event_open = (\<lambda>attr pid cpu g k. (Some (c_next k), None, k\<lparr>c_next := Suc (c_next k)\<rparr>)),
     os_ioctl = (\<lambda>fd r flags k. (True, None, clock_ioctl r k)),
     os_ioctl_id = (\<lambda>fd k. (Some (word_of_int (10 * fd)), None, k)),
     os_read = (\<lambda>fd n k. ((n, encode_read_format (group_report [30, 40, 50] (clock_view k))), None, k)),
     os_close = (\<lambda>fd k. (True, None, k)),
     os_dupfd_cloexec = (\<lambda>fd k. (None, Some EINVAL, k)),
     os_malloc = (\<lambda>n k. (True, k)),
     os_stream_from_fd = (\<lambda>fd k. (True, k)),
     os_gettid = (\<lambda>k. 77),
     os_getpid = (\<lambda>k. 77),
     os_hrtime = (\<lambda>k. (7, k)),
     os_strerror = (\<lambda>e. ''error ''),
     os_pfm_encoding = (\<lambda>s. (PFM_SUCCESS, demo_attr)),
     os_pfm_strerror = (\<lambda>e. ''not found''),
     os_symtable_key = KStr,
     os_pfm_initialize = PFM_SUCCESS,
     os_cap_get_proc = (\<lambda>k. (True, None, k)),
     os_cap_get_flag = (\<lambda>k. (Some False, None, k)),
     os_cap_free = (\<lambda>k. (True, None, k))\<rparr>"

definition clock_advance :: "clock workload" where
  "clock_advance ev te tr k =
     (if c_on k
      then k\<lparr>c_counts := (case c_counts k of (a, b, c) \<Rightarrow> (a + ev 0, b + ev 1, c + ev 2)),
               c_enabled := c_enabled k + te, c_running := c_running k + tr\<rparr>
      else k)"

definition clock_kernel :: clock where
  "clock_kernel = \<lparr>c_next = 3, c_on = False, c_counts = (0, 0, 0), c_enabled = 0, c_running = 0\<rparr>"

lemma clock_contract: "perf_group_contract clock_os fd [30, 40, 50] clock_view"
proof -
  have "clock_view (clock_ioctl (switch_request b) k) = group_switch b (clock_view k)" for b k
    by (cases b) (simp_all add: clock_view_def switch_request_def group_switch_def split: prod.split)
  moreover have "clock_view (clock_ioctl PERF_EVENT_IOC_RESET k) = group_clear (clock_view k)" for k
    by (simp add: clock_view_def group_clear_def split: prod.split)
  ultimately show ?thesis
    by (simp add: perf_group_contract_def clock_os_def) (simp add: clock_view_def split: prod.split)
qed

lemma clock_counts: "counts_while_on clock_view clock_advance"
  by (simp add: counts_while_on_def clock_view_def clock_advance_def group_elapse_def numeral_2_eq_2 split: prod.split)

definition clock_process :: "clock process" where
  "clock_process = \<lparr>kernel = clock_kernel, errno = 0, trace = [], exceptions = [], warnings = [],
     error_mode = PERFIDIOUS_ERROR_MODE_THROW, heap = Map.empty, next_addr = 0, objects = Map.empty,
     next_object = 0, streams = {#}, request_enable = False, request_metrics = None,
     request_handle = None, request_handle_pid = 0, request_handle_ready = False,
     request_handle_error = no_error\<rparr>"

text \<open>The process after \<open>open(['a', 'b'])\<close>.\<close>

definition clock_opened :: "clock process" where
  "clock_opened =
     (case perfidious_open clock_os [(KInt 0, ZString ''a''), (KInt 1, ZString ''b'')] 0 (-1) clock_process of
        Ret (z, p) \<Rightarrow> p | Undefined \<Rightarrow> clock_process)"

lemma clock_open:
  "perfidious_open clock_os [(KInt 0, ZString ''a''), (KInt 1, ZString ''b'')] 0 (-1) clock_process
     = Ret (ZHandle 0, clock_opened)"
proof -
  have "case perfidious_open clock_os [(KInt 0, ZString ''a''), (KInt 1, ZString ''b'')] 0 (-1) clock_process of
     Ret (z, p) \<Rightarrow> z = ZHandle 0 | Undefined \<Rightarrow> False" by code_simp
  then show ?thesis by (simp add: clock_opened_def split: cval.splits prod.splits)
qed

lemma clock_opened:
  "handle_of clock_opened 0 = Some demo_handle"
  "g_on (clock_view (kernel clock_opened)) = False"
  "kernel clock_opened = clock_kernel\<lparr>c_next := 6\<rparr>"
  by code_simp+



end
