(* ===== verification/No_Capabilities.thy ===== *)
theory No_Capabilities
  imports Lifecycle
begin

text \<open>
  What of the release build depends on the capabilities of the process: only the check in \<open>open\<close>. Every
  other operation of the extension is the same function on a system that reports no capabilities.
\<close>

section \<open>A system without capabilities\<close>

text \<open>Nothing of the extension but the check in \<open>open\<close> asks for capabilities, and the check passes when
  \<open>cap_get_proc\<close> has none to report.\<close>

named_theorems same_os

definition without_capabilities :: "'k linux_os \<Rightarrow> 'k linux_os" where
  "without_capabilities os = os\<lparr>os_cap_get_proc := \<lambda>k. (False, None, k)\<rparr>"

lemma without_capabilities_os [same_os]:
  "os_perf_event_open (without_capabilities os) = os_perf_event_open os"
  "os_ioctl (without_capabilities os) = os_ioctl os"
  "os_ioctl_id (without_capabilities os) = os_ioctl_id os"
  "os_read (without_capabilities os) = os_read os"
  "os_close (without_capabilities os) = os_close os"
  "os_dupfd_cloexec (without_capabilities os) = os_dupfd_cloexec os"
  "os_malloc (without_capabilities os) = os_malloc os"
  "os_stream_from_fd (without_capabilities os) = os_stream_from_fd os"
  "os_gettid (without_capabilities os) = os_gettid os"
  "os_getpid (without_capabilities os) = os_getpid os"
  "os_hrtime (without_capabilities os) = os_hrtime os"
  "os_strerror (without_capabilities os) = os_strerror os"
  "os_pfm_encoding (without_capabilities os) = os_pfm_encoding os"
  "os_pfm_strerror (without_capabilities os) = os_pfm_strerror os"
  "os_symtable_key (without_capabilities os) = os_symtable_key os"
  by (simp_all add: without_capabilities_def)

lemma check_passes: "check_perfmon (without_capabilities os) p = (True, p)"
  by (cases p) (simp add: check_perfmon_def lib_call_def without_capabilities_def)

lemma same_reading [same_os]:
  "read_values (without_capabilities os) i n ms vs arr m = read_values os i n ms vs arr m"
  by (induction os i n ms vs arr m rule: read_values.induct) (auto simp: same_os split: option.splits prod.splits)

lemma same_system_calls [same_os]:
  "sys_perf_event_open (without_capabilities os) = sys_perf_event_open os"
  "sys_ioctl (without_capabilities os) = sys_ioctl os"
  "sys_ioctl_id (without_capabilities os) = sys_ioctl_id os"
  "sys_read (without_capabilities os) = sys_read os"
  "sys_close (without_capabilities os) = sys_close os"
  "sys_dupfd_cloexec (without_capabilities os) = sys_dupfd_cloexec os"
  "sys_malloc (without_capabilities os) = sys_malloc os"
  unfolding sys_perf_event_open_def sys_ioctl_def sys_ioctl_id_def sys_read_def sys_close_def
    sys_dupfd_cloexec_def sys_malloc_def same_os by (rule refl)+

lemma same_close_metrics [same_os]: "close_metrics (without_capabilities os) ms e m = close_metrics os ms e m"
  by (induction os ms e m rule: close_metrics.induct) (simp_all add: same_os split: prod.split)

lemma same_open_events [same_os]:
  "open_events (without_capabilities os) names pid cpu fd h m = open_events os names pid cpu fd h m"
  by (induction os names pid cpu fd h m rule: open_events.induct)
    (simp_all add: same_os ioctl_open_error_def split: prod.split option.split)

lemmas handle_operation_defs =
  perfidious_handle_ioctl_error_def perfidious_handle_try_ioctl_def perfidious_handle_report_ioctl_result_def
  perfidious_handle_try_set_enabled_def perfidious_handle_enable_def perfidious_handle_disable_def
  reset_at_boundary_def perfidious_handle_try_reset_def perfidious_handle_reset_def perfidious_handle_try_close_def
  perfidious_handle_close_def ioctl_open_error_def perfidious_handle_try_open_ex_def perfidious_handle_open_ex_def
  perfidious_handle_read_raw_def perfidious_handle_read_to_array_with_times_def perfidious_handle_read_to_array_def
  perfidious_handle_read_to_result_def

lemma same_handle_operations [same_os]:
  "perfidious_handle_try_set_enabled (without_capabilities os) = perfidious_handle_try_set_enabled os"
  "perfidious_handle_enable (without_capabilities os) = perfidious_handle_enable os"
  "perfidious_handle_disable (without_capabilities os) = perfidious_handle_disable os"
  "perfidious_handle_try_reset (without_capabilities os) = perfidious_handle_try_reset os"
  "perfidious_handle_reset (without_capabilities os) = perfidious_handle_reset os"
  "perfidious_handle_try_close (without_capabilities os) = perfidious_handle_try_close os"
  "perfidious_handle_close (without_capabilities os) = perfidious_handle_close os"
  "perfidious_handle_try_open_ex (without_capabilities os) = perfidious_handle_try_open_ex os"
  "perfidious_handle_open_ex (without_capabilities os) = perfidious_handle_open_ex os"
  "perfidious_handle_read_to_array_with_times (without_capabilities os) = perfidious_handle_read_to_array_with_times os"
  "perfidious_handle_read_to_array (without_capabilities os) = perfidious_handle_read_to_array os"
  "perfidious_handle_read_to_result (without_capabilities os) = perfidious_handle_read_to_result os"
  by (intro ext; unfold handle_operation_defs same_os; rule refl)+

lemmas object_operation_defs =
  perfidious_handle_obj_free_def PerfidiousHandle_close_def PerfidiousHandle_disable_def PerfidiousHandle_enable_def
  dup_to_stream_def PerfidiousHandle_rawStream_def read_at_boundary_def PerfidiousHandle_read_def
  PerfidiousHandle_readArray_def PerfidiousHandle_reset_def release_handle_def

lemma same_object_operations [same_os]:
  "perfidious_handle_obj_free (without_capabilities os) = perfidious_handle_obj_free os"
  "PerfidiousHandle_close (without_capabilities os) = PerfidiousHandle_close os"
  "PerfidiousHandle_disable (without_capabilities os) = PerfidiousHandle_disable os"
  "PerfidiousHandle_enable (without_capabilities os) = PerfidiousHandle_enable os"
  "PerfidiousHandle_rawStream (without_capabilities os) = PerfidiousHandle_rawStream os"
  "PerfidiousHandle_read (without_capabilities os) = PerfidiousHandle_read os"
  "PerfidiousHandle_readArray (without_capabilities os) = PerfidiousHandle_readArray os"
  "PerfidiousHandle_reset (without_capabilities os) = PerfidiousHandle_reset os"
  "free_stream (without_capabilities os) = free_stream os"
  by (intro ext; unfold object_operation_defs free_stream_def same_os; rule refl)+

lemmas hook_defs =
  RINIT_perfidious_def RINIT_perfidious_platform_def rinit_fork_check_def rinit_open_def rinit_start_def
  split_and_open_def drop_request_handle_def perfidious_request_handle_record_error_def
  RSHUTDOWN_perfidious_def RSHUTDOWN_perfidious_platform_def GSHUTDOWN_perfidious_def
  perfidious_platform_globals_shutdown_def MINFO_perfidious_def MINFO_perfidious_platform_def minfo_handle_metrics_def

lemma same_hooks [same_os]:
  "RINIT_perfidious (without_capabilities os) = RINIT_perfidious os"
  "RSHUTDOWN_perfidious (without_capabilities os) = RSHUTDOWN_perfidious os"
  "GSHUTDOWN_perfidious (without_capabilities os) = GSHUTDOWN_perfidious os"
  "MINFO_perfidious (without_capabilities os) = MINFO_perfidious os"
  by (intro ext; unfold hook_defs same_os; rule refl)+

lemma same_group_read [same_os]: "group_read_contract (without_capabilities os) = group_read_contract os"
  unfolding group_read_contract_def same_os by (rule refl)

lemma same_open_into_object [same_os]:
  "open_into_object (without_capabilities os) = open_into_object os"
  by (intro ext; unfold open_into_object_def same_os; rule refl)+

text \<open>The calls of a script, \<open>open\<close> apart.\<close>

lemma same_run_call:
  "(\<And>ht pid cpu. c \<noteq> CallOpen ht pid cpu) \<Longrightarrow> run_call (without_capabilities os) c p = run_call os c p"
  by (cases c) (auto simp: same_os)

lemmas without_capabilities_steps = step.intros [where os = "without_capabilities os" for os, unfolded same_os]

end
