(* ===== verification/Debug.thy ===== *)
theory Debug
  imports No_Capabilities Pmu Stopwatch
begin

text \<open>
  The build with \<open>PERFIDIOUS_DEBUG\<close>: the methods and functions the tests use to inject failures
  (\<open>src/handle.c\<close>, \<open>src/functions.c\<close>, \<open>src/pmu_event_info.c\<close>), the two module globals they need
  (\<open>php_perfidious.h\<close>), the two places of the release code that look at them, and \<open>open\<close>, which leaves
  out its check of the capabilities. A state of this build is a process of the release build with the two globals.
\<close>

section \<open>The C library\<close>

text \<open>A \<open>FILE *\<close> is its descriptor, which \<open>fileno\<close> returns. \<open>fwrite\<close> gets the words of the buffer and
  tells whether all of them were taken; \<open>fseek\<close> is only called to rewind.\<close>

record 'k debug_libc =
  libc_tmpfile :: "'k \<Rightarrow> nat option \<times> int option \<times> 'k"
  libc_fwrite :: "int \<Rightarrow> u64 list \<Rightarrow> 'k \<Rightarrow> bool \<times> int option \<times> 'k"
  libc_rewind :: "int \<Rightarrow> 'k \<Rightarrow> bool \<times> int option \<times> 'k"
  libc_fclose :: "int \<Rightarrow> 'k \<Rightarrow> bool \<times> int option \<times> 'k"
  libc_dup :: "int \<Rightarrow> 'k \<Rightarrow> nat option \<times> int option \<times> 'k"

definition sys_tmpfile :: "'k debug_libc \<Rightarrow> ('k, 'z) lmachine \<Rightarrow> int option \<times> ('k, 'z) lmachine" where
  "sys_tmpfile libc m =
     (case libc_tmpfile libc (kernel m) of (r, e, k) \<Rightarrow> (map_option int r, called k e (EvTmpfile r) m))"

definition sys_fclose :: "'k debug_libc \<Rightarrow> int \<Rightarrow> ('k, 'z) lmachine \<Rightarrow> bool \<times> ('k, 'z) lmachine" where
  "sys_fclose libc fd m =
     (case libc_fclose libc fd (kernel m) of (ok, e, k) \<Rightarrow> (ok, called k e (EvClose fd ok) m))"

definition sys_dup :: "'k debug_libc \<Rightarrow> int \<Rightarrow> ('k, 'z) lmachine \<Rightarrow> int \<times> ('k, 'z) lmachine" where
  "sys_dup libc fd m =
     (case libc_dup libc fd (kernel m) of (r, e, k) \<Rightarrow> (fd_of r, called k e (EvDup fd r) m))"

section \<open>Methods (handle.c)\<close>

definition corrupt_metric_ids :: "perfidious_handle \<Rightarrow> perfidious_handle" where
  "corrupt_metric_ids h = h\<lparr>metrics := map (\<lambda>mt. mt\<lparr>m_id := UINT64_MAX\<rparr>) (metrics h)\<rparr>"

definition PerfidiousHandle_debugCorruptMetricIds :: "nat \<Rightarrow> 'k process \<Rightarrow> (zval \<times> 'k process) cval" where
  "PerfidiousHandle_debugCorruptMetricIds this p =
     on_open_object this
       (\<lambda>a p1. cbind (at_handle a (\<lambda>h p. ((), corrupt_metric_ids h, p)) p1) (\<lambda>(r, p2). Ret (ZNull, p2))) p"

text \<open>The index is converted to \<open>size_t\<close> before it is compared, so a negative one is too large.\<close>

definition PerfidiousHandle_debugCloseFd ::
  "'k linux_os \<Rightarrow> nat \<Rightarrow> zend_long \<Rightarrow> 'k process \<Rightarrow> (zval \<times> 'k process) cval" where
  "PerfidiousHandle_debugCloseFd os this idx p =
     on_open_object this
       (\<lambda>a p1. with_handle a (\<lambda>h p2.
          if length (metrics h) \<le> unat (to_u64 idx) then Ret (ZNull, p2)
          else Ret (ZNull, snd (sys_close os (m_fd (metrics h ! unat (to_u64 idx))) p2))) p1) p"

text \<open>What an injected read reports: the same value for every metric, under its id.\<close>

definition synthetic_data :: "perfidious_handle \<Rightarrow> u64 \<Rightarrow> u64 \<Rightarrow> u64 \<Rightarrow> perfidious_read_format" where
  "synthetic_data h v te tr =
     \<lparr>rf_nr = of_nat (length (metrics h)), rf_time_enabled = te, rf_time_running = tr,
      rf_values = map (\<lambda>mt. (v, m_id mt)) (metrics h)\<rparr>"

fun replace_leader_fd :: "int \<Rightarrow> perfidious_metric list \<Rightarrow> perfidious_metric list" where
  "replace_leader_fd fd [] = []"
| "replace_leader_fd fd (mt # ms) = mt\<lparr>m_fd := fd\<rparr> # ms"

definition perfidious_handle_debug_inject_read ::
  "'k linux_os \<Rightarrow> 'k debug_libc \<Rightarrow> u64 \<Rightarrow> u64 \<Rightarrow> u64 \<Rightarrow> perfidious_handle \<Rightarrow> ('k, 'z) lmachine
    \<Rightarrow> unit \<times> perfidious_handle \<times> ('k, 'z) lmachine" where
  "perfidious_handle_debug_inject_read os libc v te tr h m =
     (let data = encode_read_format (synthetic_data h v te tr)
      in case sys_tmpfile libc m of
        (None, m1) \<Rightarrow>
          ((), h, perfidious_error_helper IOException (errno m1)
                    (''tmpfile failed: '' @ os_strerror os (errno m1)) m1)
      | (Some s, m1) \<Rightarrow>
          (case lib_call (libc_fwrite libc s data) m1 of (written, m2) \<Rightarrow>
           case (if written then lib_call (libc_rewind libc s) m2 else (False, m2)) of (prepared, m3) \<Rightarrow>
             if \<not> prepared
             then (let error_number = errno_or_eio m3
                   in ((), h, perfidious_error_helper IOException error_number
                                (''failed to prepare synthetic read: '' @ os_strerror os error_number)
                                (snd (sys_fclose libc s m3))))
             else case sys_dup libc s m3 of (synthetic_fd, m4) \<Rightarrow>
               (let error_number = errno m4; m5 = snd (sys_fclose libc s m4)
                in if synthetic_fd = -1
                   then ((), h, perfidious_error_helper IOException error_number
                                  (''dup failed: '' @ os_strerror os error_number) m5)
                   else ((), h\<lparr>metrics := replace_leader_fd synthetic_fd (metrics h), enabled := False\<rparr>,
                         snd (sys_close os (leader_fd h) m5)))))"

definition PerfidiousHandle_debugInjectOverflowRead ::
  "'k linux_os \<Rightarrow> 'k debug_libc \<Rightarrow> nat \<Rightarrow> 'k process \<Rightarrow> (zval \<times> 'k process) cval" where
  "PerfidiousHandle_debugInjectOverflowRead os libc this p =
     on_open_object this
       (\<lambda>a p1. cbind (at_handle a (perfidious_handle_debug_inject_read os libc UINT64_MAX UINT64_MAX UINT64_MAX) p1)
                 (\<lambda>(r, p2). Ret (ZNull, p2))) p"

definition PerfidiousHandle_debugInjectScalingRead ::
  "'k linux_os \<Rightarrow> 'k debug_libc \<Rightarrow> nat \<Rightarrow> 'k process \<Rightarrow> (zval \<times> 'k process) cval" where
  "PerfidiousHandle_debugInjectScalingRead os libc this p =
     on_open_object this
       (\<lambda>a p1. cbind (at_handle a (perfidious_handle_debug_inject_read os libc (to_u64 ZEND_LONG_MAX) 3 3) p1)
                 (\<lambda>(r, p2). Ret (ZNull, p2))) p"

section \<open>The globals and the functions (functions.c)\<close>

record 'k debug_build =
  release :: "'k process"
  debug_open_ex_call_count :: u32
  debug_fail_next_request_handle_shutdown :: bool

definition perfidious_debug_uint64_overflow :: "'k process \<Rightarrow> zval \<times> 'k process" where
  "perfidious_debug_uint64_overflow p =
     (case perfidious_uint64_t_to_zend_long UINT64_MAX p of
        (None, p1) \<Rightarrow> (ZNull, p1)
      | (Some output, p1) \<Rightarrow> (ZLong output, p1))"

text \<open>The structures are zeroed but for the names and descriptions; the names are read as C strings.\<close>

definition perfidious_debug_pmu_event_info_ctor :: "string \<Rightarrow> string \<Rightarrow> zval" where
  "perfidious_debug_pmu_event_info_ctor pmu_name event_name =
     perfidious_pmu_event_info_ctor
       \<lparr>pi_name = c_str pmu_name, pi_desc = [], pi_pmu = 0, pi_type = 0, pi_nevents = 0,
        pi_first_event = 0, pi_is_present = False\<rparr>
       \<lparr>ei_name = c_str event_name, ei_desc = [], ei_equiv = None, ei_pmu = 0, ei_idx = 0\<rparr>"

definition perfidious_debug_pmu_event_info_from_names :: "string \<Rightarrow> string \<Rightarrow> zval" where
  "perfidious_debug_pmu_event_info_from_names pmu_name event_name =
     perfidious_debug_pmu_event_info_ctor pmu_name event_name"

definition perfidious_debug_get_open_ex_call_count :: "'k debug_build \<Rightarrow> zval" where
  "perfidious_debug_get_open_ex_call_count s = ZLong (uint (debug_open_ex_call_count s))"

definition perfidious_debug_fail_next_request_handle_shutdown :: "'k debug_build \<Rightarrow> 'k debug_build" where
  "perfidious_debug_fail_next_request_handle_shutdown s =
     s\<lparr>debug_fail_next_request_handle_shutdown := True\<rparr>"

section \<open>The release code of this build\<close>

text \<open>The first statement of \<open>perfidious_handle_try_open_ex\<close>; the counter wraps around.\<close>

definition count_open_ex :: "'k debug_build \<Rightarrow> 'k debug_build" where
  "count_open_ex s = s\<lparr>debug_open_ex_call_count := debug_open_ex_call_count s + 1\<rparr>"

text \<open>In this build \<open>open\<close> does not look at the capabilities of the process.\<close>

definition debug_open_arguments ::
  "(php_key \<times> zval) list \<Rightarrow> zend_long \<Rightarrow> zend_long \<Rightarrow> 'k process
    \<Rightarrow> (string list \<times> int \<times> int) option \<times> 'k process" where
  "debug_open_arguments event_names_ht pid_zl cpu p =
     (case perfidious_zend_long_to_pid_t pid_zl p of
        (None, p1) \<Rightarrow> (None, p1)
      | (Some pid, p1) \<Rightarrow> checked_cpu_and_names event_names_ht pid cpu p1)"

definition debug_open ::
  "'k linux_os \<Rightarrow> (php_key \<times> zval) list \<Rightarrow> zend_long \<Rightarrow> zend_long \<Rightarrow> 'k debug_build
    \<Rightarrow> (zval \<times> 'k debug_build) cval" where
  "debug_open os event_names_ht pid_zl cpu s =
     (case debug_open_arguments event_names_ht pid_zl cpu (release s) of
        (None, p1) \<Rightarrow> Ret (ZNull, s\<lparr>release := p1\<rparr>)
      | (Some (names, pid, cpu), p1) \<Rightarrow>
          cbind (open_into_object os names pid cpu p1) (\<lambda>(z, p2).
            Ret (z, (count_open_ex s)\<lparr>release := p2\<rparr>)))"

text \<open>Whether the start of a request gets as far as opening a group.\<close>

definition opens_request_handle :: "'k process \<Rightarrow> bool" where
  "opens_request_handle p =
     (case (request_handle p, request_metrics p) of
        (None, Some names) \<Rightarrow>
          length (php_explode CHR '','' names (PERFIDIOUS_MAX_EVENT_NAMES + 1)) \<le> PERFIDIOUS_MAX_EVENT_NAMES
      | _ \<Rightarrow> False)"

definition debug_rinit_open :: "'k linux_os \<Rightarrow> 'k debug_build \<Rightarrow> 'k debug_build" where
  "debug_rinit_open os s =
     (let s1 = (if opens_request_handle (release s) then count_open_ex s else s)
      in s1\<lparr>release := rinit_open os (release s)\<rparr>)"

definition debug_RINIT :: "'k linux_os \<Rightarrow> 'k debug_build \<Rightarrow> 'k debug_build cval" where
  "debug_RINIT os s =
     cbind (rinit_fork_check os ((release s)\<lparr>request_handle_ready := False\<rparr>)) (\<lambda>p1.
       if \<not> request_enable p1 then Ret (s\<lparr>release := p1\<rparr>)
       else (let s2 = debug_rinit_open os (s\<lparr>release := p1\<rparr>)
             in cbind (rinit_start os (release s2)) (\<lambda>p3. Ret (s2\<lparr>release := p3\<rparr>))))"

definition perfidious_request_handle_try_shutdown_reset ::
  "'k linux_os \<Rightarrow> nat \<Rightarrow> 'k debug_build \<Rightarrow> (int \<times> 'k debug_build) cval" where
  "perfidious_request_handle_try_shutdown_reset os a s =
     (if debug_fail_next_request_handle_shutdown s
      then Ret (EIO, s\<lparr>debug_fail_next_request_handle_shutdown := False\<rparr>)
      else cbind (at_handle a (perfidious_handle_try_reset os) (release s))
             (\<lambda>(e, p1). Ret (e, s\<lparr>release := p1\<rparr>)))"

definition debug_RSHUTDOWN :: "'k linux_os \<Rightarrow> 'k debug_build \<Rightarrow> 'k debug_build cval" where
  "debug_RSHUTDOWN os s =
     cbind (case request_handle (release s) of
              None \<Rightarrow> Ret s
            | Some a \<Rightarrow>
                cbind (at_handle a (\<lambda>h. perfidious_handle_try_set_enabled os h False) (release s)) (\<lambda>(e1, p1).
                cbind (perfidious_request_handle_try_shutdown_reset os a
                         (s\<lparr>release := perfidious_request_handle_record_error os ''disable'' e1 p1\<rparr>)) (\<lambda>(e2, s2).
                Ret (s2\<lparr>release := perfidious_request_handle_record_error os ''reset'' e2 (release s2)\<rparr>))))
       (\<lambda>s3. Ret (s3\<lparr>release := (release s3)\<lparr>request_handle_ready := False\<rparr>\<rparr>))"

section \<open>The calls of a script in this build\<close>

datatype debug_call =
    ReleaseCall php_call
  | DebugCorruptMetricIds nat
  | DebugCloseFd nat zend_long
  | DebugInjectOverflowRead nat
  | DebugInjectScalingRead nat
  | DebugUint64Overflow
  | DebugPmuEventInfoFromNames string string
  | DebugGetOpenExCallCount
  | DebugFailNextRequestHandleShutdown

text \<open>A call that only sees the release state.\<close>

definition on_release ::
  "'k debug_build \<Rightarrow> ('r \<times> 'k process) cval \<Rightarrow> ('r \<times> 'k debug_build) cval" where
  "on_release s x = cbind x (\<lambda>(r, p). Ret (r, s\<lparr>release := p\<rparr>))"

fun run_debug_call ::
  "'k linux_os \<Rightarrow> 'k debug_libc \<Rightarrow> debug_call \<Rightarrow> 'k debug_build \<Rightarrow> (zval \<times> 'k debug_build) cval" where
  "run_debug_call os libc (ReleaseCall c) s =
     (case c of
        CallOpen ht pid cpu \<Rightarrow> debug_open os ht pid cpu s
      | _ \<Rightarrow> on_release s (run_call os c (release s)))"
| "run_debug_call os libc (DebugCorruptMetricIds i) s =
     on_release s (PerfidiousHandle_debugCorruptMetricIds i (release s))"
| "run_debug_call os libc (DebugCloseFd i idx) s =
     on_release s (PerfidiousHandle_debugCloseFd os i idx (release s))"
| "run_debug_call os libc (DebugInjectOverflowRead i) s =
     on_release s (PerfidiousHandle_debugInjectOverflowRead os libc i (release s))"
| "run_debug_call os libc (DebugInjectScalingRead i) s =
     on_release s (PerfidiousHandle_debugInjectScalingRead os libc i (release s))"
| "run_debug_call os libc DebugUint64Overflow s =
     on_release s (Ret (perfidious_debug_uint64_overflow (release s)))"
| "run_debug_call os libc (DebugPmuEventInfoFromNames pmu ev) s =
     Ret (perfidious_debug_pmu_event_info_from_names pmu ev, s)"
| "run_debug_call os libc DebugGetOpenExCallCount s =
     Ret (perfidious_debug_get_open_ex_call_count s, s)"
| "run_debug_call os libc DebugFailNextRequestHandleShutdown s =
     Ret (ZNull, perfidious_debug_fail_next_request_handle_shutdown s)"

section \<open>An injection trades descriptors, and loses none\<close>

definition trades_descriptors ::
  "perfidious_handle \<Rightarrow> ('k, 'z) lmachine \<Rightarrow> perfidious_handle \<Rightarrow> ('k, 'z) lmachine \<Rightarrow> bool" where
  "trades_descriptors h m h' m' \<longleftrightarrow>
     machine.more m' = machine.more m \<and> error_mode m' = error_mode m \<and> valid_handle h' \<and>
     live (trace m') + mset (handle_fds h) = live (trace m) + mset (handle_fds h') \<and>
     (closes_live (trace m) \<longrightarrow> closes_live (trace m'))"

lemma sys_tmpfile_trace:
  "sys_tmpfile libc m = (r, m') \<Longrightarrow>
     \<exists>x. r = map_option int x \<and> trace m' = EvTmpfile x # trace m \<and> same_php m m'"
  by (auto simp: sys_tmpfile_def split: prod.splits)

lemma sys_fclose_trace:
  "sys_fclose libc fd m = (r, m') \<Longrightarrow> trace m' = EvClose fd r # trace m \<and> same_php m m'"
  by (auto simp: sys_fclose_def split: prod.splits)

lemma sys_dup_trace:
  "sys_dup libc fd m = (r, m') \<Longrightarrow> \<exists>x. r = fd_of x \<and> trace m' = EvDup fd x # trace m \<and> same_php m m'"
  by (auto simp: sys_dup_def split: prod.splits)

lemma trades_refl [simp]: "valid_handle h \<Longrightarrow> trades_descriptors h m h m"
  by (simp add: trades_descriptors_def)

lemma trades_helper [simp]:
  "trades_descriptors h m h' (perfidious_error_helper c e s m') = trades_descriptors h m h' m'"
  by (simp add: trades_descriptors_def)

lemma handle_fds_leader:
  "metrics h \<noteq> [] \<Longrightarrow> handle_fds h = leader_fd h # map m_fd (tl (metrics h))"
  by (cases "metrics h") (simp_all add: handle_fds_def leader_fd_def)

lemma inject_trades:
  assumes run: "perfidious_handle_debug_inject_read os libc v te tr h m = (r, h', m')"
    and "valid_handle h" and "leader_fd h \<in># live (trace m)"
  shows "trades_descriptors h m h' m'"
proof -
  let ?data = "encode_read_format (synthetic_data h v te tr)"
  obtain s0 m1 where t: "sys_tmpfile libc m = (s0, m1)" by fastforce
  from sys_tmpfile_trace [OF t] obtain x where x: "s0 = map_option int x" "trace m1 = EvTmpfile x # trace m"
    "same_php m m1" by blast
  show ?thesis
  proof (cases x)
    case None
    then have "h' = h \<and> (\<exists>e s. m' = perfidious_error_helper IOException e s m1)"
      using run t x by (auto simp: perfidious_handle_debug_inject_read_def Let_def)
    then show ?thesis using x None assms(2) by (auto simp: trades_descriptors_def same_php_def)
  next
    case (Some s)
    obtain w m2 where w: "lib_call (libc_fwrite libc (int s) ?data) m1 = (w, m2)" by fastforce
    obtain ready m3 where p: "(if w then lib_call (libc_rewind libc (int s)) m2 else (False, m2)) = (ready, m3)"
      by fastforce
    obtain c0 n0 where f0: "sys_fclose libc (int s) m3 = (c0, n0)" by fastforce
    obtain d m4 where d: "sys_dup libc (int s) m3 = (d, m4)" by fastforce
    obtain c m5 where f: "sys_fclose libc (int s) m4 = (c, m5)" by fastforce
    obtain cl m6 where cl: "sys_close os (leader_fd h) m5 = (cl, m6)" by fastforce
    have 3: "trace m3 = EvTmpfile (Some s) # trace m" "same_php m m3"
      using lib_call_trace [OF w] p x Some
      by (auto simp: same_php_def dest!: lib_call_trace split: if_splits)
    from sys_dup_trace [OF d] obtain y where y: "d = fd_of y" "trace m4 = EvDup (int s) y # trace m3"
      "same_php m3 m4" by blast
    note tr = sys_fclose_trace [OF f0] sys_fclose_trace [OF f] sys_close_trace [OF cl]
    consider (prepare) "\<not> ready" "h' = h" "\<exists>e s. m' = perfidious_error_helper IOException e s n0"
      | (dup) "y = None" "h' = h" "\<exists>e s. m' = perfidious_error_helper IOException e s m5"
      | (finished) n where "y = Some n" "m' = m6"
          "h' = h\<lparr>metrics := replace_leader_fd (int n) (metrics h), enabled := False\<rparr>"
      using run t x Some w p f0 d f cl y
      by (cases y; cases ready) (simp_all add: perfidious_handle_debug_inject_read_def Let_def, blast+)
    then show ?thesis
    proof cases
      case prepare
      then show ?thesis using 3 tr assms(2) by (auto simp: trades_descriptors_def same_php_def)
    next
      case dup
      then show ?thesis using 3 y tr assms(2) by (auto simp: trades_descriptors_def same_php_def)
    next
      case finished
      obtain mt ms where ms: "metrics h = mt # ms" using assms(2) by (cases "metrics h") (simp_all add: valid_handle_def)
      have v: "valid_handle h'" using finished(3) ms assms(2) by (simp add: valid_handle_def)
      have "same_php m m'" using finished(2) 3 y tr by (simp add: same_php_def)
      moreover have "trace m' = EvClose (leader_fd h) cl # EvClose (int s) c # EvDup (int s) (Some n) # EvTmpfile (Some s) # trace m"
        using finished 3 y tr by simp
      ultimately show ?thesis
        using assms(3) v finished(3) ms
        by (auto simp: trades_descriptors_def same_php_def handle_fds_def leader_fd_def)
    qed
  qed
qed

lemma process_ok_trade:
  assumes ok: "process_ok p" and h: "heap p a = Some h" and t: "trades_descriptors h p h' p'"
  shows "process_ok (p'\<lparr>heap := (heap p')(a \<mapsto> h')\<rparr>)"
proof -
  let ?p = "p'\<lparr>heap := (heap p')(a \<mapsto> h')\<rparr>"
  have eqs: "heap p' = heap p" "objects p' = objects p" "streams p' = streams p" "next_addr p' = next_addr p"
    "next_object p' = next_object p" "request_handle p' = request_handle p"
    using t by (cases p; cases p'; simp add: trades_descriptors_def)+
  have o: "owns ?p = owns p" "borrows ?p = borrows p" "has_owner ?p = has_owner p"
    by (intro owner_congs; simp add: eqs)+
  have own: "ownership p" using ok by (simp add: process_ok_def)
  note fin = ownershipD(1) [OF own]
  have "ownership ?p"
    using own h t unfolding ownership_def o by (auto simp: eqs trades_descriptors_def)
  moreover have "heap_fds ((heap p)(a \<mapsto> h')) = mset (handle_fds h') + heap_fds ((heap p)(a := None))"
    using fin heap_fds_insert [of "(heap p)(a := None)" a h'] by simp
  with heap_fds_remove [OF fin h] have
    "heap_fds ((heap p)(a \<mapsto> h')) + mset (handle_fds h) = heap_fds (heap p) + mset (handle_fds h')"
    by (simp add: ac_simps)
  with t ok have "live (trace p') + mset (handle_fds h) = heap_fds ((heap p)(a \<mapsto> h')) + streams p + mset (handle_fds h)"
    by (simp add: trades_descriptors_def process_ok_def descriptors_def ac_simps)
  then have "live (trace p') = heap_fds ((heap p)(a \<mapsto> h')) + streams p" by (rule add_right_imp_eq)
  with t ok have "descriptors ?p"
    by (simp add: descriptors_def process_ok_def trades_descriptors_def eqs)
  ultimately show ?thesis by (simp add: process_ok_def)
qed

lemma safe_inject:
  assumes "process_ok p" "heap p a = Some h"
  shows "safe (cbind (at_handle a (perfidious_handle_debug_inject_read os libc v te tr) p) (\<lambda>(r, p'). Ret (z, p')))"
proof -
  obtain r h' p1 where run: "perfidious_handle_debug_inject_read os libc v te tr h p = (r, h', p1)"
    by (metis prod_cases3)
  have v: "valid_handle h" using assms by (auto simp: process_ok_def dest: ownershipD(3))
  then have "leader_fd h \<in># mset (handle_fds h)"
    by (subst handle_fds_leader) (auto simp: valid_handle_def)
  moreover have "mset (handle_fds h) \<subseteq># live (trace p)"
    using assms heap_fds_remove [of "heap p" a h] by (auto simp: process_ok_def descriptors_def dest: ownershipD(1))
  ultimately have "leader_fd h \<in># live (trace p)" by (meson mset_subset_eqD)
  from process_ok_trade [OF assms inject_trades [OF run v this]] run assms(2)
  show ?thesis by (simp add: at_handle_def)
qed

lemma safe_corrupt:
  assumes "process_ok p" "heap p a = Some h"
  shows "safe (cbind (at_handle a (\<lambda>h p. ((), corrupt_metric_ids h, p)) p) (\<lambda>(r, p'). Ret (z, p')))"
proof -
  have "valid_handle h" using assms by (auto simp: process_ok_def dest: ownershipD(3))
  then have "trades_descriptors h p (corrupt_metric_ids h) p"
    by (simp add: trades_descriptors_def corrupt_metric_ids_def valid_handle_def handle_fds_def comp_def)
  from process_ok_trade [OF assms this] assms(2) show ?thesis by (simp add: at_handle_def)
qed

section \<open>The life of a thread in this build\<close>

text \<open>\<open>allowed\<close> chooses the calls the script makes.\<close>

fun debug_callable :: "debug_call \<Rightarrow> 'k process \<Rightarrow> bool" where
  "debug_callable (ReleaseCall c) p = callable c p"
| "debug_callable (DebugCorruptMetricIds i) p = (objects p i \<noteq> None)"
| "debug_callable (DebugCloseFd i idx) p = (objects p i \<noteq> None)"
| "debug_callable (DebugInjectOverflowRead i) p = (objects p i \<noteq> None)"
| "debug_callable (DebugInjectScalingRead i) p = (objects p i \<noteq> None)"
| "debug_callable _ p = True"

definition only_release :: "'k debug_build \<Rightarrow> 'k process cval \<Rightarrow> 'k debug_build cval" where
  "only_release s x = cbind x (\<lambda>p. Ret (s\<lparr>release := p\<rparr>))"

inductive debug_step ::
  "'k linux_os \<Rightarrow> 'k debug_libc \<Rightarrow> (debug_call \<Rightarrow> bool) \<Rightarrow> phase \<times> 'k debug_build
    \<Rightarrow> (phase \<times> 'k debug_build) cval \<Rightarrow> bool"
  for os :: "'k linux_os" and libc :: "'k debug_libc" and allowed :: "debug_call \<Rightarrow> bool" where
  outside: "debug_step os libc allowed (ph, s) (Ret (ph, s\<lparr>release := (release s)\<lparr>kernel := k\<rparr>\<rparr>))"
| start: "debug_step os libc allowed (Idle, s) (enter Running (debug_RINIT os s))"
| call: "debug_callable c (release s) \<Longrightarrow> allowed c \<Longrightarrow>
    debug_step os libc allowed (Running, s) (stay (run_debug_call os libc c s))"
| catch_exn: "debug_step os libc allowed (Running, s)
    (Ret (Running, s\<lparr>release := (release s)\<lparr>exceptions := []\<rparr>\<rparr>))"
| info: "debug_step os libc allowed (Running, s)
    (stay (on_release s (MINFO_perfidious os (release s))))"
| finish: "debug_step os libc allowed (Running, s) (enter Ending (debug_RSHUTDOWN os s))"
| free_object: "ph = Running \<or> ph = Ending \<Longrightarrow> objects (release s) i \<noteq> None \<Longrightarrow>
    debug_step os libc allowed (ph, s) (enter ph (only_release s (perfidious_handle_obj_free os i (release s))))"
| free_stream: "ph = Running \<or> ph = Ending \<Longrightarrow> fd \<in># streams (release s) \<Longrightarrow>
    debug_step os libc allowed (ph, s) (Ret (ph, s\<lparr>release := free_stream os fd (release s)\<rparr>))"
| idle: "objects (release s) = Map.empty \<Longrightarrow> streams (release s) = {#} \<Longrightarrow>
    debug_step os libc allowed (Ending, s) (Ret (Idle, s))"
| unload: "debug_step os libc allowed (Idle, s)
    (enter Finished (only_release s (GSHUTDOWN_perfidious os (release s))))"

inductive debug_reachable ::
  "'k linux_os \<Rightarrow> 'k debug_libc \<Rightarrow> (debug_call \<Rightarrow> bool) \<Rightarrow> phase \<times> 'k debug_build
    \<Rightarrow> phase \<times> 'k debug_build \<Rightarrow> bool"
  for os :: "'k linux_os" and libc :: "'k debug_libc" and allowed :: "debug_call \<Rightarrow> bool"
    and x0 :: "phase \<times> 'k debug_build" where
  initial: "debug_reachable os libc allowed x0 x0"
| steps: "debug_reachable os libc allowed x0 x \<Longrightarrow> debug_step os libc allowed x (Ret x') \<Longrightarrow>
    debug_reachable os libc allowed x0 x'"

section \<open>What the release code of this build does to the release state\<close>

definition release_of :: "'k debug_build cval \<Rightarrow> 'k process cval" where
  "release_of x = cbind x (\<lambda>s. Ret (release s))"

definition release_result :: "('r \<times> 'k debug_build) cval \<Rightarrow> ('r \<times> 'k process) cval" where
  "release_result x = cbind x (\<lambda>(r, s). Ret (r, release s))"

lemma release_simps [simp]:
  "release_of Undefined = Undefined" "release_of (Ret s) = Ret (release s)"
  "release_result Undefined = Undefined" "release_result (Ret (r, s)) = Ret (r, release s)"
  "release (count_open_ex s) = release s"
  "debug_fail_next_request_handle_shutdown (count_open_ex s) = debug_fail_next_request_handle_shutdown s"
  "release_result (on_release s y) = y"
  "release_of (only_release s z) = z"
  by (simp_all add: release_of_def release_result_def count_open_ex_def on_release_def only_release_def)
    (cases y; auto; fail | cases z; auto; fail)+

lemma release_RINIT: "release_of (debug_RINIT os s) = RINIT_perfidious os (release s)"
proof (cases "rinit_fork_check os ((release s)\<lparr>request_handle_ready := False\<rparr>)")
  case (Ret p1)
  then show ?thesis
    by (cases "rinit_start os (rinit_open os p1)")
      (simp_all add: debug_RINIT_def RINIT_perfidious_def RINIT_perfidious_platform_def debug_rinit_open_def Let_def)
qed (simp add: debug_RINIT_def RINIT_perfidious_def RINIT_perfidious_platform_def)

lemma release_shutdown_reset:
  "\<not> debug_fail_next_request_handle_shutdown s \<Longrightarrow>
     perfidious_request_handle_try_shutdown_reset os a s = on_release s (at_handle a (perfidious_handle_try_reset os) (release s))"
  by (simp add: perfidious_request_handle_try_shutdown_reset_def on_release_def)

lemma release_RSHUTDOWN:
  assumes "\<not> debug_fail_next_request_handle_shutdown s"
  shows "release_of (debug_RSHUTDOWN os s) = RSHUTDOWN_perfidious os (release s)"
proof (cases "request_handle (release s)")
  case None
  then show ?thesis by (simp add: debug_RSHUTDOWN_def RSHUTDOWN_perfidious_def RSHUTDOWN_perfidious_platform_def)
next
  case (Some a)
  show ?thesis
  proof (cases "at_handle a (\<lambda>h. perfidious_handle_try_set_enabled os h False) (release s)")
    case Undefined
    then show ?thesis using Some
      by (simp add: debug_RSHUTDOWN_def RSHUTDOWN_perfidious_def RSHUTDOWN_perfidious_platform_def)
  next
    case (Ret r)
    obtain e1 p1 where r: "r = (e1, p1)" by fastforce
    let ?p = "perfidious_request_handle_record_error os ''disable'' e1 p1"
    show ?thesis
      using Some Ret r assms
      by (cases "at_handle a (perfidious_handle_try_reset os) ?p")
        (auto simp: debug_RSHUTDOWN_def RSHUTDOWN_perfidious_def RSHUTDOWN_perfidious_platform_def
          release_shutdown_reset on_release_def)
  qed
qed

lemma release_open_arguments:
  "open_arguments (without_capabilities os) ht pid cpu p = debug_open_arguments ht pid cpu p"
  by (auto simp: open_arguments_def debug_open_arguments_def check_passes split: option.split prod.split)

lemma release_open:
  "release_result (debug_open os ht pid cpu s) = perfidious_open (without_capabilities os) ht pid cpu (release s)"
proof -
  obtain r p1 where c: "debug_open_arguments ht pid cpu (release s) = (r, p1)" by fastforce
  show ?thesis
  proof (cases r)
    case None
    with c show ?thesis by (simp add: debug_open_def perfidious_open_def release_open_arguments)
  next
    case (Some x)
    obtain names q n where x: "x = (names, q, n)" by (cases x)
    show ?thesis
      using c Some x
      by (cases "open_into_object os names q n p1") (auto simp: debug_open_def perfidious_open_def release_open_arguments same_os)
  qed
qed

lemma release_call:
  "release_result (run_debug_call os libc (ReleaseCall c) s) = run_call (without_capabilities os) c (release s)"
  by (cases c) (simp_all add: release_open same_os)

section \<open>Runs of this build\<close>

definition released :: "(phase \<times> 'k debug_build) cval \<Rightarrow> (phase \<times> 'k process) cval" where
  "released r = cbind r (\<lambda>(ph, s). Ret (ph, release s))"

definition helper_pending :: "(phase \<times> 'k debug_build) cval \<Rightarrow> bool" where
  "helper_pending r = (case r of Undefined \<Rightarrow> False
     | Ret (ph, s) \<Rightarrow> debug_fail_next_request_handle_shutdown s)"

lemma released_simps [simp]:
  "released Undefined = Undefined" "released (Ret (ph, s)) = Ret (ph, release s)"
  by (simp_all add: released_def)

lemma released_enter [simp]: "released (enter ph x) = enter ph (release_of x)"
  by (cases x) simp_all

lemma released_stay [simp]: "released (stay y) = stay (release_result y)"
  by (cases y) (auto simp: stay_def)

lemma helper_pending_simps [simp]:
  "\<not> helper_pending Undefined"
  "helper_pending (Ret (ph, s)) = debug_fail_next_request_handle_shutdown s"
  by (simp_all add: helper_pending_def)

fun is_release :: "debug_call \<Rightarrow> bool" where
  "is_release (ReleaseCall c) = True"
| "is_release _ = False"

lemma keeps_pending:
  assumes "\<not> debug_fail_next_request_handle_shutdown s"
  shows "\<not> helper_pending (enter ph (only_release s x))"
    and "\<not> helper_pending (stay (on_release s y))"
    and "\<not> helper_pending (enter ph (debug_RINIT os s))"
    and "\<not> helper_pending (enter ph (debug_RSHUTDOWN os s))"
    and "\<not> helper_pending (stay (run_debug_call os libc (ReleaseCall c) s))"
proof -
  show "\<not> helper_pending (enter ph (only_release s x))"
    using assms by (cases x) (simp_all add: only_release_def)
  show o: "\<not> helper_pending (stay (on_release s y))" for y :: "('c \<times> 'a process) cval"
    using assms by (cases y) (auto simp: on_release_def stay_def)
  show "\<not> helper_pending (enter ph (debug_RINIT os s))"
  proof (cases "rinit_fork_check os ((release s)\<lparr>request_handle_ready := False\<rparr>)")
    case (Ret p1)
    with assms show ?thesis
      by (cases "rinit_start os (rinit_open os p1)")
        (simp_all add: debug_RINIT_def debug_rinit_open_def Let_def)
  qed (simp add: debug_RINIT_def)
  show "\<not> helper_pending (enter ph (debug_RSHUTDOWN os s))"
  proof (cases "request_handle (release s)")
    case None
    with assms show ?thesis by (simp add: debug_RSHUTDOWN_def)
  next
    case (Some a)
    show ?thesis
    proof (cases "at_handle a (\<lambda>h. perfidious_handle_try_set_enabled os h False) (release s)")
      case (Ret r)
      obtain e1 p1 where r: "r = (e1, p1)" by fastforce
      show ?thesis
        using Some Ret r assms
        by (cases "at_handle a (perfidious_handle_try_reset os) (perfidious_request_handle_record_error os ''disable'' e1 p1)")
          (auto simp: debug_RSHUTDOWN_def release_shutdown_reset on_release_def)
    qed (simp add: debug_RSHUTDOWN_def Some)
  qed
  have "\<not> helper_pending (stay (debug_open os ht pid cpu s))" for ht pid cpu
  proof -
    obtain r p1 where c: "debug_open_arguments ht pid cpu (release s) = (r, p1)" by fastforce
    show ?thesis
    proof (cases r)
      case None
      with c assms show ?thesis by (simp add: debug_open_def stay_def)
    next
      case (Some x)
      obtain names q n where x: "x = (names, q, n)" by (cases x)
      show ?thesis
        using c Some x assms
        by (cases "open_into_object os names q n p1") (auto simp: debug_open_def stay_def)
    qed
  qed
  then show "\<not> helper_pending (stay (run_debug_call os libc (ReleaseCall c) s))"
    using o by (cases c) simp_all
qed

lemma debug_step_release:
  assumes "debug_step os libc is_release (ph, s) r" and "\<not> debug_fail_next_request_handle_shutdown s"
  shows "step (without_capabilities os) (ph, release s) (released r)" and "\<not> helper_pending r"
proof -
  have "step (without_capabilities os) (ph, release s) (released r) \<and> \<not> helper_pending r"
    using assms(1)
  proof (cases rule: debug_step.cases)
    case (call c)
    then obtain c' where "c = ReleaseCall c'" by (cases c) simp_all
    with call assms(2) show ?thesis by (simp add: release_call step.call keeps_pending del: run_debug_call.simps)
  qed (use assms(2) in \<open>auto simp: release_RINIT release_RSHUTDOWN keeps_pending intro: without_capabilities_steps\<close>)
  then show "step (without_capabilities os) (ph, release s) (released r)" "\<not> helper_pending r" by auto
qed

lemma release_step_debug:
  assumes "step (without_capabilities os) (ph, release s) r" and "\<not> debug_fail_next_request_handle_shutdown s"
  shows "\<exists>r'. debug_step os libc is_release (ph, s) r' \<and> released r' = r"
  using assms(1)
proof (cases rule: step.cases)
  case (call c)
  have "debug_step os libc is_release (Running, s) (stay (run_debug_call os libc (ReleaseCall c) s))"
    by (rule debug_step.call) (use call in simp_all)
  with call show ?thesis by (auto simp: release_call simp del: run_debug_call.simps)
next
  case start
  with debug_step.start [of os libc is_release s] show ?thesis by (auto simp: release_RINIT same_os)
next
  case finish
  with debug_step.finish [of os libc is_release s] assms(2) show ?thesis by (auto simp: release_RSHUTDOWN same_os)
next
  case info
  with debug_step.info [of os libc is_release s] show ?thesis by (auto simp: same_os)
next
  case unload
  with debug_step.unload [of os libc is_release s] show ?thesis by (auto simp: same_os)
next
  case (free_object i)
  with debug_step.free_object [of ph s i os libc is_release] show ?thesis by (auto simp: same_os)
next
  case (outside k)
  with debug_step.outside [of os libc is_release ph s k] show ?thesis by (auto simp: same_os)
next
  case catch_exn
  with debug_step.catch_exn [of os libc is_release s] show ?thesis by (auto simp: same_os)
next
  case (free_stream fd)
  with debug_step.free_stream [of ph fd s os libc is_release] show ?thesis by (auto simp: same_os)
next
  case idle
  with debug_step.idle [of s os libc is_release] show ?thesis by (auto simp: same_os)
qed

lemma released_Ret_iff: "released r = Ret (ph, p) \<longleftrightarrow> (\<exists>s. r = Ret (ph, s) \<and> release s = p)"
  by (cases r) auto

lemma debug_reachable_release:
  assumes "debug_reachable os libc is_release (ph0, s0) x" and "\<not> debug_fail_next_request_handle_shutdown s0"
  shows "reachable (without_capabilities os) (ph0, release s0) (fst x, release (snd x)) \<and> \<not> debug_fail_next_request_handle_shutdown (snd x)"
  using assms(1)
proof induction
  case initial
  then show ?case using assms(2) by (simp add: reachable.initial)
next
  case (steps x x')
  obtain ph s ph' s' where x: "x = (ph, s)" "x' = (ph', s')" by fastforce
  from steps debug_step_release [of os libc ph s "Ret (ph', s')"] x
  have "step (without_capabilities os) (ph, release s) (Ret (ph', release s'))" "\<not> debug_fail_next_request_handle_shutdown s'" by simp_all
  with steps.IH x show ?case by (auto intro: reachable.steps)
qed

lemma release_reachable_debug:
  assumes "reachable (without_capabilities os) (ph0, release s0) y" and "\<not> debug_fail_next_request_handle_shutdown s0"
  shows "\<exists>s. debug_reachable os libc is_release (ph0, s0) (fst y, s) \<and> release s = snd y"
  using assms(1)
proof induction
  case initial
  then show ?case using debug_reachable.initial by fastforce
next
  case (steps y y')
  obtain ph p ph' p' where y: "y = (ph, p)" "y' = (ph', p')" by fastforce
  from steps.IH y obtain s where s: "debug_reachable os libc is_release (ph0, s0) (ph, s)" "release s = p" by auto
  with debug_reachable_release [OF s(1) assms(2)] have "\<not> debug_fail_next_request_handle_shutdown s" by simp
  from release_step_debug [OF _ this, of os ph "Ret (ph', p')" libc] steps.hyps(2) y s(2) obtain r' where
    "debug_step os libc is_release (ph, s) r'" "released r' = Ret (ph', p')" by auto
  with s(1) y show ?case by (auto simp: released_Ret_iff intro: debug_reachable.steps)
qed

section \<open>Every run of this build is well kept\<close>

text \<open>\<open>debugCloseFd\<close> closes a descriptor behind the back of its handle, which is what it is for; every
  other call keeps the books.\<close>

fun keeps_descriptors :: "debug_call \<Rightarrow> bool" where
  "keeps_descriptors (DebugCloseFd i idx) = False"
| "keeps_descriptors _ = True"

definition debug_state_ok :: "phase \<times> 'k debug_build \<Rightarrow> bool" where
  "debug_state_ok x \<longleftrightarrow> state_ok (fst x, release (snd x))"

lemma safe_on_release: "safe (release_result (on_release s y)) = safe y"
  by simp

lemma safe_debug_call:
  assumes "group_read_contract os" "process_ok (release s)" "debug_callable c (release s)" "keeps_descriptors c"
  shows "safe (release_result (run_debug_call os libc c s))"
proof (cases c)
  case (ReleaseCall c')
  with assms show ?thesis by (simp add: release_call safe_run_call same_os del: run_debug_call.simps)
next
  case (DebugCorruptMetricIds i)
  have "safe (PerfidiousHandle_debugCorruptMetricIds i (release s))"
    unfolding PerfidiousHandle_debugCorruptMetricIds_def
    using assms DebugCorruptMetricIds by (intro safe_on_open_object safe_corrupt) simp_all
  with DebugCorruptMetricIds show ?thesis by simp
next
  case (DebugInjectOverflowRead i)
  have "safe (PerfidiousHandle_debugInjectOverflowRead os libc i (release s))"
    unfolding PerfidiousHandle_debugInjectOverflowRead_def
    using assms DebugInjectOverflowRead by (intro safe_on_open_object safe_inject) simp_all
  with DebugInjectOverflowRead show ?thesis by simp
next
  case (DebugInjectScalingRead i)
  have "safe (PerfidiousHandle_debugInjectScalingRead os libc i (release s))"
    unfolding PerfidiousHandle_debugInjectScalingRead_def
    using assms DebugInjectScalingRead by (intro safe_on_open_object safe_inject) simp_all
  with DebugInjectScalingRead show ?thesis by simp
next
  case DebugUint64Overflow
  have "process_ok (snd (perfidious_debug_uint64_overflow (release s)))"
    using assms(2)
    by (auto simp: perfidious_debug_uint64_overflow_def perfidious_uint64_t_to_zend_long_def)
  with DebugUint64Overflow show ?thesis by (simp add: safe_Ret)
qed (use assms in \<open>simp_all add: perfidious_debug_fail_next_request_handle_shutdown_def\<close>)

text \<open>The end of a request whose reset is made to fail.\<close>

lemma shutdown_fails:
  assumes ok: "process_ok (release s)" and f: "debug_fail_next_request_handle_shutdown s"
    and a: "request_handle (release s) = Some a"
  obtains s' where "debug_RSHUTDOWN os s = Ret s'" "\<not> debug_fail_next_request_handle_shutdown s'"
    "process_ok (release s')" "same_user (release s) (release s')" "request_handle (release s') = Some a"
    "request_handle_pid (release s') = request_handle_pid (release s)" "silent (release s) (release s')"
    "exception_ce (request_handle_error (release s)) = None \<Longrightarrow>
       \<exists>op e msg. request_handle_error (release s') = perfidious_error_set IOException e msg"
proof -
  let ?p = "release s"
  have "ownership ?p" using ok by (simp add: process_ok_def)
  then obtain h where h: "heap ?p a = Some h" using ownershipD(10) a by blast
  obtain e1 h1 q1 p1 where d:
    "at_handle a (\<lambda>h. perfidious_handle_try_set_enabled os h False) ?p = Ret (e1, p1)"
    "process_ok p1" "same_objects ?p p1"
    by (rule set_enabled.at_handle_runs [OF ok h])
  let ?p2 = "perfidious_request_handle_record_error os ''reset'' EIO (perfidious_request_handle_record_error os ''disable'' e1 p1)"
  let ?s = "s\<lparr>release := ?p2\<lparr>request_handle_ready := False\<rparr>, debug_fail_next_request_handle_shutdown := False\<rparr>"
  have "debug_RSHUTDOWN os s = Ret ?s"
    using a d(1) f by (simp add: debug_RSHUTDOWN_def perfidious_request_handle_try_shutdown_reset_def)
  moreover have "same_user ?p ?p2" using d(3) by (simp add: same_user_objects)
  moreover have "request_handle_pid ?p2 = request_handle_pid ?p" "request_handle ?p2 = Some a"
    using d(3) a by (simp_all add: same_objects_def perfidious_request_handle_record_error_def)
  moreover have "silent ?p ?p2" using silent_set_enabled [OF d(1)] by simp
  moreover have "\<exists>op e msg. request_handle_error ?p2 = perfidious_error_set IOException e msg"
    if "exception_ce (request_handle_error ?p) = None"
    using that d(3) by (auto simp: perfidious_request_handle_record_error_def same_objects_def)
  ultimately show thesis using d(2) by (intro that [of ?s]) (simp_all add: same_user_def silent_def)
qed

lemma debug_step_ok:
  assumes "debug_step os libc keeps_descriptors (ph, s) r" "group_read_contract os" "state_ok (ph, release s)"
  shows "outcome_ok (released r)"
proof -
  have rel: "outcome_ok z" if "step (without_capabilities os) (ph, release s) z" for z
    using that _ assms(3) by (rule step_ok) (use assms(2) in \<open>simp add: same_os\<close>)
  show ?thesis
    using assms(1)
  proof (cases rule: debug_step.cases)
    case (call c)
    with assms show ?thesis by (simp add: outcome_stay safe_debug_call state_ok_def)
  next
    case finish
    show ?thesis
    proof (cases "debug_fail_next_request_handle_shutdown s \<and> request_handle (release s) \<noteq> None")
      case True
      then obtain a where "request_handle (release s) = Some a" by auto
      with True assms(3) obtain s' where "debug_RSHUTDOWN os s = Ret s'" "process_ok (release s')"
        using shutdown_fails [of s a os] by (auto simp: state_ok_def)
      with finish show ?thesis by (simp add: outcome_ok_def state_ok_def)
    next
      case False
      have "release_of (debug_RSHUTDOWN os s) = RSHUTDOWN_perfidious os (release s)"
        using False release_RSHUTDOWN [of s os]
        by (cases "request_handle (release s)")
          (auto simp: debug_RSHUTDOWN_def RSHUTDOWN_perfidious_def RSHUTDOWN_perfidious_platform_def)
      with finish rel [of "enter Ending (RSHUTDOWN_perfidious os (release s))"] show ?thesis
        by (simp add: without_capabilities_steps)
    qed
  qed (use rel in \<open>auto simp: release_RINIT intro: without_capabilities_steps\<close>)
qed

lemma debug_reachable_ok:
  assumes "debug_reachable os libc keeps_descriptors (ph0, s0) x" "group_read_contract os" "state_ok (ph0, release s0)"
  shows "state_ok (fst x, release (snd x))"
  using assms(1)
proof induction
  case initial
  then show ?case using assms(3) by simp
next
  case (steps x x')
  obtain ph s ph' s' where x: "x = (ph, s)" "x' = (ph', s')" by fastforce
  with steps have "outcome_ok (released (Ret (ph', s')))"
    by (intro debug_step_ok [OF _ assms(2)]) simp_all
  with x show ?case by (simp add: outcome_ok_def)
qed

end
