(* ===== verification/Debug_Properties.thy ===== *)
theory Debug_Properties
  imports Debug Lifecycle_Properties
begin

text \<open>
  What holds of the build with the test helpers: it is the release build as long as no helper is
  called, its runs keep the books, a reset made to fail reaches the script of the next request,
  and an injected read comes back as it was written.
\<close>

section \<open>A concrete C library\<close>

definition demo_libc :: "demo debug_libc" where
  "demo_libc = \<lparr>libc_tmpfile = demo_open, libc_fwrite = (\<lambda>s ws k. (True, None, k)),
     libc_rewind = (\<lambda>s k. (True, None, k)), libc_fclose = (\<lambda>s k. (True, None, k)),
     libc_dup = (\<lambda>s k. demo_open k)\<rparr>"

definition demo_build :: "bool \<Rightarrow> demo debug_build" where
  "demo_build fl = \<lparr>release = demo_process True (Some ''a,b''), debug_open_ex_call_count = 0,
     debug_fail_next_request_handle_shutdown = fl\<rparr>"

section \<open>Runs\<close>

text \<open>C23 (debug_build_is_release_build). As long as the script calls none of the helpers and no failing
  shutdown is pending, the debug build can reach exactly the release states and phases that the
  release build can reach from the same start on a system that reports no capabilities: but for the check of
  \<open>CAP_PERFMON\<close> in \<open>open()\<close>, which this build leaves out, the two builds are the same program.\<close>

theorem debug_build_is_release_build:
  assumes "\<not> debug_fail_next_request_handle_shutdown s0"
  shows "(\<exists>s. debug_reachable os libc is_release (ph0, s0) (ph, s) \<and> release s = p) =
    reachable (without_capabilities os) (ph0, release s0) (ph, p)"
  using debug_reachable_release [of os libc ph0 s0 "(ph, _)"] release_reachable_debug [of os ph0 s0 "(ph, p)" libc]
    assms by fastforce

theorem debug_build_is_release_build_witness:
  "\<exists>p s. RINIT_perfidious demo_os (demo_process True (Some ''a,b'')) = Ret p \<and>
     debug_reachable demo_os demo_libc is_release (Idle, demo_build False) (Running, s) \<and> release s = p"
proof -
  obtain p where p: "RINIT_perfidious demo_os (demo_process True (Some ''a,b'')) = Ret p"
    using no_undefined_start by blast
  then have "step (without_capabilities demo_os) (Idle, release (demo_build False)) (Ret (Running, p))"
    using step.start [of "without_capabilities demo_os" "demo_process True (Some ''a,b'')"]
    by (simp add: demo_build_def same_os)
  with reachable.initial have "reachable (without_capabilities demo_os) (Idle, release (demo_build False)) (Running, p)"
    by (rule reachable.steps)
  moreover have "\<not> debug_fail_next_request_handle_shutdown (demo_build False)" by (simp add: demo_build_def)
  ultimately show ?thesis
    using p debug_build_is_release_build [of "demo_build False" demo_os demo_libc Idle Running p] by blast
qed

text \<open>C24 (debug_build_keeps_books). Every run of the debug build, helpers included, is free of undefined
  behaviour and keeps the books of owners and descriptors: injecting a read and corrupting the ids neither leak
  nor close twice, whatever fails on the way. Only \<open>debugCloseFd\<close> is left out, which closes a descriptor behind the
  back of its handle on purpose.\<close>

theorem debug_build_keeps_books:
  assumes "group_read_contract os" and "loaded (release s0)"
    and "debug_reachable os libc keeps_descriptors (Idle, s0) (ph, s)"
    and "debug_step os libc keeps_descriptors (ph, s) r"
  shows "r \<noteq> Undefined \<and> process_ok (release s)"
proof -
  have ok: "state_ok (ph, release s)"
    using debug_reachable_ok [OF assms(3,1) loaded_ok [OF assms(2)]] by simp
  have "outcome_ok (released r)" by (rule debug_step_ok [OF assms(4,1) ok])
  with ok show ?thesis by (auto simp: outcome_ok_def state_ok_def)
qed

theorem debug_build_keeps_books_witness:
  "enter Running (debug_RINIT demo_os (demo_build True)) \<noteq> Undefined \<and> process_ok (release (demo_build True))"
  by (rule debug_build_keeps_books [OF demo_group_read _ debug_reachable.initial debug_step.start])
    (simp add: demo_build_def demo_loaded)

section \<open>A failing reset at the end of a request\<close>

lemma RINIT_keeps_error:
  assumes ok: "process_ok p" and pid: "os_getpid os (kernel p) = request_handle_pid p"
    and a: "request_handle p = Some a" and en: "request_enable p"
    and e: "exception_ce (request_handle_error p) \<noteq> None" and r: "RINIT_perfidious_platform os p = Ret p'"
  shows "request_handle p' = Some a \<and> request_handle_error p' = request_handle_error p"
proof -
  let ?p = "p\<lparr>request_handle_ready := False\<rparr>"
  have ok1: "process_ok ?p" using ok by simp
  then have "ownership ?p" by (simp add: process_ok_def)
  then obtain h where h: "heap ?p a = Some h" using ownershipD(10) [of ?p a] a by auto
  have run: "rinit_start os ?p = Ret p'"
    using r pid en a
    by (simp add: RINIT_perfidious_platform_def rinit_fork_check_def rinit_open_def Let_def)
  obtain e1 h1 q1 p1 where s: "at_handle a (perfidious_handle_try_reset os) ?p = Ret (e1, p1)"
    "process_ok p1" "same_objects ?p p1" "heap p1 = (heap ?p)(a \<mapsto> h1)"
    by (rule try_reset.at_handle_runs [OF ok1 h])
  have h1: "heap p1 a = Some h1" using s(4) by simp
  obtain e2 h2 q2 p2 where t: "at_handle a (\<lambda>h. perfidious_handle_try_set_enabled os h True) p1 = Ret (e2, p2)"
    "same_objects p1 p2" by (rule set_enabled.at_handle_runs [OF s(2) h1])
  have eqs: "request_handle_error p1 = request_handle_error p" "request_handle p1 = Some a"
    "request_handle_error p2 = request_handle_error p" "request_handle p2 = Some a"
    using s(3) t(2) a by (simp_all add: same_objects_def)
  show ?thesis
    using run a s(1) t(1) e eqs
    by (auto simp: rinit_start_def perfidious_request_handle_record_error_def split: if_splits)
qed

text \<open>C22 (failed_shutdown_reaches_next_request). When the reset at the end of a request is made to fail, the
  request still ends, the handle stays open, nothing is thrown there, and the helper is spent; in the next request of
  the same process \<open>request_handle()\<close> throws an \<open>IOException\<close>, once.\<close>

theorem failed_shutdown_reaches_next_request:
  assumes "process_ok (release s)" and "no_borrowers (release s)"
    and "debug_fail_next_request_handle_shutdown s" and "request_handle (release s) = Some a"
    and "request_enable (release s)" and "error_mode (release s) = PERFIDIOUS_ERROR_MODE_THROW"
    and "exception_ce (request_handle_error (release s)) = None"
    and "\<forall>k. os_getpid os k = request_handle_pid (release s)"
  shows "\<exists>s1 s2 p3 e. debug_RSHUTDOWN os s = Ret s1 \<and> \<not> debug_fail_next_request_handle_shutdown s1 \<and>
    debug_RINIT os s1 = Ret s2 \<and> request_handle (release s2) = Some a \<and>
    perfidious_request_handle (release s2) = (ZNull, p3) \<and>
    exceptions p3 = e # exceptions (release s) \<and> ex_class e = IOException \<and>
    request_handle_error p3 = no_error"
proof -
  obtain s1 where 1: "debug_RSHUTDOWN os s = Ret s1" "\<not> debug_fail_next_request_handle_shutdown s1"
    "process_ok (release s1)" "same_user (release s) (release s1)" "request_handle (release s1) = Some a"
    "request_handle_pid (release s1) = request_handle_pid (release s)" "silent (release s) (release s1)"
    "\<exists>op e msg. request_handle_error (release s1) = perfidious_error_set IOException e msg"
    using shutdown_fails [OF assms(1,3,4), of os] assms(7) by metis
  have "borrows (release s1) = borrows (release s)" using 1(4) by (intro borrows_cong) (simp add: same_user_def)
  then have nb: "no_borrowers (release s1)" using assms(2) by (simp add: no_borrowers_def)
  obtain p2 where 2: "RINIT_perfidious_platform os (release s1) = Ret p2" "process_ok p2" "same_user (release s1) p2"
    by (rule RINIT_runs [OF 1(3) nb])
  obtain s2 where s2: "debug_RINIT os s1 = Ret s2" "release s2 = p2"
    using release_RINIT [of os s1] 2(1)
    by (cases "debug_RINIT os s1") (simp_all add: RINIT_perfidious_def)
  have en: "request_enable (release s1)" using 1(4) assms(5) by (simp add: same_user_def)
  have keep: "request_handle p2 = Some a" "request_handle_error p2 = request_handle_error (release s1)"
    using RINIT_keeps_error [OF 1(3) _ 1(5) en _ 2(1)] 1(6,8) assms(8) by auto
  have "silent (release s) p2" using 1(7) silent_RINIT [OF 2(1)] by (rule silent_trans)
  moreover have "request_enable p2" "error_mode p2 = PERFIDIOUS_ERROR_MODE_THROW"
    using 1(4) 2(3) assms(5,6) by (simp_all add: same_user_def)
  ultimately show ?thesis
    using 1 s2 keep by (auto simp: perfidious_request_handle_def perfidious_error_helper_throw Let_def silent_def
        zend_throw_exception_def)
qed

text \<open>A request of the clock's process, with a failing shutdown pending.\<close>

definition clock_request :: "clock process" where
  "clock_request = clock_process\<lparr>request_enable := True, request_metrics := Some ''a,b''\<rparr>"

definition clock_build :: "clock debug_build" where
  "clock_build =
     \<lparr>release = (case RINIT_perfidious clock_os clock_request of Ret p \<Rightarrow> p | Undefined \<Rightarrow> clock_request),
      debug_open_ex_call_count = 1, debug_fail_next_request_handle_shutdown = True\<rparr>"

lemma clock_build_facts:
  "request_handle (release clock_build) = Some 0" "request_enable (release clock_build)"
  "error_mode (release clock_build) = PERFIDIOUS_ERROR_MODE_THROW"
  "exception_ce (request_handle_error (release clock_build)) = None"
  "request_handle_pid (release clock_build) = 77" "exceptions (release clock_build) = []"
  by code_simp+

lemma clock_build_ok: "process_ok (release clock_build)" "no_borrowers (release clock_build)"
proof -
  have "loaded clock_request" by (simp add: loaded_def clock_request_def clock_process_def)
  then have ok: "process_ok clock_request" using loaded_ok by (fastforce simp: state_ok_def)
  have nb: "no_borrowers clock_request"
    by (simp add: no_borrowers_def borrows_def clock_request_def clock_process_def)
  obtain p where p: "RINIT_perfidious_platform clock_os clock_request = Ret p" "process_ok p"
    "same_user clock_request p" by (rule RINIT_runs [OF ok nb])
  then have "borrows p = borrows clock_request" by (intro borrows_cong) (simp add: same_user_def)
  with p nb show "process_ok (release clock_build)" "no_borrowers (release clock_build)"
    by (simp_all add: clock_build_def RINIT_perfidious_def no_borrowers_def)
qed

theorem failed_shutdown_reaches_next_request_witness:
  "\<exists>s1 s2 p3. debug_RSHUTDOWN clock_os clock_build = Ret s1 \<and> debug_RINIT clock_os s1 = Ret s2 \<and>
     perfidious_request_handle (release s2) = (ZNull, p3) \<and> length (exceptions p3) = 1"
proof -
  have "\<forall>k. os_getpid clock_os k = request_handle_pid (release clock_build)"
    by (simp add: clock_build_facts clock_os_def)
  moreover have "debug_fail_next_request_handle_shutdown clock_build" by (simp add: clock_build_def)
  ultimately show ?thesis
    using failed_shutdown_reaches_next_request [OF clock_build_ok _ clock_build_facts(1-4), of clock_os]
    by (fastforce simp: clock_build_facts(6))
qed

section \<open>An injected read\<close>

text \<open>What POSIX promises of the file behind a duplicated descriptor: rewound after the words were written,
  it reads as those words, also once the stream and another descriptor were closed.\<close>

definition tmpfile_contract :: "'k linux_os \<Rightarrow> 'k debug_libc \<Rightarrow> bool" where
  "tmpfile_contract os libc \<longleftrightarrow>
     (\<forall>s ws k e1 k1 e2 k2 d e3 k3 c e4 k4 fd x e5 k5.
        libc_fwrite libc s ws k = (True, e1, k1) \<and> libc_rewind libc s k1 = (True, e2, k2) \<and>
        libc_dup libc s k2 = (Some d, e3, k3) \<and> libc_fclose libc s k3 = (c, e4, k4) \<and>
        os_close os fd k4 = (x, e5, k5) \<and> fd \<noteq> int d \<longrightarrow>
        (\<exists>e k6. os_read os (int d) (8 * int (length ws)) k5 = ((8 * int (length ws), ws), e, k6)))"

definition synthetic_group :: "nat \<Rightarrow> u64 \<Rightarrow> u64 \<Rightarrow> u64 \<Rightarrow> perf_group" where
  "synthetic_group n v te tr =
     \<lparr>g_on = False, g_counts = replicate n v, g_time_enabled = te, g_time_running = tr\<rparr>"

lemma synthetic_data_report:
  "synthetic_data h v te tr = group_report (metric_ids h) (synthetic_group (length (metrics h)) v te tr)"
proof -
  have "map (\<lambda>mt. (v, m_id mt)) ms = zip (replicate (length ms) v) (map m_id ms)" for ms
    by (induction ms) simp_all
  then show ?thesis
    by (simp add: synthetic_data_def group_report_def synthetic_group_def metric_ids_def)
qed

lemma length_encode_data: "length (encode_read_format (synthetic_data h v te tr)) = 3 + 2 * length (metrics h)"
  by (simp add: encode_read_format_def synthetic_data_def)

text \<open>An injection that replaced the leader went through all its steps.\<close>

lemma injected:
  assumes run: "perfidious_handle_debug_inject_read os libc v te tr h m = (r, h', m')"
    and "leader_fd h' \<noteq> leader_fd h"
  obtains s k e1 k1 e2 k2 d e3 k3 c e4 k4 x e5 where
    "libc_fwrite libc s (encode_read_format (synthetic_data h v te tr)) k = (True, e1, k1)"
    "libc_rewind libc s k1 = (True, e2, k2)" "libc_dup libc s k2 = (Some d, e3, k3)"
    "libc_fclose libc s k3 = (c, e4, k4)" "os_close os (leader_fd h) k4 = (x, e5, kernel m')"
    "h' = h\<lparr>metrics := replace_leader_fd (int d) (metrics h), enabled := False\<rparr>" "leader_fd h' = int d"
    "exceptions m' = exceptions m"
proof -
  let ?data = "encode_read_format (synthetic_data h v te tr)"
  note def = run [unfolded perfidious_handle_debug_inject_read_def Let_def]
  obtain t e0 k where t: "libc_tmpfile libc (kernel m) = (t, e0, k)" by (metis prod_cases3)
  obtain s where s: "t = Some s"
    using def t assms(2) by (cases t) (auto simp: sys_tmpfile_def)
  obtain w e1 k1 where w: "libc_fwrite libc (int s) ?data k = (w, e1, k1)" by (metis prod_cases3)
  have wt: w
    using def t s w assms(2) by (cases w) (auto simp: sys_tmpfile_def lib_call_def)
  obtain b e2 k2 where b: "libc_rewind libc (int s) k1 = (b, e2, k2)" by (metis prod_cases3)
  have bt: b
    using def t s w wt b assms(2) by (cases b) (auto simp: sys_tmpfile_def lib_call_def)
  obtain d e3 k3 where d: "libc_dup libc (int s) k2 = (d, e3, k3)" by (metis prod_cases3)
  obtain c e4 k4 where c: "libc_fclose libc (int s) k3 = (c, e4, k4)" by (metis prod_cases3)
  obtain x e5 k5 where x: "os_close os (leader_fd h) k4 = (x, e5, k5)" by (metis prod_cases3)
  obtain n where n: "d = Some n"
    using def t s w wt b bt d assms(2)
    by (cases d) (auto simp: sys_tmpfile_def lib_call_def sys_dup_def)
  have r: "h' = h\<lparr>metrics := replace_leader_fd (int n) (metrics h), enabled := False\<rparr>"
    "kernel m' = k5" "exceptions m' = exceptions m"
    using def t s w wt b bt d n c x
    by (auto simp: sys_tmpfile_def lib_call_def sys_dup_def sys_fclose_def sys_close_def)
  moreover have "leader_fd h' = int n" using r(1) assms(2) by (cases "metrics h") (simp_all add: leader_fd_def)
  ultimately show thesis using w wt b bt d n c x by (intro that) simp_all
qed

text \<open>C25 (injected_read_comes_back). Once the injection has replaced the leader, reading the handle reports the
  injected times, and the injected value under every name of the group; a value that PHP cannot represent raises an
  \<open>OverflowException\<close> instead. The file is only taken to read back as it was written.\<close>

theorem injected_read_comes_back:
  assumes "tmpfile_contract os libc" and "valid_handle h" and "named_group names h"
    and "perfidious_handle_debug_inject_read os libc v te tr h m = (r, h', m')"
    and "leader_fd h' \<noteq> leader_fd h" and "names \<noteq> []"
  shows "if uint v < 2 ^ 63
    then \<exists>m2. perfidious_handle_read_to_array_with_times os h' m' =
      Ret (Some (put_values (map (os_symtable_key os) names) (replicate (length names) v) [], te, tr), m2) \<and>
      exceptions m2 = exceptions m
    else \<exists>m2 e. perfidious_handle_read_to_array_with_times os h' m' = Ret (None, m2) \<and>
      exceptions m2 = e # exceptions m \<and> ex_class e = OverflowException"
proof -
  let ?data = "encode_read_format (synthetic_data h v te tr)" and ?n = "length (metrics h)"
  obtain s k e1 k1 e2 k2 d e3 k3 c e4 k4 x e5 where i:
    "libc_fwrite libc s ?data k = (True, e1, k1)"
    "libc_rewind libc s k1 = (True, e2, k2)" "libc_dup libc s k2 = (Some d, e3, k3)"
    "libc_fclose libc s k3 = (c, e4, k4)" "os_close os (leader_fd h) k4 = (x, e5, kernel m')"
    "h' = h\<lparr>metrics := replace_leader_fd (int d) (metrics h), enabled := False\<rparr>" "leader_fd h' = int d"
    "exceptions m' = exceptions m" by (rule injected [OF assms(4,5)])
  obtain ld ms where ms: "metrics h = ld # ms" using assms(2) by (cases "metrics h") (simp_all add: valid_handle_def)
  have h': "valid_handle h'" "named_group names h'" "metric_ids h' = metric_ids h" "length (metrics h') = ?n"
    using assms(2,3) i(6) ms by (simp_all add: valid_handle_def named_group_def metric_ids_def)
  have len: "length names = ?n - 1" using arg_cong [OF assms(3) [unfolded named_group_def], of length] by simp
  have size: "8 * int (length ?data) = 24 + 16 * int ?n" by (simp add: length_encode_data)
  have "\<exists>e k6. os_read os (int d) (8 * int (length ?data)) (kernel m') = ((8 * int (length ?data), ?data), e, k6)"
    by (rule assms(1) [unfolded tmpfile_contract_def, rule_format])
      (use i(1-5,7) assms(5) in auto)
  then obtain e k6 where rd: "os_read os (int d) (24 + 16 * int ?n) (kernel m') = ((24 + 16 * int ?n, ?data), e, k6)"
    unfolding size by blast
  have b: "uint (perfidious_handle_read_buffer_size h') = 24 + 16 * int ?n"
    "sint (perfidious_handle_read_buffer_size h') = 24 + 16 * int ?n"
    using h'(1,4) read_buffer_size_exact [of h'] by (simp_all add: valid_handle_def)
  let ?g = "synthetic_group ?n v te tr"
  let ?m1 = "called k6 e (EvRead (leader_fd h') (24 + 16 * int ?n) (24 + 16 * int ?n)) m'"
  have r: "sys_read os (leader_fd h') (uint (perfidious_handle_read_buffer_size h')) m' =
      ((sint (perfidious_handle_read_buffer_size h'), encode_read_format (group_report (metric_ids h') ?g)), ?m1)"
    by (simp add: b i(7) sys_read_def rd h'(3) synthetic_data_report)
  have "length (g_counts ?g) = length (metrics h')" by (simp add: synthetic_group_def h'(4))
  then obtain m2 where m2: "perfidious_handle_read_to_array_with_times os h' m' =
      Ret (map_option (\<lambda>arr. (arr, g_time_enabled ?g, g_time_running ?g))
        (watch_values (map (os_symtable_key os) names) ?g), m2)"
    "if watch_values (map (os_symtable_key os) names) ?g = None
     then \<exists>e. exceptions m2 = e # exceptions ?m1 \<and> ex_class e = OverflowException else m2 = ?m1"
    by (rule read_reported_group [OF r _ h'(1,2)])
  have tl: "tl (g_counts ?g) = replicate (length names) v" "length names \<noteq> 0"
    using len ms assms(6) by (auto simp: synthetic_group_def)
  then show ?thesis
    using m2 i(8) by (auto simp: watch_values_def synthetic_group_def list_all_iff split: if_splits)
qed

text \<open>A system whose descriptors from 100 on are files that hold the words last written.\<close>

record filed =
  f_next :: nat
  f_words :: "u64 list"

definition filed_os :: "filed linux_os" where
  "filed_os = \<lparr>
     os_perf_event_open = (\<lambda>attr pid cpu g k. (None, Some EINVAL, k)),
     os_ioctl = (\<lambda>fd r flags k. (True, None, k)),
     os_ioctl_id = (\<lambda>fd k. (None, Some EINVAL, k)),
     os_read = (\<lambda>fd n k. (if 100 \<le> fd then ((8 * int (length (f_words k)), f_words k), None, k)
                           else ((-1, []), Some EIO, k))),
     os_close = (\<lambda>fd k. (True, None, k)),
     os_dupfd_cloexec = (\<lambda>fd k. (None, Some EINVAL, k)),
     os_malloc = (\<lambda>n k. (True, k)),
     os_stream_from_fd = (\<lambda>fd k. (True, k)),
     os_gettid = (\<lambda>k. 77),
     os_getpid = (\<lambda>k. 77),
     os_hrtime = (\<lambda>k. (7, k)),
     os_strerror = (\<lambda>e. ''error ''),
     os_pfm_encoding = (\<lambda>s. (PFM_SUCCESS, demo_attr)),
     os_pfm_strerror = (\<lambda>e. ''not found''),
     os_symtable_key = KStr,
     os_pfm_initialize = PFM_SUCCESS,
     os_cap_get_proc = (\<lambda>k. (True, None, k)),
     os_cap_get_flag = (\<lambda>k. (Some False, None, k)),
     os_cap_free = (\<lambda>k. (True, None, k))\<rparr>"

definition filed_open :: "filed \<Rightarrow> nat option \<times> int option \<times> filed" where
  "filed_open k = (Some (100 + f_next k), None, k\<lparr>f_next := Suc (f_next k)\<rparr>)"

definition filed_libc :: "filed debug_libc" where
  "filed_libc = \<lparr>libc_tmpfile = filed_open, libc_fwrite = (\<lambda>s ws k. (True, None, k\<lparr>f_words := ws\<rparr>)),
     libc_rewind = (\<lambda>s k. (True, None, k)), libc_fclose = (\<lambda>s k. (True, None, k)),
     libc_dup = (\<lambda>s k. filed_open k)\<rparr>"

definition filed_machine :: "(filed, linux_event) machine" where
  "filed_machine = \<lparr>kernel = \<lparr>f_next = 0, f_words = []\<rparr>, errno = 0, trace = [], exceptions = [], warnings = [],
     error_mode = PERFIDIOUS_ERROR_MODE_THROW\<rparr>"

lemma filed_contract: "tmpfile_contract filed_os filed_libc"
  by (auto simp: tmpfile_contract_def filed_os_def filed_libc_def filed_open_def)

theorem injected_read_comes_back_witness:
  "\<exists>h' m' m2. perfidious_handle_debug_inject_read filed_os filed_libc 12 3 3 demo_handle filed_machine = ((), h', m') \<and>
     perfidious_handle_read_to_array_with_times filed_os h' m' =
       Ret (Some ([(KStr ''a'', ZLong 12), (KStr ''b'', ZLong 12)], 3, 3), m2)"
proof -
  obtain h' m' where i: "perfidious_handle_debug_inject_read filed_os filed_libc 12 3 3 demo_handle filed_machine = ((), h', m')"
    by (metis old.unit.exhaust prod_cases3)
  have "leader_fd (fst (snd (perfidious_handle_debug_inject_read filed_os filed_libc 12 3 3 demo_handle filed_machine))) = 101"
    by code_simp
  then have "leader_fd h' = 101" by (simp add: i)
  then have "leader_fd h' \<noteq> leader_fd demo_handle" by (simp add: demo_handle_def leader_fd_def)
  moreover have "valid_handle demo_handle" "named_group [''a'', ''b''] demo_handle"
    by (simp_all add: demo_handle_def valid_handle_def named_group_def PERFIDIOUS_MAX_EVENT_NAMES_def)
  moreover have "put_values (map (os_symtable_key filed_os) [''a'', ''b'']) (replicate (length [''a'', ''b'']) 12) []
      = [(KStr ''a'', ZLong 12), (KStr ''b'', ZLong 12)]"
    by (simp add: put_values_def filed_os_def)
  moreover have "uint (12 :: u64) < 2 ^ 63" "[''a'', ''b''] \<noteq> []" by simp_all
  ultimately show ?thesis
    using injected_read_comes_back [OF filed_contract _ _ i] i by metis
qed

end
