(* ===== verification/Sampler_Order.thy ===== *)
theory Sampler_Order
  imports Sampler_Properties
begin

text \<open>
  Samples of one sampler are ordered by the time they were taken: on a platform whose native
  totals never fall, no sample is behind an earlier one in any metric, whatever a script does in
  between. So \<open>since\<close> (\<open>src/sampler.c\<close>) never finds a counter that moved backwards between two samples
  of a Linux sampler, which is the composition of the portable code with \<open>src/linux/sampler.c\<close>.
\<close>

section \<open>The order of samples\<close>

text \<open>Identities of samplers are their own; a sample is never ahead of the open sampler it came from, nor of
  a later sample from it.\<close>

definition sampler_bounds ::
  "('s \<Rightarrow> snapshot) \<Rightarrow> 's perfidious_sampler_obj \<Rightarrow> perfidious_sample_obj \<Rightarrow> bool" where
  "sampler_bounds level obj sample \<longleftrightarrow>
     sa_metrics sample = so_metrics obj \<and>
     (\<forall>s. so_sampler obj = Some s \<longrightarrow>
       (\<forall>a \<in> collected (so_metrics obj). sa_values sample a \<le> level s a - so_origin obj a))"

definition above_origin :: "('s \<Rightarrow> snapshot) \<Rightarrow> 's perfidious_sampler_obj \<Rightarrow> bool" where
  "above_origin level obj \<longleftrightarrow>
     (\<forall>s. so_sampler obj = Some s \<longrightarrow> (\<forall>a \<in> collected (so_metrics obj). so_origin obj a \<le> level s a))"

definition not_behind :: "perfidious_sample_obj \<Rightarrow> perfidious_sample_obj \<Rightarrow> bool" where
  "not_behind late early \<longleftrightarrow>
     sa_metrics late = sa_metrics early \<and>
     (\<forall>a \<in> collected (sa_metrics late). sa_values early a \<le> sa_values late a)"

definition orderly :: "('s \<Rightarrow> snapshot) \<Rightarrow> ('m, 's) sampler_world \<Rightarrow> bool" where
  "orderly level w \<longleftrightarrow>
     (\<forall>i j obj obj'. samplers w i = Some obj \<longrightarrow> samplers w j = Some obj' \<longrightarrow>
        so_identity obj = so_identity obj' \<longrightarrow> i = j) \<and>
     (\<forall>i obj. samplers w i = Some obj \<longrightarrow> above_origin level obj) \<and>
     (\<forall>i j obj sample. samplers w i = Some obj \<longrightarrow> samples w j = Some sample \<longrightarrow>
        sa_identity sample = so_identity obj \<longrightarrow> sampler_bounds level obj sample) \<and>
     (\<forall>i j early late. samples w i = Some early \<longrightarrow> samples w j = Some late \<longrightarrow>
        sa_identity early = sa_identity late \<longrightarrow> i < j \<longrightarrow> not_behind late early)"

lemma orderlyD:
  assumes "orderly level w"
  shows "samplers w i = Some obj \<Longrightarrow> samplers w j = Some obj' \<Longrightarrow> so_identity obj = so_identity obj' \<Longrightarrow> i = j"
    and "samplers w i = Some obj \<Longrightarrow> above_origin level obj"
    and "samplers w i = Some obj \<Longrightarrow> samples w j = Some sample \<Longrightarrow> sa_identity sample = so_identity obj \<Longrightarrow>
      sampler_bounds level obj sample"
    and "samples w i = Some early \<Longrightarrow> samples w j = Some late \<Longrightarrow> sa_identity early = sa_identity late \<Longrightarrow>
      i < j \<Longrightarrow> not_behind late early"
  using assms unfolding orderly_def by blast+

lemma orderlyI:
  assumes "\<And>i j obj obj'. samplers w i = Some obj \<Longrightarrow> samplers w j = Some obj' \<Longrightarrow>
      so_identity obj = so_identity obj' \<Longrightarrow> i = j"
    and "\<And>i obj. samplers w i = Some obj \<Longrightarrow> above_origin level obj"
    and "\<And>i j obj sample. samplers w i = Some obj \<Longrightarrow> samples w j = Some sample \<Longrightarrow>
      sa_identity sample = so_identity obj \<Longrightarrow> sampler_bounds level obj sample"
    and "\<And>i j early late. samples w i = Some early \<Longrightarrow> samples w j = Some late \<Longrightarrow>
      sa_identity early = sa_identity late \<Longrightarrow> i < j \<Longrightarrow> not_behind late early"
  shows "orderly level w"
  using assms unfolding orderly_def by blast

lemma orderly_cong: "samplers w' = samplers w \<Longrightarrow> samples w' = samples w \<Longrightarrow> orderly level w' = orderly level w"
  by (simp add: orderly_def)

text \<open>Destroying objects and closing samplers keeps the order.\<close>

lemma orderly_fewer:
  assumes "orderly level w"
    and s: "\<And>i obj. samplers w' i = Some obj \<Longrightarrow> \<exists>obj0. samplers w i = Some obj0 \<and>
      (obj = obj0 \<or> obj = obj0\<lparr>so_sampler := None\<rparr>)"
    and a: "\<And>i sample. samples w' i = Some sample \<Longrightarrow> samples w i = Some sample"
  shows "orderly level w'"
proof (rule orderlyI)
  note d = orderlyD [OF assms(1)]
  fix i j obj obj'
  assume "samplers w' i = Some obj" "samplers w' j = Some obj'" "so_identity obj = so_identity obj'"
  then show "i = j" using s [of i obj] s [of j obj'] d(1) by fastforce
next
  note d = orderlyD [OF assms(1)]
  fix i obj assume "samplers w' i = Some obj"
  then show "above_origin level obj" using s [of i obj] d(2) by (fastforce simp: above_origin_def)
next
  note d = orderlyD [OF assms(1)]
  fix i j obj sample
  assume "samplers w' i = Some obj" "samples w' j = Some sample" "sa_identity sample = so_identity obj"
  then show "sampler_bounds level obj sample"
    using s [of i obj] a [of j sample] d(3) by (fastforce simp: sampler_bounds_def)
next
  note d = orderlyD [OF assms(1)]
  fix i j early late
  assume "samples w' i = Some early" "samples w' j = Some late" "sa_identity early = sa_identity late" "i < j"
  then show "not_behind late early" using a d(4) by blast
qed

text \<open>A new sampler has an identity of its own and starts at its origin.\<close>

lemma orderly_new_sampler:
  assumes o: "orderly level w" and c: "counted w" and none: "samplers w i0 = None"
    and obj0: "so_identity obj0 = Some a" "references w a = 0" "above_origin level obj0"
    and w': "samplers w' = (samplers w)(i0 \<mapsto> obj0)" "samples w' = samples w"
  shows "orderly level w'"
proof (rule orderlyI)
  note d = orderlyD [OF o]
  have other: "so_identity obj \<noteq> Some a" if "samplers w i = Some obj" for i obj
    using references_pos_sampler [OF c that] obj0(2) by fastforce
  fix i j obj obj'
  assume "samplers w' i = Some obj" "samplers w' j = Some obj'" "so_identity obj = so_identity obj'"
  then show "i = j" using other d(1) obj0(1) by (auto simp: w' split: if_splits)
next
  note d = orderlyD [OF o]
  fix i obj assume "samplers w' i = Some obj"
  then show "above_origin level obj" using d(2) obj0(3) by (auto simp: w' split: if_splits)
next
  note d = orderlyD [OF o]
  have other: "sa_identity sample \<noteq> Some a" if "samples w j = Some sample" for j sample
    using references_pos_sample [OF c that] obj0(2) by fastforce
  fix i j obj sample
  assume "samplers w' i = Some obj" "samples w' j = Some sample" "sa_identity sample = so_identity obj"
  then show "sampler_bounds level obj sample" using other d(3) obj0(1) by (auto simp: w' split: if_splits)
next
  note d = orderlyD [OF o]
  fix i j early late
  assume "samples w' i = Some early" "samples w' j = Some late" "sa_identity early = sa_identity late" "i < j"
  then show "not_behind late early" using d(4) by (simp add: w')
qed

text \<open>The native sampler advances.\<close>

lemma orderly_advance:
  assumes o: "orderly level w" and i: "samplers w this = Some obj" "so_sampler obj = Some s"
    and up: "\<And>a. level s a \<le> level s1 a"
    and w': "samplers w' = (samplers w)(this \<mapsto> obj\<lparr>so_sampler := Some s1\<rparr>)" "samples w' = samples w"
  shows "orderly level w'"
proof (rule orderlyI)
  note d = orderlyD [OF o]
  fix i j ob ob'
  assume "samplers w' i = Some ob" "samplers w' j = Some ob'" "so_identity ob = so_identity ob'"
  then show "i = j" using d(1) i(1) by (fastforce simp: w' split: if_splits)
next
  note d = orderlyD [OF o]
  fix i ob assume "samplers w' i = Some ob"
  then show "above_origin level ob"
    using d(2) assms(2) i(2) up by (fastforce simp: w' above_origin_def split: if_splits intro: order_trans)
next
  note d = orderlyD [OF o]
  fix j k ob sample
  assume s: "samplers w' j = Some ob" "samples w' k = Some sample" "sa_identity sample = so_identity ob"
  show "sampler_bounds level ob sample"
  proof (cases "j = this")
    case False
    then show ?thesis using s d(3) by (simp add: w')
  next
    case True
    then have ob: "ob = obj\<lparr>so_sampler := Some s1\<rparr>" using s(1) by (simp add: w')
    have b: "sampler_bounds level obj sample" using d(3) [OF i(1)] s(2,3) ob by (simp add: w')
    have o0: "\<forall>a \<in> collected (so_metrics obj). so_origin obj a \<le> level s a"
      using d(2) [OF i(1)] i(2) by (simp add: above_origin_def)
    have "sa_values sample a \<le> level s1 a - so_origin obj a" if "a \<in> collected (so_metrics obj)" for a
    proof -
      have "sa_values sample a \<le> level s a - so_origin obj a" using b that i(2) by (simp add: sampler_bounds_def)
      also have "\<dots> \<le> level s1 a - so_origin obj a"
        using o0 that up [of a] by (simp add: word_le_nat_alt unat_sub order_trans [of _ "unat (level s a)"])
      finally show ?thesis .
    qed
    with b ob show ?thesis by (simp add: sampler_bounds_def)
  qed
next
  note d = orderlyD [OF o]
  fix i j early late
  assume "samples w' i = Some early" "samples w' j = Some late" "sa_identity early = sa_identity late" "i < j"
  then show "not_behind late early" using d(4) by (simp add: w')
qed

text \<open>A new sample of the present level.\<close>

lemma orderly_new_sample:
  assumes o: "orderly level w" and i: "samplers w this = Some obj" "so_sampler obj = Some s"
    and free: "\<And>i. n \<le> i \<Longrightarrow> samples w i = None"
    and sa: "sa_identity sa = so_identity obj" "sa_metrics sa = so_metrics obj"
      "\<And>a. a \<in> collected (so_metrics obj) \<Longrightarrow> sa_values sa a = level s a - so_origin obj a"
    and w': "samplers w' = samplers w" "samples w' = (samples w)(n \<mapsto> sa)"
  shows "orderly level w'"
proof (rule orderlyI)
  note d = orderlyD [OF o]
  fix i j ob ob'
  assume "samplers w' i = Some ob" "samplers w' j = Some ob'" "so_identity ob = so_identity ob'"
  then show "i = j" using d(1) by (simp add: w')
next
  note d = orderlyD [OF o]
  fix i ob assume "samplers w' i = Some ob"
  then show "above_origin level ob" using d(2) by (simp add: w')
next
  note d = orderlyD [OF o]
  fix j k ob sample
  assume s: "samplers w' j = Some ob" "samples w' k = Some sample" "sa_identity sample = so_identity ob"
  show "sampler_bounds level ob sample"
  proof (cases "k = n")
    case False
    then show ?thesis using s d(3) by (simp add: w')
  next
    case True
    then have "sample = sa" using s(2) by (simp add: w')
    then have "j = this" using d(1) [of j ob this obj] i(1) s sa(1) by (simp add: w')
    then show ?thesis using \<open>sample = sa\<close> s(1) i sa by (simp add: sampler_bounds_def w')
  qed
next
  note d = orderlyD [OF o]
  fix k j early late
  assume s: "samples w' k = Some early" "samples w' j = Some late" "sa_identity early = sa_identity late" "k < j"
  have "k \<noteq> n" using s(2,4) free [of j] by (auto simp: w' split: if_splits)
  then have e: "samples w k = Some early" using s(1) by (simp add: w')
  show "not_behind late early"
  proof (cases "j = n")
    case False
    then show ?thesis using s e d(4) by (simp add: w')
  next
    case True
    then have l: "late = sa" using s(2) by (simp add: w')
    have "sampler_bounds level obj early" using d(3) [OF i(1) e] s(3) l sa(1) by simp
    then show ?thesis using l i(2) sa by (simp add: not_behind_def sampler_bounds_def)
  qed
qed

section \<open>What the methods change\<close>

lemma sample_free_shape:
  "perfidious_sample_obj_free i w = Ret w' \<Longrightarrow>
     samplers w' = samplers w \<and> samples w' = (samples w)(i := None)"
  by (auto simp: perfidious_sample_obj_free_def perfidious_sample_identity_release_def
      split: option.splits)

lemma sampler_free_shape:
  "perfidious_sampler_obj_free be i w = Ret w' \<Longrightarrow>
     samplers w' = (samplers w)(i := None) \<and> samples w' = samples w"
  by (auto simp: perfidious_sampler_obj_free_def perfidious_sample_identity_release_def close_native_def Let_def
      fun_upd_def split: option.splits if_splits)

lemma close_native_shape:
  "samples (close_native be i w) = samples w \<and>
   (samplers (close_native be i w) = samplers w \<or>
    (\<exists>obj. samplers w i = Some obj \<and> samplers (close_native be i w) = (samplers w)(i \<mapsto> obj\<lparr>so_sampler := None\<rparr>)))"
  by (auto simp: close_native_def split: option.split)

lemma retain_shape: "retain_identity a w = Ret w' \<Longrightarrow> samplers w' = samplers w \<and> samples w' = samples w \<and> fresh w' = fresh w"
  by (auto simp: retain_identity_def split: option.splits)

lemma open_sampler_shape:
  assumes run: "open_sampler be v ord scope w = Some (Ret (r, w'))" and none: "samplers w (fresh w) = None"
  shows "samples w' = samples w \<and>
    (samplers w' = samplers w \<or>
     (\<exists>s0 m0 s origin m obj. platform_sampler_read be s0 m0 = Some (Some origin, s, m) \<and>
        samplers w' = (samplers w)(fresh w \<mapsto> obj) \<and> so_sampler obj = Some s \<and> so_origin obj = origin \<and>
        so_identity obj = Some (Suc (fresh w))))"
proof -
  have upd: "(samplers w)(fresh w := None) = samplers w" using none by auto
  have give: "samples w1 = samples w \<and> samplers w1 = samplers w"
    if "perfidious_sampler_obj_free be (fresh w) (w0\<lparr>samplers := (samplers w)(fresh w \<mapsto> ob)\<rparr>) = Ret w1"
      "samples w0 = samples w" for w0 w1 ob
    using sampler_free_shape [OF that(1)] that(2) upd by simp
  obtain so m1 where op: "platform_sampler_open be v scope (engine w) = (so, m1)" by fastforce
  show ?thesis
  proof (cases so)
    case None
    then show ?thesis
      using run op
      by (auto simp: open_sampler_unfold Let_def cbind_Ret_iff upd dest!: sampler_free_shape)
  next
    case (Some s)
    obtain ro s1 m2 where rd: "platform_sampler_read be s m1 = Some (ro, s1, m2)"
      using run op Some by (auto simp: open_sampler_unfold Let_def split: option.splits)
    show ?thesis
    proof (cases ro)
      case None
      then show ?thesis
        using run op Some rd
        by (auto simp: open_sampler_unfold Let_def cbind_Ret_iff upd dest!: sampler_free_shape)
    next
      case origin: (Some origin)
      obtain t m3 where "hrtime_current be m2 = (t, m3)" by fastforce
      then obtain obj where "samplers w' = (samplers w)(fresh w \<mapsto> obj)" "samples w' = samples w"
        "so_sampler obj = Some s1" "so_origin obj = origin" "so_identity obj = Some (Suc (fresh w))"
        using run op Some rd origin that [of "\<lparr>so_sampler = Some s1, so_identity = Some (Suc (fresh w)),
          so_origin = origin, so_time_origin_ns = t, so_metrics = v, so_metric_order = ord\<rparr>"]
        by (auto simp: open_sampler_unfold Let_def)
      with rd origin show ?thesis by blast
    qed
  qed
qed

lemma open_shape:
  assumes run: "PerfidiousSampler_open be vals scope w = Some (Ret (r, w'))" and none: "samplers w (fresh w) = None"
  shows "samples w' = samples w \<and>
    (samplers w' = samplers w \<or>
     (\<exists>s0 m0 s origin m obj. platform_sampler_read be s0 m0 = Some (Some origin, s, m) \<and>
        samplers w' = (samplers w)(fresh w \<mapsto> obj) \<and> so_sampler obj = Some s \<and> so_origin obj = origin \<and>
        so_identity obj = Some (Suc (fresh w))))"
proof (cases "\<exists>v ord sc m. open_sampler be v ord sc (w\<lparr>engine := m\<rparr>) = Some (Ret (r, w'))")
  case True
  then obtain v ord sc m where "open_sampler be v ord sc (w\<lparr>engine := m\<rparr>) = Some (Ret (r, w'))" by blast
  from open_sampler_shape [OF this] none show ?thesis by simp
next
  case False
  then show ?thesis
    using run by (auto simp: PerfidiousSampler_open_def throwing_def Let_def split: if_splits option.splits prod.splits)
qed

lemma read_shape:
  assumes run: "PerfidiousSampler_read be this w = Some (Ret (r, w'))" and i: "samplers w this = Some obj"
    and none: "samples w (fresh w) = None"
  obtains (same) "samplers w' = samplers w" "samples w' = samples w"
    | (moved) s ro s1 m1 where "so_sampler obj = Some s" "platform_sampler_read be s (engine w) = Some (ro, s1, m1)"
        "samplers w' = (samplers w)(this \<mapsto> obj\<lparr>so_sampler := Some s1\<rparr>)" "samples w' = samples w"
    | (sampled) s s1 m1 now sa where "so_sampler obj = Some s"
        "platform_sampler_read be s (engine w) = Some (Some now, s1, m1)"
        "samplers w' = (samplers w)(this \<mapsto> obj\<lparr>so_sampler := Some s1\<rparr>)"
        "samples w' = (samples w)(fresh w \<mapsto> sa)" "sa_identity sa = so_identity obj"
        "sa_metrics sa = so_metrics obj" "\<forall>a \<in> collected (so_metrics obj). sa_values sa a = now a - so_origin obj a"
proof (cases "so_sampler obj")
  case None
  then show thesis using run i by (intro same) (auto simp: PerfidiousSampler_read_unfold throwing_def)
next
  case (Some s)
  have upd: "(samples w)(fresh w := None) = samples w" using none by auto
  obtain ro s1 m1 where rd: "platform_sampler_read be s (engine w) = Some (ro, s1, m1)"
    using run i Some by (auto simp: PerfidiousSampler_read_unfold split: option.splits)
  note step = run [unfolded PerfidiousSampler_read_unfold i Some option.case rd prod.case Let_def]
  show thesis
  proof (cases ro)
    case None
    then show thesis using step by (intro moved [OF Some rd]) auto
  next
    case cur: (Some now)
    obtain t m2 where h: "hrtime_current be m1 = (t, m2)" by fastforce
    let ?w2 = "w\<lparr>samplers := (samplers w)(this \<mapsto> obj\<lparr>so_sampler := Some s1\<rparr>), engine := m2\<rparr>"
    show thesis
    proof (cases "t < so_time_origin_ns obj")
      case True
      then show thesis using step cur h by (intro moved [OF Some rd]) (auto simp: throwing_def)
    next
      case False
      obtain w3 where w3: "retain_identity (so_identity obj) ?w2 = Ret w3"
        using step cur h False by (cases "retain_identity (so_identity obj) ?w2") simp_all
      note sh = retain_shape [OF w3]
      show thesis
      proof (cases "sample_values all_metrics (so_metrics obj) (so_origin obj) now (\<lambda>_. 0)")
        case (Inl e)
        then show thesis
          using step cur h False w3 sh upd
          by (intro moved [OF Some rd]; cases e)
            (auto simp: cbind_Ret_iff throwing_def dest!: sample_free_shape)
      next
        case (Inr vals)
        let ?sa = "\<lparr>sa_identity = so_identity obj, sa_values = vals, sa_time_ns = t - so_time_origin_ns obj,
          sa_metrics = so_metrics obj\<rparr>"
        have "\<forall>a \<in> collected (so_metrics obj). vals a = now a - so_origin obj a"
          using Inr by (simp add: sample_values_all)
        then show thesis
          using step cur h False w3 sh Inr
          by (intro sampled [OF Some rd [unfolded cur], of ?sa]) auto
      qed
    qed
  qed
qed

lemma orderly_looks: "only_looks w w' \<Longrightarrow> orderly level w \<Longrightarrow> orderly level w'"
  using orderly_cong [of w' w level] by (simp add: only_looks_def)

section \<open>Platforms whose totals never fall\<close>

locale monotone_sampler = platform_sampler +
  fixes level :: "'d \<Rightarrow> snapshot"
  assumes read_level: "platform_sampler_read be s m = Some (r, s', m') \<Longrightarrow>
      (\<forall>a. level s a \<le> level s' a) \<and> (\<forall>now. r = Some now \<longrightarrow> now = level s')"
begin

lemma open_orderly:
  assumes o: "orderly level w" and c: "counted w"
    and run: "PerfidiousSampler_open be vals scope w = Some (Ret (r, w'))"
  shows "orderly level w'"
proof -
  have none: "samplers w (fresh w) = None" using counted_fresh [OF c] by simp
  from open_shape [OF run none] consider (same) "samples w' = samples w" "samplers w' = samplers w"
    | (new) s0 m0 s origin m obj where "samples w' = samples w"
        "platform_sampler_read be s0 m0 = Some (Some origin, s, m)"
        "samplers w' = (samplers w)(fresh w \<mapsto> obj)" "so_sampler obj = Some s" "so_origin obj = origin"
        "so_identity obj = Some (Suc (fresh w))"
    by blast
  then show ?thesis
  proof cases
    case same
    then show ?thesis using o by (simp add: orderly_cong [of w' w level])
  next
    case new
    have "above_origin level obj" using read_level [OF new(2)] new(4,5) by (simp add: above_origin_def)
    moreover have "references w (Suc (fresh w)) = 0" using counted_fresh [OF c] by simp
    ultimately show ?thesis
      using orderly_new_sampler [OF o c none new(6) _ _ new(3,1)] by blast
  qed
qed

lemma read_orderly:
  assumes o: "orderly level w" and c: "counted w" and i: "samplers w this = Some obj"
    and run: "PerfidiousSampler_read be this w = Some (Ret (r, w'))"
  shows "orderly level w'"
proof -
  have none: "samples w (fresh w) = None" using counted_fresh [OF c] by simp
  show ?thesis
    using run i none
  proof (cases rule: read_shape)
    case same
    then show ?thesis using o by (simp add: orderly_cong [of w' w level])
  next
    case (moved s ro s1 m1)
    then show ?thesis using read_level [OF moved(2)] by (intro orderly_advance [OF o i moved(1) _ moved(3,4)]) simp
  next
    case (sampled s s1 m1 now sa)
    let ?w1 = "w\<lparr>samplers := (samplers w)(this \<mapsto> obj\<lparr>so_sampler := Some s1\<rparr>)\<rparr>"
    have l: "\<And>a. level s a \<le> level s1 a" "now = level s1" using read_level [OF sampled(2)] by simp_all
    let ?obj = "obj\<lparr>so_sampler := Some s1\<rparr>"
    have o1: "orderly level ?w1" using l(1) by (rule orderly_advance [OF o i sampled(1)]) simp_all
    have "samplers ?w1 this = Some ?obj" "so_sampler ?obj = Some s1" by simp_all
    moreover have "samples ?w1 k = None" if "fresh w \<le> k" for k using counted_fresh [OF c that] by simp
    ultimately show ?thesis
      by (rule orderly_new_sample [OF o1, where sa = sa]) (use sampled(3-7) l(2) in auto)
  qed
qed

lemma call_orderly:
  assumes o: "orderly level w" and c: "counted w" and alive: "objects_alive f w"
    and run: "run_sampler_call be f w = Some (Ret w')"
  shows "orderly level w'"
proof (cases f)
  case (OpenSampler vals scope)
  then obtain r where "PerfidiousSampler_open be vals scope w = Some (Ret (r, w'))"
    using run by (auto simp: cbind_Ret_iff)
  then show ?thesis by (rule open_orderly [OF o c])
next
  case (ReadSampler i)
  then obtain r obj where "PerfidiousSampler_read be i w = Some (Ret (r, w'))" "samplers w i = Some obj"
    using run alive by (auto simp: cbind_Ret_iff)
  then show ?thesis by (intro read_orderly [OF o c])
next
  case (CloseSampler i)
  then have w': "w' = close_native be i w" using run by (auto simp: PerfidiousSampler_close_def split: option.splits)
  show ?thesis
    using close_native_shape [of be i w] unfolding w' by (intro orderly_fewer [OF o]) (auto split: if_splits)
next
  case (DestroySampler i)
  then show ?thesis
    using run sampler_free_shape [of be i w w'] by (intro orderly_fewer [OF o]) (auto split: if_splits)
next
  case (DestroySample i)
  then show ?thesis
    using run sample_free_shape [of i w w'] by (intro orderly_fewer [OF o]) (auto split: if_splits)
next
  case (DestroyDelta i)
  then show ?thesis using run o orderly_cong [of w' w level] by auto
next
  case (UnitOf z)
  then show ?thesis using run orderly_looks [OF unit_looks o] by auto
next
  case (MetricsOf i)
  then show ?thesis using run o by (auto simp: PerfidiousSampler_metrics_def cbind_Ret_iff split: option.splits)
next
  case (ValueOf i z)
  then obtain obj where "samples w i = Some obj"
    using run by (auto simp: PerfidiousSample_value_def split: option.splits)
  then have "w' = snd (perfidious_sample_value z (sa_metrics obj) (sa_values obj) w)"
    using run ValueOf by (auto simp: PerfidiousSample_value_def cbind_Ret_iff split: prod.splits)
  then show ?thesis using orderly_looks [OF sample_value_looks o] by blast
next
  case (DeltaValueOf i z)
  then obtain obj where "deltas w i = Some obj"
    using run by (auto simp: PerfidiousSampleDelta_value_def split: option.splits)
  then have "w' = snd (perfidious_sample_value z (de_metrics obj) (de_values obj) w)"
    using run DeltaValueOf by (auto simp: PerfidiousSampleDelta_value_def cbind_Ret_iff split: prod.splits)
  then show ?thesis using orderly_looks [OF sample_value_looks o] by blast
next
  case (SinceOf i j)
  then obtain r where "PerfidiousSample_since i j w = Ret (r, w')" using run by (auto simp: cbind_Ret_iff)
  from orderly_looks [OF since_looks [OF this] o] show ?thesis .
qed

lemma reachable_orderly:
  assumes "sampler_reachable be w0 w" "world_ok B w0" "orderly level w0"
  shows "world_ok B w \<and> orderly level w"
  using assms(1)
proof induction
  case start
  then show ?case using assms(2,3) by simp
next
  case (move w w')
  have "world_ok B w'" using sampler_step_ok [OF move.hyps(2)] move.IH by auto
  moreover have "orderly level w'"
    using move.hyps(2)
  proof (rule sampler_stepE)
    fix f
    assume "objects_alive f w" "run_sampler_call be f w = Some (Ret w')"
    then show ?thesis using call_orderly move.IH by blast
  next
    assume "Ret w' = Ret (w\<lparr>engine := (engine w)\<lparr>exceptions := []\<rparr>\<rparr>)"
    then show ?thesis using move.IH orderly_cong [of w' w level] by simp
  qed
  ultimately show ?case by simp
qed

end

section \<open>Linux\<close>

lemma advance_counter_level: "advance_counter r c = Inr c' \<Longrightarrow> c_total c \<le> c_total c'"
proof -
  assume a: "advance_counter r c = Inr c'"
  then have v: "interval_valid (c_previous c) r" using advance_counter_invalid [of c r] by fastforce
  then have f: "unat (c_total c) + interval_value (c_previous c) r < 2 ^ 64"
    and t: "c_total c' = c_total c + of_nat (interval_value (c_previous c) r)"
    using a by (auto simp: advance_counter_valid split: if_splits)
  have "unat (c_total c') = unat (c_total c) + interval_value (c_previous c) r"
    using f by (simp add: t unat_word_ariths unat_of_nat)
  then show ?thesis by (simp add: word_le_nat_alt)
qed

definition linux_level :: "linux_platform_sampler \<Rightarrow> snapshot" where
  "linux_level s = (\<lambda>a. c_total (ls_counters s a))"

lemma linux_read_level:
  assumes "linux_sampler_read os s m = Some (r, s', m')"
  shows "(\<forall>a. linux_level s a \<le> linux_level s' a) \<and> (\<forall>now. r = Some now \<longrightarrow> now = linux_level s')"
proof (cases r)
  case None
  then have "s' = s" using assms by (auto simp: linux_sampler_read_def split: option.splits if_splits)
  with None show ?thesis by simp
next
  case (Some now)
  obtain result where rc: "read_counters os all_metrics (ls_counters s) m = Some (Some result, m')"
    and s': "s' = s\<lparr>ls_counters := result\<rparr>" "now = (\<lambda>a. c_total (result a))"
    using assms Some by (auto simp: linux_sampler_read_def split: option.splits if_splits)
  have "c_total (ls_counters s a) \<le> c_total (result a)" for a
    using read_counters_advance [OF rc distinct_all_metrics, rule_format, of a] advance_counter_level
    by (auto split: if_splits)
  with Some s' show ?thesis by (simp add: linux_level_def)
qed

interpretation linux_order: monotone_sampler "linux_backend os" "\<lambda>m. live (trace m)" linux_owned linux_level
proof unfold_locales
  fix s m r s' m'
  assume "platform_sampler_read (linux_backend os) s m = Some (r, s', m' :: ('a, 'b) lmachine)"
  then show "(\<forall>a. linux_level s a \<le> linux_level s' a) \<and> (\<forall>now. r = Some now \<longrightarrow> now = linux_level s')"
    by (intro linux_read_level) (simp add: linux_backend_def)
qed

text \<open>C7 (later_sample_is_never_behind). On Linux, of two samples of the same sampler that are alive in any
  reachable world, the one read later is not behind in any metric, however often the sampler was read, failed,
  was closed or destroyed in between: \<open>since\<close> accepts the pair and measures the time between them, as
  long as the monotonic clock did not move back between the two reads and the time fits in a PHP integer.\<close>

theorem later_sample_is_never_behind:
  assumes "no_samplers w0" and "sampler_reachable (linux_backend os) w0 w"
    and "samples w i = Some early" and "samples w j = Some late" and "sa_identity early = sa_identity late"
    and "i < j" and "sa_time_ns early \<le> sa_time_ns late"
    and "uint (sa_time_ns late) - uint (sa_time_ns early) < 2 ^ 63"
  shows "\<exists>d w' delta. PerfidiousSample_since j i w = Ret (Some d, w') \<and> deltas w' d = Some delta \<and>
    de_elapsedTimeNs delta = uint (sa_time_ns late) - uint (sa_time_ns early) \<and>
    (\<forall>a \<in> collected (sa_metrics late).
       unat (sa_values early a) + unat (de_values delta a) = unat (sa_values late a))"
proof -
  have "orderly linux_level w0" using assms(1) by (simp add: orderly_def no_samplers_def)
  moreover have "counted w0 \<and> accounted (\<lambda>m. live (trace m)) linux_owned (live (trace (engine w0))) w0"
    using no_samplers_counted [OF assms(1)] no_samplers_accounted [OF assms(1)] by blast
  ultimately have "orderly linux_level w" using linux_order.reachable_orderly [OF assms(2)] by blast
  from orderlyD(4) [OF this assms(3-6)] have nb: "not_behind late early" .
  then have c: "comparable late early" using assms(5,7,8) by (simp add: comparable_def not_behind_def)
  have "unat (sa_values early a) + unat (sa_values late a - sa_values early a) = unat (sa_values late a)"
    if "a \<in> collected (sa_metrics late)" for a
    using nb that by (simp add: not_behind_def unat_sub word_le_nat_alt)
  with since_comparable [OF assms(4,3) c] show ?thesis by simp
qed

lemma room_if_few:
  assumes "finite (dom (samplers w))" "finite (dom (samples w))"
    and "card (dom (samplers w)) + card (dom (samples w)) < 1000"
  shows "room_to_share w"
proof -
  have few: "total_over (\<lambda>obj. of_bool (P obj) :: nat) f \<le> card (dom f)" for P f
    unfolding total_over_def by (rule order_trans [OF sum_mono [where g = "\<lambda>_. 1"]]) simp_all
  have "Suc (references w a) < 2 ^ 32" for a
    using assms(3) few [of "\<lambda>obj. so_identity obj = Some a" "samplers w"]
      few [of "\<lambda>obj. sa_identity obj = Some a" "samples w"]
    by (simp add: references_def)
  then show ?thesis unfolding room_to_share_def by blast
qed

text \<open>The open sampler read once, and read again.\<close>

definition read_again ::
  "((demo, linux_event) machine, linux_platform_sampler) sampler_world
    \<Rightarrow> ((demo, linux_event) machine, linux_platform_sampler) sampler_world" where
  "read_again w =
     (case PerfidiousSampler_read (linux_backend ticking_os) 0 w of Some (Ret (r, w')) \<Rightarrow> w' | _ \<Rightarrow> w)"

definition demo_read1 :: "((demo, linux_event) machine, linux_platform_sampler) sampler_world" where
  "demo_read1 = read_again demo_opened"

definition demo_read2 :: "((demo, linux_event) machine, linux_platform_sampler) sampler_world" where
  "demo_read2 = read_again demo_read1"

declare read_uninterrupted.simps [code]

lemma demo_reads:
  "case PerfidiousSampler_read (linux_backend ticking_os) 0 demo_opened of
     Some (Ret (r, w)) \<Rightarrow> r = Some 2 \<and> exceptions (engine w) = [] | _ \<Rightarrow> False"
  "case PerfidiousSampler_read (linux_backend ticking_os) 0 demo_read1 of
     Some (Ret (r, w)) \<Rightarrow> r = Some 3 | _ \<Rightarrow> False"
  by code_simp+

lemma demo_read_samples:
  "(case (samples demo_read2 2, samples demo_read2 3) of
      (Some e, Some l) \<Rightarrow> sa_identity e = sa_identity l \<and> sa_time_ns e = 0 \<and> sa_time_ns l = 0 \<and>
        sa_values e PERFIDIOUS_METRIC_CPU_TIME = 20 \<and> sa_values l PERFIDIOUS_METRIC_CPU_TIME = 40 \<and>
        sa_metrics l = PERFIDIOUS_METRIC_MASK PERFIDIOUS_METRIC_CPU_TIME
    | _ \<Rightarrow> False)"
  by code_simp

lemma demo_opened_doms: "dom (samplers demo_opened) = {0}" "samples demo_opened = Map.empty" "fresh demo_opened = 2"
  "exceptions (engine demo_opened) = []"
  by (simp_all add: demo_opened_def open_eval read_eval demo_eval)

lemma demo_read_steps:
  "sampler_step (linux_backend ticking_os) demo_opened (Ret demo_read1)"
  "sampler_step (linux_backend ticking_os) demo_read1 (Ret demo_read2)"
proof -
  obtain obj where i: "samplers demo_opened 0 = Some obj" using demo_opened_doms(1) by auto
  have r1: "PerfidiousSampler_read (linux_backend ticking_os) 0 demo_opened = Some (Ret (Some 2, demo_read1))"
    and ex: "exceptions (engine demo_read1) = []"
    using demo_reads(1) by (auto simp: demo_read1_def read_again_def split: option.splits cval.splits)
  have r2: "PerfidiousSampler_read (linux_backend ticking_os) 0 demo_read1 = Some (Ret (Some 3, demo_read2))"
    using demo_reads(2) by (auto simp: demo_read2_def read_again_def split: option.splits cval.splits)
  have none: "samples demo_opened (fresh demo_opened) = None" by (simp add: demo_opened_doms)
  have d: "dom (samplers demo_read1) = {0} \<and> dom (samples demo_read1) \<subseteq> {2}"
    using r1 i none by (cases rule: read_shape) (use demo_opened_doms in auto)
  have "card (dom (samples demo_read1)) \<le> card {2 :: nat}" using d by (intro card_mono) auto
  then have room1: "room_to_share demo_read1"
    using d by (intro room_if_few) (auto intro: finite_subset)
  show "sampler_step (linux_backend ticking_os) demo_opened (Ret demo_read1)"
    by (rule sampler_step.call [where c = "ReadSampler 0"]) (simp_all add: i demo_opened_doms(4) demo_room r1)
  show "sampler_step (linux_backend ticking_os) demo_read1 (Ret demo_read2)"
    by (rule sampler_step.call [where c = "ReadSampler 0"]) (use d ex room1 r2 in auto)
qed

theorem later_sample_is_never_behind_witness:
  "\<exists>d w' delta. PerfidiousSample_since 3 2 demo_read2 = Ret (Some d, w') \<and> deltas w' d = Some delta \<and>
     de_elapsedTimeNs delta = 0 \<and> unat (de_values delta PERFIDIOUS_METRIC_CPU_TIME) = 20"
proof -
  have "sampler_reachable (linux_backend ticking_os) demo_world demo_read2"
    using sampler_reachable.start demo_opened_step demo_read_steps by (meson sampler_reachable.move)
  moreover obtain e l where s: "samples demo_read2 2 = Some e" "samples demo_read2 3 = Some l"
    "sa_identity e = sa_identity l" "sa_time_ns e = 0" "sa_time_ns l = 0"
    "sa_values e PERFIDIOUS_METRIC_CPU_TIME = 20" "sa_values l PERFIDIOUS_METRIC_CPU_TIME = 40"
    "sa_metrics l = PERFIDIOUS_METRIC_MASK PERFIDIOUS_METRIC_CPU_TIME"
    using demo_read_samples by (auto split: option.splits)
  ultimately obtain d w' delta where "PerfidiousSample_since 3 2 demo_read2 = Ret (Some d, w')"
    "deltas w' d = Some delta" "de_elapsedTimeNs delta = 0"
    "unat (sa_values e PERFIDIOUS_METRIC_CPU_TIME) + unat (de_values delta PERFIDIOUS_METRIC_CPU_TIME)
      = unat (sa_values l PERFIDIOUS_METRIC_CPU_TIME)"
    using later_sample_is_never_behind [OF demo_no_samplers _ s(1,2,3)] by fastforce
  with s show ?thesis by auto
qed

end
