(* ===== verification/Calls.thy ===== *)
theory Calls
  imports Module
begin

text \<open>
  From the call a script writes to the function body that runs: the engine looks the name up in the tables of
  the module, completes the arguments from the signature, the body parses them
  (\<open>ZEND_PARSE_PARAMETERS\<close>) and continues with the C values. For the functions of the Linux build and the
  methods of \<open>Handle\<close>; the errors of the engine carry no text here.
\<close>

section \<open>Parsing parameters\<close>

text \<open>How the engine converts a scalar argument of another type is up to the engine and the mode of the calling
  file: with strict types it never does.\<close>

record weak_mode =
  weak_long :: "zval \<Rightarrow> zend_long option"
  weak_str :: "zval \<Rightarrow> string option"

definition strict_types :: weak_mode where
  "strict_types = \<lparr>weak_long = (\<lambda>_. None), weak_str = (\<lambda>_. None)\<rparr>"

fun instance_of :: "zval \<Rightarrow> string \<Rightarrow> bool" where
  "instance_of (ZEnum c _ _) cls = (c = cls)"
| "instance_of (ZObject c _) cls = (c = cls)"
| "instance_of (ZHandle _) cls = (cls = ''Handle'')"
| "instance_of _ _ = False"

fun parse_long :: "weak_mode \<Rightarrow> zval \<Rightarrow> zval option" where
  "parse_long weak (ZLong n) = Some (ZLong n)"
| "parse_long weak z = map_option ZLong (weak_long weak z)"

fun parse_str :: "weak_mode \<Rightarrow> zval \<Rightarrow> zval option" where
  "parse_str weak (ZString s) = Some (ZString s)"
| "parse_str weak z = map_option ZString (weak_str weak z)"

fun parse_param :: "weak_mode \<Rightarrow> z_param \<Rightarrow> zval \<Rightarrow> zval option" where
  "parse_param weak Z_PARAM_LONG z = parse_long weak z"
| "parse_param weak Z_PARAM_LONG_OR_NULL z = (if z = ZNull then Some ZNull else parse_long weak z)"
| "parse_param weak Z_PARAM_STR z = parse_str weak z"
| "parse_param weak Z_PARAM_ARRAY_HT z = (case z of ZArray ht \<Rightarrow> Some z | _ \<Rightarrow> None)"
| "parse_param weak (Z_PARAM_OBJECT_OF_CLASS c) z = (if instance_of z c then Some z else None)"

text \<open>\<open>Inl n\<close>: the argument \<open>n\<close> is the first that does not fit.\<close>

fun parse_params :: "weak_mode \<Rightarrow> nat \<Rightarrow> z_param list \<Rightarrow> zval list \<Rightarrow> nat + zval list" where
  "parse_params weak n (t # ts) (z # zs) =
     (case parse_param weak t z of
        None \<Rightarrow> Inl n
      | Some v \<Rightarrow> (case parse_params weak (Suc n) ts zs of Inl k \<Rightarrow> Inl k | Inr vs \<Rightarrow> Inr (v # vs)))"
| "parse_params weak n _ _ = Inr []"

definition zend_parse_parameters ::
  "weak_mode \<Rightarrow> parameters \<Rightarrow> zval list \<Rightarrow> ('k, 'e, 'z) machine_scheme
    \<Rightarrow> zval list option \<times> ('k, 'e, 'z) machine_scheme" where
  "zend_parse_parameters weak ps zs m =
     (if length zs < min_num_args ps \<or> max_num_args ps < length zs
      then (None, zend_throw_exception ArgumentCountError 0 [] m)
      else case parse_params weak 1 (all_params ps) zs of
             Inl n \<Rightarrow> (None, zend_throw_exception (ArgumentTypeError n) 0 [] m)
           | Inr vs \<Rightarrow> (Some vs, m))"

section \<open>Default values of a signature\<close>

text \<open>The engine evaluates the text of a default when a call with named arguments leaves a parameter out. The
  texts of this extension are integers and cases of its enums.\<close>

fun read_digits :: "string \<Rightarrow> nat \<Rightarrow> nat option" where
  "read_digits [] n = Some n"
| "read_digits (c # cs) n =
     (if 48 \<le> (of_char c :: nat) \<and> (of_char c :: nat) \<le> 57 then read_digits cs (10 * n + (of_char c - 48)) else None)"

fun read_integer :: "string \<Rightarrow> zend_long option" where
  "read_integer [] = None"
| "read_integer (c # cs) =
     (if c = CHR ''-'' then (if cs = [] then None else map_option (\<lambda>n. - int n) (read_digits cs 0))
      else map_option int (read_digits (c # cs) 0))"

definition enum_constants :: "(string \<times> zval) list" where
  "enum_constants =
     concat (map (\<lambda>ce. map (\<lambda>(c, v). (in_namespace (en_name ce @ ''::'' @ c), ZEnum (en_name ce) c v)) (en_cases ce))
       [perfidious_metric_unit_ce, perfidious_metric_ce, perfidious_scope_ce])"

definition default_value :: "string \<Rightarrow> zval option" where
  "default_value text =
     (case read_integer text of Some n \<Rightarrow> Some (ZLong n) | None \<Rightarrow> map_of enum_constants text)"

definition arg_default_value :: "zend_arg \<Rightarrow> zval option" where
  "arg_default_value a = Option.bind (arg_default a) default_value"

text \<open>An argument that is left out is \<open>None\<close>. Without a default it must be given.\<close>

fun fill_arguments :: "zend_arg list \<Rightarrow> zval option list \<Rightarrow> zval list option" where
  "fill_arguments as [] = Some []"
| "fill_arguments [] (z # zs) = (case z of None \<Rightarrow> None | Some v \<Rightarrow> map_option (Cons v) (fill_arguments [] zs))"
| "fill_arguments (a # as) (z # zs) =
     (case (case z of None \<Rightarrow> arg_default_value a | Some v \<Rightarrow> Some v) of
        None \<Rightarrow> None | Some v \<Rightarrow> map_option (Cons v) (fill_arguments as zs))"

section \<open>The C side\<close>

text \<open>What a body does once its arguments are parsed.\<close>

datatype native_call =
    HandleCall php_call
  | GetPmuInfo zend_long
  | GetPmuEventInfo zend_long zend_long
  | ListPmus
  | ListPmuEvents zend_long

text \<open>\<open>None\<close> is a call that does not return.\<close>

fun run_native :: "'k linux_os \<Rightarrow> libpfm \<Rightarrow> native_call \<Rightarrow> 'k process \<Rightarrow> (zval \<times> 'k process) cval option" where
  "run_native os lib (HandleCall c) p = Some (run_call os c p)"
| "run_native os lib (GetPmuInfo pmu) p = Some (Ret (get_pmu_info lib pmu p))"
| "run_native os lib (GetPmuEventInfo pmu idx) p = Some (Ret (get_pmu_event_info lib pmu idx p))"
| "run_native os lib ListPmus p = Some (Ret (list_pmus lib p))"
| "run_native os lib (ListPmuEvents pmu) p = map_option Ret (list_pmu_events lib pmu p)"

text \<open>The C variables a body reads, with the initial values that stand for arguments not passed. Any other
  combination of values would be a variable that was never set.\<close>

fun open_call :: "zval list \<Rightarrow> native_call option" where
  "open_call [ZArray ht] = Some (HandleCall (CallOpen ht 0 (-1)))"
| "open_call [ZArray ht, ZLong pid] = Some (HandleCall (CallOpen ht pid (-1)))"
| "open_call [ZArray ht, ZLong pid, ZLong cpu] = Some (HandleCall (CallOpen ht pid cpu))"
| "open_call _ = None"

fun rawStream_call :: "nat \<Rightarrow> zval list \<Rightarrow> native_call option" where
  "rawStream_call this [] = Some (HandleCall (CallRawStream this (Some 0)))"
| "rawStream_call this [ZNull] = Some (HandleCall (CallRawStream this None))"
| "rawStream_call this [ZLong idx] = Some (HandleCall (CallRawStream this (Some idx)))"
| "rawStream_call this _ = None"

fun long_call :: "(zend_long \<Rightarrow> native_call) \<Rightarrow> zval list \<Rightarrow> native_call option" where
  "long_call f [ZLong n] = Some (f n)"
| "long_call f _ = None"

fun two_longs_call :: "(zend_long \<Rightarrow> zend_long \<Rightarrow> native_call) \<Rightarrow> zval list \<Rightarrow> native_call option" where
  "two_longs_call f [ZLong n, ZLong k] = Some (f n k)"
| "two_longs_call f _ = None"

fun plain_call :: "native_call \<Rightarrow> zval list \<Rightarrow> native_call option" where
  "plain_call c [] = Some c"
| "plain_call c _ = None"

definition body_of :: "nat \<Rightarrow> native_function \<Rightarrow> zval list \<Rightarrow> native_call option" where
  "body_of this handler =
     (case map_of
        [(ZEND_FN ''perfidious_get_pmu_info'', long_call GetPmuInfo),
         (ZEND_FN ''perfidious_get_pmu_event_info'', two_longs_call GetPmuEventInfo),
         (ZEND_FN ''perfidious_list_pmus'', plain_call ListPmus),
         (ZEND_FN ''perfidious_list_pmu_events'', long_call ListPmuEvents),
         (ZEND_FN ''perfidious_open'', open_call),
         (ZEND_FN ''perfidious_request_handle'', plain_call (HandleCall CallRequestHandle)),
         (ZEND_MN ''PerfidiousHandle'' ''close'', plain_call (HandleCall (CallClose this))),
         (ZEND_MN ''PerfidiousHandle'' ''disable'', plain_call (HandleCall (CallDisable this))),
         (ZEND_MN ''PerfidiousHandle'' ''enable'', plain_call (HandleCall (CallEnable this))),
         (ZEND_MN ''PerfidiousHandle'' ''rawStream'', rawStream_call this),
         (ZEND_MN ''PerfidiousHandle'' ''read'', plain_call (HandleCall (CallRead this))),
         (ZEND_MN ''PerfidiousHandle'' ''readArray'', plain_call (HandleCall (CallReadArray this))),
         (ZEND_MN ''PerfidiousHandle'' ''reset'', plain_call (HandleCall (CallReset this)))]
        handler of
        None \<Rightarrow> (\<lambda>_. None) | Some f \<Rightarrow> f)"

section \<open>Calls of a script\<close>

text \<open>A method is called on the object of a number.\<close>

datatype callee = FunctionNamed string | MethodOf nat string

fun callee_entry :: "callee \<Rightarrow> function_entry option" where
  "callee_entry (FunctionNamed n) = find (\<lambda>e. fe_name e = n) (perfidious_functions False)"
| "callee_entry (MethodOf i n) = find (\<lambda>e. fe_name e = n) (perfidious_handle_methods False)"

fun callee_object :: "callee \<Rightarrow> nat" where
  "callee_object (FunctionNamed n) = 0"
| "callee_object (MethodOf i n) = i"

fun callee_exists :: "callee \<Rightarrow> 'k process \<Rightarrow> bool" where
  "callee_exists (FunctionNamed n) p = True"
| "callee_exists (MethodOf i n) p = (objects p i \<noteq> None)"

definition run_body ::
  "'k linux_os \<Rightarrow> libpfm \<Rightarrow> weak_mode \<Rightarrow> nat \<Rightarrow> native_function \<Rightarrow> zval list \<Rightarrow> 'k process
    \<Rightarrow> (zval \<times> 'k process) cval option" where
  "run_body os lib weak this handler zs p =
     (case zend_parse_parameters weak (parameters_of handler) zs p of
        (None, p1) \<Rightarrow> Some (Ret (ZNull, p1))
      | (Some vs, p1) \<Rightarrow>
          (case body_of this handler vs of None \<Rightarrow> Some Undefined | Some c \<Rightarrow> run_native os lib c p1))"

definition script_call ::
  "'k linux_os \<Rightarrow> libpfm \<Rightarrow> weak_mode \<Rightarrow> callee \<Rightarrow> zval option list \<Rightarrow> 'k process
    \<Rightarrow> (zval \<times> 'k process) cval option" where
  "script_call os lib weak callee args p =
     (case callee_entry callee of
        None \<Rightarrow> Some (Ret (ZNull, zend_throw_exception Error 0 [] p))
      | Some e \<Rightarrow>
          (case fill_arguments (ai_args (fe_arginfo e)) args of
             None \<Rightarrow> Some (Ret (ZNull, zend_throw_exception ArgumentCountError 0 [] p))
           | Some zs \<Rightarrow> run_body os lib weak (callee_object callee) (fe_handler e) zs p))"

section \<open>The other calls with optional arguments\<close>

text \<open>\<open>Sampler::open\<close> on any platform, and the Windows function that makes a thread profile.\<close>

fun sampler_open_body ::
  "(('k, 'e, 'z) machine_scheme, 's) sampler_backend \<Rightarrow> zval list \<Rightarrow> ('k, 'e, 'z, 's) world
    \<Rightarrow> (nat option \<times> ('k, 'e, 'z, 's) world) cval option" where
  "sampler_open_body be [ZArray ht] w = PerfidiousSampler_open be (map snd ht) None w"
| "sampler_open_body be [ZArray ht, scope] w = PerfidiousSampler_open be (map snd ht) (Some scope) w"
| "sampler_open_body be _ w = Some Undefined"

definition sampler_open_script ::
  "(('k, 'e, 'z) machine_scheme, 's) sampler_backend \<Rightarrow> weak_mode \<Rightarrow> zval option list \<Rightarrow> ('k, 'e, 'z, 's) world
    \<Rightarrow> (nat option \<times> ('k, 'e, 'z, 's) world) cval option" where
  "sampler_open_script be weak args w =
     (case fill_arguments (ai_args arginfo_class_Perfidious_Sampler_open) args of
        None \<Rightarrow> Some (Ret (None, throwing ArgumentCountError [] w))
      | Some zs \<Rightarrow>
          (case zend_parse_parameters weak sampler_open_parameters zs (engine w) of
             (None, m1) \<Rightarrow> Some (Ret (None, w\<lparr>engine := m1\<rparr>))
           | (Some vs, m1) \<Rightarrow> sampler_open_body be vs (w\<lparr>engine := m1\<rparr>)))"

fun profiling_body ::
  "'k windows_os \<Rightarrow> zval list \<Rightarrow> 'k windows_process \<Rightarrow> (nat option \<times> 'k windows_process) cval" where
  "profiling_body os [] p = Ret (enable_current_thread_profiling os 0 p)"
| "profiling_body os [ZLong hardware_counters] p = Ret (enable_current_thread_profiling os hardware_counters p)"
| "profiling_body os _ p = Undefined"

definition profiling_script ::
  "'k windows_os \<Rightarrow> weak_mode \<Rightarrow> zval option list \<Rightarrow> 'k windows_process
    \<Rightarrow> (nat option \<times> 'k windows_process) cval" where
  "profiling_script os weak args p =
     (case fill_arguments (ai_args arginfo_Perfidious_Windows_enable_current_thread_profiling) args of
        None \<Rightarrow> Ret (None, zend_throw_exception ArgumentCountError 0 [] p)
      | Some zs \<Rightarrow>
          (case zend_parse_parameters weak enable_current_thread_profiling_parameters zs p of
             (None, p1) \<Rightarrow> Ret (None, p1)
           | (Some vs, p1) \<Rightarrow> profiling_body os vs p1))"

end
