(* ===== verification/Calls_Properties.thy ===== *)
theory Calls_Properties
  imports Calls Module_Properties Pmu_Properties Lifecycle_Properties
begin

text \<open>
  Calls of a script: what the engine and the bodies check between the text of a call and the C code, and what comes
  back.
\<close>

section \<open>Signatures and bodies\<close>


section \<open>From parsed arguments to the body\<close>

text \<open>The values a parameter can have once it is parsed.\<close>

fun parsed_as :: "z_param \<Rightarrow> zval \<Rightarrow> bool" where
  "parsed_as Z_PARAM_LONG v = (\<exists>n. v = ZLong n)"
| "parsed_as Z_PARAM_LONG_OR_NULL v = (v = ZNull \<or> (\<exists>n. v = ZLong n))"
| "parsed_as Z_PARAM_STR v = (\<exists>s. v = ZString s)"
| "parsed_as Z_PARAM_ARRAY_HT v = (\<exists>ht. v = ZArray ht)"
| "parsed_as (Z_PARAM_OBJECT_OF_CLASS c) v = instance_of v c"

lemma parse_long_long: "parse_long weak z = Some v \<Longrightarrow> \<exists>n. v = ZLong n"
  by (cases z) auto

lemma parse_str_str: "parse_str weak z = Some v \<Longrightarrow> \<exists>s. v = ZString s"
  by (cases z) auto

lemma parse_param_parsed: "parse_param weak t z = Some v \<Longrightarrow> parsed_as t v"
  by (cases t) (auto dest: parse_long_long parse_str_str split: if_splits zval.splits)

lemma parse_params_parsed:
  "parse_params weak n ts zs = Inr vs \<Longrightarrow> length zs \<le> length ts \<Longrightarrow>
     list_all2 parsed_as (take (length zs) ts) vs"
proof (induction weak n ts zs arbitrary: vs rule: parse_params.induct)
  case (1 weak n t ts z zs)
  then show ?case by (auto dest: parse_param_parsed split: option.splits sum.splits)
qed auto

lemma parse_parameters_cases:
  assumes "zend_parse_parameters weak ps zs m = (r, m')" "well_formed_parameters ps"
  obtains (refused) c where "r = None" "m' = zend_throw_exception c 0 [] m"
      "c = ArgumentCountError \<or> (\<exists>n. c = ArgumentTypeError n)"
  | (parsed) vs where "r = Some vs" "m' = m" "min_num_args ps \<le> length vs" "length vs \<le> max_num_args ps"
      "list_all2 parsed_as (take (length vs) (all_params ps)) vs"
proof (cases "length zs < min_num_args ps \<or> max_num_args ps < length zs")
  case True
  with assms(1) show thesis by (intro refused [of ArgumentCountError]) (auto simp: zend_parse_parameters_def)
next
  case False
  show thesis
  proof (cases "parse_params weak 1 (all_params ps) zs")
    case (Inl n)
    with assms(1) False show thesis
      by (intro refused [of "ArgumentTypeError n"]) (auto simp: zend_parse_parameters_def)
  next
    case (Inr vs)
    have "length zs \<le> length (all_params ps)" using False assms(2) by (simp add: well_formed_parameters_def)
    then have "list_all2 parsed_as (take (length zs) (all_params ps)) vs" "length vs = length zs"
      using parse_params_parsed [OF Inr] by (auto dest: list_all2_lengthD)
    with assms(1) False Inr show thesis by (intro parsed [of vs]) (auto simp: zend_parse_parameters_def)
  qed
qed

lemma linux_parameters_well_formed:
  "list_all (\<lambda>e. well_formed_parameters (parameters_of (fe_handler e))) (perfidious_functions False @ perfidious_handle_methods False)"
  by code_simp

lemma find_member: "find P xs = Some x \<Longrightarrow> x \<in> set xs \<and> P x"
  by (auto simp: find_Some_iff)

lemma callee_entryD:
  "callee_entry (FunctionNamed n) = Some e \<Longrightarrow> e \<in> set (perfidious_functions False) \<and> fe_name e = n"
  "callee_entry (MethodOf i n) = Some e \<Longrightarrow> e \<in> set (perfidious_handle_methods False) \<and> fe_name e = n"
  by (auto dest!: find_member)

lemma entry_of_callee:
  "callee_entry callee = Some e \<Longrightarrow> e \<in> set (perfidious_functions False @ perfidious_handle_methods False)"
  by (cases callee) (auto dest!: find_member)

lemma parameters_well_formed: "callee_entry callee = Some e \<Longrightarrow> well_formed_parameters (parameters_of (fe_handler e))"
  using linux_parameters_well_formed entry_of_callee by (fastforce simp: list_all_iff)

fun native_callable :: "native_call \<Rightarrow> 'k process \<Rightarrow> bool" where
  "native_callable (HandleCall c) p = callable c p"
| "native_callable _ p = True"

text \<open>The two tables by C function, row by row.\<close>

lemma parameters_rows [simp]:
  "parameters_of (ZEND_FN ''perfidious_get_pmu_info'') = get_pmu_info_parameters"
  "parameters_of (ZEND_FN ''perfidious_get_pmu_event_info'') = get_pmu_event_info_parameters"
  "parameters_of (ZEND_FN ''perfidious_list_pmus'') = ZEND_PARSE_PARAMETERS_NONE"
  "parameters_of (ZEND_FN ''perfidious_list_pmu_events'') = list_pmu_events_parameters"
  "parameters_of (ZEND_FN ''perfidious_open'') = open_parameters"
  "parameters_of (ZEND_FN ''perfidious_request_handle'') = ZEND_PARSE_PARAMETERS_NONE"
  "parameters_of (ZEND_MN ''PerfidiousHandle'' ''close'') = ZEND_PARSE_PARAMETERS_NONE"
  "parameters_of (ZEND_MN ''PerfidiousHandle'' ''disable'') = ZEND_PARSE_PARAMETERS_NONE"
  "parameters_of (ZEND_MN ''PerfidiousHandle'' ''enable'') = ZEND_PARSE_PARAMETERS_NONE"
  "parameters_of (ZEND_MN ''PerfidiousHandle'' ''rawStream'') = rawStream_parameters"
  "parameters_of (ZEND_MN ''PerfidiousHandle'' ''read'') = ZEND_PARSE_PARAMETERS_NONE"
  "parameters_of (ZEND_MN ''PerfidiousHandle'' ''readArray'') = ZEND_PARSE_PARAMETERS_NONE"
  "parameters_of (ZEND_MN ''PerfidiousHandle'' ''reset'') = ZEND_PARSE_PARAMETERS_NONE"
  by (simp_all add: parameters_of_def)

lemma body_rows [simp]:
  "body_of this (ZEND_FN ''perfidious_get_pmu_info'') = long_call GetPmuInfo"
  "body_of this (ZEND_FN ''perfidious_get_pmu_event_info'') = two_longs_call GetPmuEventInfo"
  "body_of this (ZEND_FN ''perfidious_list_pmus'') = plain_call ListPmus"
  "body_of this (ZEND_FN ''perfidious_list_pmu_events'') = long_call ListPmuEvents"
  "body_of this (ZEND_FN ''perfidious_open'') = open_call"
  "body_of this (ZEND_FN ''perfidious_request_handle'') = plain_call (HandleCall CallRequestHandle)"
  "body_of this (ZEND_MN ''PerfidiousHandle'' ''close'') = plain_call (HandleCall (CallClose this))"
  "body_of this (ZEND_MN ''PerfidiousHandle'' ''disable'') = plain_call (HandleCall (CallDisable this))"
  "body_of this (ZEND_MN ''PerfidiousHandle'' ''enable'') = plain_call (HandleCall (CallEnable this))"
  "body_of this (ZEND_MN ''PerfidiousHandle'' ''rawStream'') = rawStream_call this"
  "body_of this (ZEND_MN ''PerfidiousHandle'' ''read'') = plain_call (HandleCall (CallRead this))"
  "body_of this (ZEND_MN ''PerfidiousHandle'' ''readArray'') = plain_call (HandleCall (CallReadArray this))"
  "body_of this (ZEND_MN ''PerfidiousHandle'' ''reset'') = plain_call (HandleCall (CallReset this))"
  by (simp_all add: body_of_def)

definition body_ready :: "nat \<Rightarrow> native_function \<Rightarrow> bool" where
  "body_ready this h \<longleftrightarrow> (\<forall>vs. min_num_args (parameters_of h) \<le> length vs \<longrightarrow> length vs \<le> max_num_args (parameters_of h) \<longrightarrow>
      list_all2 parsed_as (take (length vs) (all_params (parameters_of h))) vs \<longrightarrow>
      (\<exists>c. body_of this h vs = Some c))"

lemma le_args:
  "length vs \<le> 0 \<longleftrightarrow> vs = []"
  "length vs \<le> Suc n \<longleftrightarrow> vs = [] \<or> (\<exists>x xs. vs = x # xs \<and> length xs \<le> n)"
  by (cases vs; simp)+

lemma two_longs_ready: "length vs = 2 \<Longrightarrow> list_all2 parsed_as [Z_PARAM_LONG, Z_PARAM_LONG] vs \<Longrightarrow> \<exists>c. two_longs_call f vs = Some c"
  by (auto simp: list_all2_Cons1)

lemma open_ready:
  assumes "Suc 0 \<le> length vs" "length vs \<le> 3"
    "list_all2 parsed_as (Z_PARAM_ARRAY_HT # take (length vs - Suc 0) [Z_PARAM_LONG, Z_PARAM_LONG]) vs"
  shows "\<exists>c. open_call vs = Some c"
proof -
  have "length vs \<le> Suc (Suc (Suc 0))" using assms(2) by simp
  then show ?thesis using assms(1,3) by (auto simp: le_args)
qed

lemma functions_ready: "list_all (body_ready 0 \<circ> fe_handler) (perfidious_functions False)"
  unfolding body_ready_def
  by (auto simp: perfidious_functions_def PERFIDIOUS_RAW_FENTRY_def parameters_defs all_params_def le_args
      intro: two_longs_ready open_ready)

lemma methods_ready: "list_all (body_ready this \<circ> fe_handler) (perfidious_handle_methods False)"
  unfolding body_ready_def
  by (auto simp: perfidious_handle_methods_def PHP_ME_def parameters_defs all_params_def le_args
      intro: two_longs_ready open_ready)

lemma body_callable: "body_of this (ZEND_FN f) vs = Some c \<Longrightarrow> native_callable c p"
  by (auto simp: body_of_def split: option.splits if_splits elim!: open_call.elims long_call.elims two_longs_call.elims plain_call.elims)

lemma method_callable: "body_of this h vs = Some c \<Longrightarrow> objects p this \<noteq> None \<Longrightarrow> native_callable c p"
  by (auto simp: body_of_def split: option.splits if_splits elim!: open_call.elims rawStream_call.elims long_call.elims two_longs_call.elims plain_call.elims)

section \<open>What a signature admits\<close>

fun type_admits :: "weak_mode \<Rightarrow> arg_type \<Rightarrow> zval \<Rightarrow> bool" where
  "type_admits weak IS_LONG z = (parse_long weak z \<noteq> None)"
| "type_admits weak IS_STRING z = (parse_str weak z \<noteq> None)"
| "type_admits weak IS_ARRAY z = (\<exists>ht. z = ZArray ht)"
| "type_admits weak (IS_OBJECT c) z = instance_of z c"
| "type_admits weak _ z = (z = ZNull)"

definition arg_admits :: "weak_mode \<Rightarrow> zend_arg \<Rightarrow> zval option \<Rightarrow> bool" where
  "arg_admits weak a arg =
     (case arg of
        None \<Rightarrow> arg_default_value a \<noteq> None
      | Some z \<Rightarrow> type_admits weak (arg_type a) z \<or> arg_allow_null a \<and> z = ZNull)"

definition admits :: "weak_mode \<Rightarrow> arginfo \<Rightarrow> zval option list \<Rightarrow> bool" where
  "admits weak ai args \<longleftrightarrow>
     required_num_args ai \<le> length args \<and> length args \<le> length (ai_args ai) \<and>
     list_all2 (arg_admits weak) (take (length args) (ai_args ai)) args"

text \<open>A parameter that takes the values its declaration admits, the default among them, and no others.\<close>

definition takes :: "weak_mode \<Rightarrow> z_param \<Rightarrow> zend_arg \<Rightarrow> bool" where
  "takes weak t a \<longleftrightarrow>
     (\<forall>z. (parse_param weak t z \<noteq> None) = arg_admits weak a (Some z)) \<and>
     (\<forall>v. arg_default_value a = Some v \<longrightarrow> parse_param weak t v \<noteq> None)"

lemma accepts_takes:
  assumes "accepts_type t (arg_type a) (arg_allow_null a)"
  shows "(parse_param weak t z \<noteq> None) = arg_admits weak a (Some z)"
  using assms by (cases t; cases "arg_type a") (auto simp: arg_admits_def split: zval.split)

text \<open>Completing and parsing the arguments succeeds exactly on what the declarations admit.\<close>

lemma fill_and_parse_iff:
  "list_all2 (takes weak) ts as \<Longrightarrow> length args \<le> length as \<Longrightarrow>
     (\<exists>zs vs. fill_arguments as args = Some zs \<and> parse_params weak n ts zs = Inr vs) \<longleftrightarrow>
     list_all2 (arg_admits weak) (take (length args) as) args"
proof (induction as args arbitrary: ts n rule: fill_arguments.induct)
  case (3 a as z zs)
  then obtain t ts' where ts: "ts = t # ts'" "takes weak t a" "list_all2 (takes weak) ts' as"
    by (auto simp: list_all2_Cons2)
  have IH: "(\<exists>ws vs. fill_arguments as zs = Some ws \<and> parse_params weak (Suc n) ts' ws = Inr vs) \<longleftrightarrow>
      list_all2 (arg_admits weak) (take (length zs) as) zs"
    if "(case z of None \<Rightarrow> arg_default_value a | Some v \<Rightarrow> Some v) = Some v" for v
    using 3(1) [OF that ts(3)] 3(3) by simp
  show ?case
  proof (cases "case z of None \<Rightarrow> arg_default_value a | Some v \<Rightarrow> Some v")
    case None
    then show ?thesis by (auto simp: arg_admits_def split: option.splits)
  next
    case (Some v)
    have h: "(parse_param weak t v \<noteq> None) = arg_admits weak a z"
      using Some ts(2) by (cases z) (auto simp: takes_def arg_admits_def)
    show ?thesis using h IH [OF Some] Some ts(1)
      by (cases "parse_param weak t v"; cases "fill_arguments as zs")
        (auto split: sum.split)
  qed
qed auto

lemma strict_then_weak: "parse_param strict_types t z \<noteq> None \<Longrightarrow> parse_param weak t z \<noteq> None"
  by (cases t; cases z) (auto simp: strict_types_def split: if_splits)

definition default_fits :: "z_param \<Rightarrow> zend_arg \<Rightarrow> bool" where
  "default_fits t a \<longleftrightarrow>
     (case arg_default_value a of None \<Rightarrow> True | Some v \<Rightarrow> parse_param strict_types t v \<noteq> None)"

definition entry_fits :: "function_entry \<Rightarrow> bool" where
  "entry_fits e \<longleftrightarrow>
     list_all2 (\<lambda>t a. accepts_type t (arg_type a) (arg_allow_null a) \<and> default_fits t a)
       (all_params (parameters_of (fe_handler e))) (ai_args (fe_arginfo e)) \<and>
     required_num_args (fe_arginfo e) = min_num_args (parameters_of (fe_handler e)) \<and>
     length (ai_args (fe_arginfo e)) = max_num_args (parameters_of (fe_handler e))"

lemma linux_entries_fit:
  "list_all (\<lambda>e. entry_fits e \<or> fe_name e = ''rawStream'') (perfidious_functions False @ perfidious_handle_methods False)"
  by code_simp

lemma entry_fits_takes:
  assumes "entry_fits e"
  shows "list_all2 (takes weak) (all_params (parameters_of (fe_handler e))) (ai_args (fe_arginfo e))"
proof -
  have "takes weak t a" if "accepts_type t (arg_type a) (arg_allow_null a)" "default_fits t a" for t a
    unfolding takes_def
  proof (intro conjI allI impI)
    show "(parse_param weak t z \<noteq> None) = arg_admits weak a (Some z)" for z by (rule accepts_takes [OF that(1)])
    show "parse_param weak t v \<noteq> None" if "arg_default_value a = Some v" for v
      using \<open>default_fits t a\<close> that strict_then_weak [of t v weak] by (simp add: default_fits_def)
  qed
  then show ?thesis using assms by (auto simp: entry_fits_def elim!: list_all2_mono)
qed

lemma fill_length: "fill_arguments as args = Some zs \<Longrightarrow> length zs = length args"
  by (induction as args arbitrary: zs rule: fill_arguments.induct) (auto split: option.splits)

text \<open>The two outcomes of completing and parsing.\<close>

definition refused :: "('k, 'e, 'z) machine_scheme \<Rightarrow> (zval \<times> ('k, 'e, 'z) machine_scheme) cval option \<Rightarrow> bool" where
  "refused m r \<longleftrightarrow>
     (\<exists>c msg. r = Some (Ret (ZNull, zend_throw_exception c 0 msg m)) \<and>
        (c = ArgumentCountError \<or> (\<exists>n. c = ArgumentTypeError n)))"

lemma refusedI:
  "c = ArgumentCountError \<or> (\<exists>n. c = ArgumentTypeError n) \<Longrightarrow>
     refused m (Some (Ret (ZNull, zend_throw_exception c 0 msg m)))"
  by (auto simp: refused_def)

lemma body_found:
  assumes e: "callee_entry callee = Some e" and z: "zend_parse_parameters weak (parameters_of (fe_handler e)) zs p = (Some vs, p1)"
    and ex: "callee_exists callee p"
  obtains c where "body_of (callee_object callee) (fe_handler e) vs = Some c" "native_callable c p" "p1 = p"
proof -
  have ready: "body_ready (callee_object callee) (fe_handler e)"
    using e functions_ready methods_ready callee_entryD(1) [of _ e] callee_entryD(2) [of _ _ e] by (cases callee) (auto simp: list_all_iff simp del: callee_entry.simps)
  from z parameters_well_formed [OF e] have "p1 = p" "\<exists>c. body_of (callee_object callee) (fe_handler e) vs = Some c"
    using ready by (cases rule: parse_parameters_cases; auto simp: body_ready_def)+
  then obtain c where c: "body_of (callee_object callee) (fe_handler e) vs = Some c" by blast
  have "native_callable c p"
  proof (cases callee)
    case (FunctionNamed n)
    then have "e \<in> set (perfidious_functions False)" using e callee_entryD(1) by blast
    then obtain f where "fe_handler e = ZEND_FN f" by (auto simp: perfidious_functions_def PERFIDIOUS_RAW_FENTRY_def)
    with c show ?thesis by (auto intro: body_callable)
  next
    case (MethodOf i n)
    with c ex show ?thesis by (auto intro: method_callable)
  qed
  with c \<open>p1 = p\<close> that show thesis by blast
qed

definition parses :: "weak_mode \<Rightarrow> parameters \<Rightarrow> zval list \<Rightarrow> bool" where
  "parses weak ps zs \<longleftrightarrow>
     (\<exists>vs. parse_params weak 1 (all_params ps) zs = Inr vs) \<and> min_num_args ps \<le> length zs \<and> length zs \<le> max_num_args ps"

lemma run_body_cases:
  assumes e: "callee_entry callee = Some e" and ex: "callee_exists callee p"
  shows "if parses weak (parameters_of (fe_handler e)) zs
    then \<exists>c. native_callable c p \<and> run_body os lib weak (callee_object callee) (fe_handler e) zs p = run_native os lib c p
    else refused p (run_body os lib weak (callee_object callee) (fe_handler e) zs p)"
proof (cases "zend_parse_parameters weak (parameters_of (fe_handler e)) zs p")
  case (Pair r p1)
  show ?thesis
  proof (cases r)
    case None
    obtain c where "p1 = zend_throw_exception c 0 [] p" "c = ArgumentCountError \<or> (\<exists>n. c = ArgumentTypeError n)"
      using Pair parameters_well_formed [OF e] by (rule parse_parameters_cases) (use None in auto)
    then have "refused p (run_body os lib weak (callee_object callee) (fe_handler e) zs p)"
      using Pair None by (simp add: run_body_def refusedI)
    moreover have "\<not> parses weak (parameters_of (fe_handler e)) zs"
      using Pair None by (auto simp: zend_parse_parameters_def parses_def)
    ultimately show ?thesis by simp
  next
    case (Some vs)
    then obtain c where "body_of (callee_object callee) (fe_handler e) vs = Some c" "native_callable c p" "p1 = p"
      using body_found [OF e _ ex] Pair by blast
    moreover have "parses weak (parameters_of (fe_handler e)) zs"
      using Pair Some by (auto simp: zend_parse_parameters_def parses_def split: if_splits sum.splits)
    ultimately show ?thesis using Pair Some by (auto simp: run_body_def)
  qed
qed

text \<open>\<open>rawStream\<close>, whose body accepts null to refuse it.\<close>

lemma rawStream_entry:
  "callee_entry callee = Some e \<Longrightarrow> fe_name e = ''rawStream'' \<Longrightarrow>
     e = PHP_ME ''PerfidiousHandle'' ''rawStream'' arginfo_class_Perfidious_Handle_rawStream [ZEND_ACC_PUBLIC, ZEND_ACC_FINAL]"
  using entry_of_callee [of callee e]
  by (auto simp: perfidious_functions_def perfidious_handle_methods_def PERFIDIOUS_RAW_FENTRY_def PHP_ME_def)

lemma default_texts: "default_value ''0'' = Some (ZLong 0)" "default_value ''-1'' = Some (ZLong (-1))"
  by code_simp+

lemma rawStream_signature:
  "required_num_args arginfo_class_Perfidious_Handle_rawStream = 0"
  "ai_args arginfo_class_Perfidious_Handle_rawStream =
     [ZEND_ARG_TYPE_INFO_WITH_DEFAULT_VALUE ''idx'' IS_LONG False ''0'']"
  "arg_default_value (ZEND_ARG_TYPE_INFO_WITH_DEFAULT_VALUE ''idx'' IS_LONG False ''0'') = Some (ZLong 0)"
  "arg_admits weak (ZEND_ARG_TYPE_INFO_WITH_DEFAULT_VALUE ''idx'' IS_LONG False ''0'') arg =
     (case arg of None \<Rightarrow> True | Some z \<Rightarrow> parse_long weak z \<noteq> None)"
  by (auto simp: linux_arginfo required_num_args_def arginfo_macros arg_default_value_def arg_admits_def default_texts
      split: option.split)

lemma run_rawStream:
  "run_body os lib weak this (ZEND_MN ''PerfidiousHandle'' ''rawStream'') [] p =
     run_native os lib (HandleCall (CallRawStream this (Some 0))) p"
  "run_body os lib weak this (ZEND_MN ''PerfidiousHandle'' ''rawStream'') [z] p =
     (if z = ZNull then run_native os lib (HandleCall (CallRawStream this None)) p
      else case parse_long weak z of
        None \<Rightarrow> Some (Ret (ZNull, zend_throw_exception (ArgumentTypeError 1) 0 [] p))
      | Some v \<Rightarrow> (case rawStream_call this [v] of None \<Rightarrow> Some Undefined | Some c \<Rightarrow> run_native os lib c p))"
  "run_body os lib weak this (ZEND_MN ''PerfidiousHandle'' ''rawStream'') (y # z # zs) p =
     Some (Ret (ZNull, zend_throw_exception ArgumentCountError 0 [] p))"
  by (simp_all add: run_body_def zend_parse_parameters_def parameters_defs all_params_def split: option.split)

lemma rawStream_checked:
  assumes "objects p i \<noteq> None"
  shows "if admits weak arginfo_class_Perfidious_Handle_rawStream args
    then \<exists>c. native_callable c p \<and>
      (case fill_arguments (ai_args arginfo_class_Perfidious_Handle_rawStream) args of
         None \<Rightarrow> Some (Ret (ZNull, zend_throw_exception ArgumentCountError 0 [] p))
       | Some zs \<Rightarrow> run_body os lib weak i (ZEND_MN ''PerfidiousHandle'' ''rawStream'') zs p) = run_native os lib c p
    else refused p (case fill_arguments (ai_args arginfo_class_Perfidious_Handle_rawStream) args of
         None \<Rightarrow> Some (Ret (ZNull, zend_throw_exception ArgumentCountError 0 [] p))
       | Some zs \<Rightarrow> run_body os lib weak i (ZEND_MN ''PerfidiousHandle'' ''rawStream'') zs p)"
proof -
  have runs: "\<exists>c. native_callable c p \<and> Some (PerfidiousHandle_rawStream os i idx p) = run_native os lib c p" for idx
    using assms by (intro exI [of _ "HandleCall (CallRawStream i idx)"]) simp
  consider "args = []" | "args = [None]" | z where "args = [Some z]" | a b as where "args = a # b # as"
    by (cases args rule: remdups_adj.cases; metis not_None_eq)
  then show ?thesis
  proof cases
    case 1
    then show ?thesis using runs [of "Some 0"] by (simp add: admits_def rawStream_signature run_rawStream)
  next
    case 2
    then show ?thesis using runs [of "Some 0"] by (simp add: admits_def rawStream_signature run_rawStream)
  next
    case (3 z)
    consider "z = ZNull" "parse_long weak z = None" | v where "z = ZNull" "parse_long weak z = Some v"
      | "z \<noteq> ZNull" "parse_long weak z = None" | n where "z \<noteq> ZNull" "parse_long weak z = Some (ZLong n)"
      using parse_long_long [of weak z] by (cases "parse_long weak z") auto
    then show ?thesis
    proof cases
      case 1
      with 3 show ?thesis
        by (simp add: admits_def rawStream_signature run_rawStream PerfidiousHandle_rawStream_def refusedI)
    next
      case 2
      with 3 show ?thesis using runs [of None] by (auto simp: admits_def rawStream_signature run_rawStream)
    next
      case 3
      with \<open>args = [Some z]\<close> show ?thesis by (simp add: admits_def rawStream_signature run_rawStream refusedI)
    next
      case (4 n)
      with 3 show ?thesis using runs [of "Some n"] by (simp add: admits_def rawStream_signature run_rawStream)
    qed
  next
    case (4 a b as)
    then have "\<not> admits weak arginfo_class_Perfidious_Handle_rawStream args"
      by (simp add: admits_def rawStream_signature)
    moreover have "refused p (run_body os lib weak i (ZEND_MN ''PerfidiousHandle'' ''rawStream'') zs p)"
      if f: "fill_arguments (ai_args arginfo_class_Perfidious_Handle_rawStream) args = Some zs" for zs
    proof -
      obtain x y ws where "zs = x # y # ws" using fill_length [OF f] 4 by (cases zs rule: remdups_adj.cases) auto
      then show ?thesis by (simp add: run_rawStream refusedI)
    qed
    then have "refused p (case fill_arguments (ai_args arginfo_class_Perfidious_Handle_rawStream) args of
         None \<Rightarrow> Some (Ret (ZNull, zend_throw_exception ArgumentCountError 0 [] p))
       | Some zs \<Rightarrow> run_body os lib weak i (ZEND_MN ''PerfidiousHandle'' ''rawStream'') zs p)"
      by (simp add: refusedI split: option.split)
    ultimately show ?thesis by simp
  qed
qed

theorem script_call_checked:
  assumes e: "callee_entry callee = Some e" and ex: "callee_exists callee p"
  shows "if admits weak (fe_arginfo e) args
    then \<exists>c. native_callable c p \<and> script_call os lib weak callee args p = run_native os lib c p
    else refused p (script_call os lib weak callee args p)"
proof -
  let ?ps = "parameters_of (fe_handler e)" and ?as = "ai_args (fe_arginfo e)"
  let ?run = "\<lambda>zs. run_body os lib weak (callee_object callee) (fe_handler e) zs p"
  note cases' = run_body_cases [OF e ex, of weak _ os lib]
  have s: "script_call os lib weak callee args p = (case fill_arguments ?as args of
      None \<Rightarrow> Some (Ret (ZNull, zend_throw_exception ArgumentCountError 0 [] p)) | Some zs \<Rightarrow> ?run zs)"
    using e by (simp add: script_call_def)
  show ?thesis
  proof (cases "entry_fits e")
    case True
    then have n: "required_num_args (fe_arginfo e) = min_num_args ?ps" "length ?as = max_num_args ?ps"
      by (simp_all add: entry_fits_def)
    note iff = fill_and_parse_iff [OF entry_fits_takes [OF True], of args weak 1]
    show ?thesis
    proof (cases "fill_arguments ?as args")
      case None
      then have "\<not> admits weak (fe_arginfo e) args" using iff by (auto simp: admits_def)
      with None s show ?thesis by (simp add: refusedI)
    next
      case (Some zs)
      have "length zs = length args" using Some by (rule fill_length)
      then have "admits weak (fe_arginfo e) args \<longleftrightarrow>
          parses weak ?ps zs"
        using iff Some n by (auto simp: admits_def parses_def)
      with Some s cases' [of zs] show ?thesis by (simp split: if_splits)
    qed
  next
    case False
    then have "fe_name e = ''rawStream''" using linux_entries_fit entry_of_callee [OF e] by (auto simp: list_all_iff)
    note r = rawStream_entry [OF e this]
    obtain i where "callee = MethodOf i ''rawStream''"
    proof (cases callee)
      case (FunctionNamed n)
      then show thesis using callee_entryD(1) [of n e] e r
        by (auto simp: perfidious_functions_def PERFIDIOUS_RAW_FENTRY_def PHP_ME_def)
    next
      case (MethodOf i n)
      then show thesis using that callee_entryD(2) [of i n e] e r by (simp add: PHP_ME_def)
    qed
    then have "objects p i \<noteq> None" using ex by simp
    then show ?thesis
      using rawStream_checked [of p i weak args os lib] s
      unfolding r PHP_ME_def \<open>callee = MethodOf i ''rawStream''\<close> function_entry.simps callee_object.simps by simp
  qed
qed

section \<open>What calls leave behind\<close>

text \<open>The functions over performance monitoring units change nothing but the pending exceptions.\<close>

definition throws :: "('k, 'e, 'z) machine_scheme \<Rightarrow> ('k, 'e, 'z) machine_scheme \<Rightarrow> bool" where
  "throws m m' \<longleftrightarrow> (\<exists>c n s. m' = zend_throw_exception c n s m)"

lemma throws_throw [simp]: "throws m (zend_throw_exception c n s m)" "throws m (pmu_not_found lib pre i e m)"
  by (auto simp: throws_def pmu_not_found_def)

definition at_most_throws :: "('k, 'e, 'z) machine_scheme \<Rightarrow> ('k, 'e, 'z) machine_scheme \<Rightarrow> bool" where
  "at_most_throws m m' \<longleftrightarrow> m' = m \<or> throws m m'"

lemma at_most_throws_simps [simp]:
  "at_most_throws m m" "at_most_throws m (zend_throw_exception c n s m)" "at_most_throws m (pmu_not_found lib pre i e m)"
  by (auto simp: at_most_throws_def pmu_not_found_def)

lemma event_info_throws:
  "perfidious_get_pmu_event_info lib info i m = (r, m') \<Longrightarrow> (if r = None then throws m m' else m' = m)"
  by (auto simp: perfidious_get_pmu_event_info_def split: sum.splits if_splits)

lemma collect_events_throws:
  assumes "collect_events lib info i acc m = Some (r, m')"
  shows "if r = None then throws m m' else m' = m"
proof -
  let ?P = "\<lambda>lib info i acc m y. if fst y = None then throws m (snd y) else snd y = m"
  have "?P lib info i acc m (r, m')"
  proof (rule collect_events.raw_induct [where P = ?P, OF _ assms], goal_cases)
    case (1 f lib info i acc m y)
    show ?case
    proof (cases "i = -1")
      case True
      with 1(2) show ?thesis by auto
    next
      case False
      obtain r m1 where e: "perfidious_get_pmu_event_info lib info i m = (r, m1)" by fastforce
      show ?thesis
      proof (cases r)
        case None
        with 1(2) False e event_info_throws [OF e] show ?thesis by auto
      next
        case (Some tmp)
        with 1(2) False e have "f lib info (pfm_get_event_next lib i) (acc @ [tmp]) m1 = Some y" by simp
        from 1(1) [OF this] event_info_throws [OF e] Some show ?thesis by (auto split: if_splits)
      qed
    qed
  qed
  then show ?thesis by (cases r) auto
qed

lemma pmu_functions_throw:
  "at_most_throws m (snd (get_pmu_info lib pmu m))" "at_most_throws m (snd (get_pmu_event_info lib pmu idx m))"
  "at_most_throws m (snd (list_pmus lib m))" "list_pmu_events lib pmu m = Some (v, m') \<Longrightarrow> at_most_throws m m'"
proof -
  show "at_most_throws m (snd (get_pmu_info lib pmu m))"
    by (auto simp: get_pmu_info_def perfidious_get_pmu_info_def split: sum.split)
  show "at_most_throws m (snd (get_pmu_event_info lib pmu idx m))"
    by (auto simp: get_pmu_event_info_def at_most_throws_def split: sum.split prod.split option.split dest!: event_info_throws)
  show "at_most_throws m (snd (list_pmus lib m))"
    by (simp add: list_pmus_def collect_pmus_run)
  show "at_most_throws m m'" if "list_pmu_events lib pmu m = Some (v, m')"
    using that by (auto simp: list_pmu_events_def at_most_throws_def split: sum.splits if_splits
        dest!: collect_events_throws)
qed

lemma process_ok_at_most_throws: "at_most_throws p p' \<Longrightarrow> process_ok p \<Longrightarrow> process_ok p'"
  by (auto simp: at_most_throws_def throws_def)

lemma safe_native:
  assumes "group_read_contract os" "process_ok p" "native_callable c p"
  shows "case run_native os lib c p of None \<Rightarrow> \<exists>pmu. c = ListPmuEvents pmu | Some r \<Rightarrow> safe r"
proof (cases c)
  case (HandleCall c')
  with assms show ?thesis by (simp add: safe_run_call)
next
  case (ListPmuEvents pmu)
  then show ?thesis using assms(2) pmu_functions_throw(4) [of lib pmu p]
    by (auto simp: process_ok_at_most_throws split: option.split)
qed (use assms(2) in \<open>auto intro!: safe_Ret process_ok_at_most_throws [OF pmu_functions_throw(1)]
      process_ok_at_most_throws [OF pmu_functions_throw(2)] process_ok_at_most_throws [OF pmu_functions_throw(3)]\<close>)


lemma only_event_listing_hangs:
  assumes "body_of this h vs = Some c" "run_native os lib c p = None"
  shows "h = ZEND_FN ''perfidious_list_pmu_events''"
proof -
  have "\<exists>pmu. c = ListPmuEvents pmu" using assms(2) by (cases c) auto
  with assms(1) show ?thesis
    by (auto simp: body_of_def split: option.splits if_splits
        elim!: open_call.elims rawStream_call.elims long_call.elims two_longs_call.elims plain_call.elims)
qed

lemma never_returns:
  assumes "script_call os lib weak callee args p = None" "callee_entry callee = Some e"
  shows "fe_name e = ''list_pmu_events''"
proof -
  have "fe_handler e = ZEND_FN ''perfidious_list_pmu_events''"
    using assms only_event_listing_hangs
    by (auto simp: script_call_def run_body_def split: option.splits prod.splits)
  then show ?thesis using entry_of_callee [OF assms(2)]
    by (auto simp: perfidious_functions_def perfidious_handle_methods_def PERFIDIOUS_RAW_FENTRY_def PHP_ME_def)
qed


text \<open>Entries for the examples.\<close>

lemma example_entries:
  "callee_entry (FunctionNamed ''open'') =
     Some (PERFIDIOUS_RAW_FENTRY ''open'' (ZEND_FN ''perfidious_open'') arginfo_Perfidious_open)"
  "callee_entry (FunctionNamed ''get_pmu_info'') =
     Some (PERFIDIOUS_RAW_FENTRY ''get_pmu_info'' (ZEND_FN ''perfidious_get_pmu_info'') arginfo_Perfidious_get_pmu_info)"
  by (simp_all add: perfidious_functions_def PERFIDIOUS_RAW_FENTRY_def)


end
