(* ===== verification/Calls_Results.thy ===== *)
theory Calls_Results
  imports Calls_Properties
begin

text \<open>
  What the calls of a script give back: a value of the declared type or an exception.
\<close>

section \<open>What calls return\<close>

text \<open>A method of \<open>Handle\<close> returns its own object as \<open>ZThis\<close>.\<close>

fun returned_as :: "arg_type \<Rightarrow> zval \<Rightarrow> bool" where
  "returned_as IS_LONG v = (\<exists>n. v = ZLong n)"
| "returned_as IS_STRING v = (\<exists>s. v = ZString s)"
| "returned_as IS_ARRAY v = (\<exists>ht. v = ZArray ht)"
| "returned_as (IS_OBJECT c) v = (instance_of v c \<or> v = ZThis \<and> c = ''Handle'')"
| "returned_as _ v = (v = ZNull)"

definition declared_result :: "arginfo \<Rightarrow> zval \<Rightarrow> bool" where
  "declared_result ai v =
     (case ai_return ai of None \<Rightarrow> True | Some (t, allow_null) \<Rightarrow> returned_as t v \<or> allow_null \<and> v = ZNull)"

text \<open>A result without an exception or an exception: from \<open>m\<close> to \<open>m'\<close> no exception is dropped, and one is added
  unless \<open>ok\<close>.\<close>

definition answers :: "bool \<Rightarrow> ('k, 'e, 'z) machine_scheme \<Rightarrow> ('k, 'e, 'z) machine_scheme \<Rightarrow> bool" where
  "answers ok m m' \<longleftrightarrow> error_mode m' = PERFIDIOUS_ERROR_MODE_THROW \<and>
     length (exceptions m) + (if ok then 0 else 1) \<le> length (exceptions m')"

abbreviation throwing_mode :: "('k, 'e, 'z) machine_scheme \<Rightarrow> bool" where
  "throwing_mode m \<equiv> error_mode m = PERFIDIOUS_ERROR_MODE_THROW"

lemma answers_mode: "answers ok m m' \<Longrightarrow> throwing_mode m'"
  by (simp add: answers_def)

lemma answers_refl [simp]: "answers True m m \<longleftrightarrow> throwing_mode m"
  by (simp add: answers_def)

lemma answers_trans [trans]: "answers True a b \<Longrightarrow> answers ok b c \<Longrightarrow> answers ok a c"
  by (simp add: answers_def)

lemma answers_then: "answers ok a b \<Longrightarrow> answers True b c \<Longrightarrow> answers ok a c"
  by (simp add: answers_def)

lemma answers_weaken: "answers False a b \<Longrightarrow> answers ok a b"
  by (simp add: answers_def)

lemma answers_throw [simp]: "answers ok m (zend_throw_exception c e s m) \<longleftrightarrow> throwing_mode m"
  by (simp add: answers_def)

lemma answers_helper [simp]: "throwing_mode m \<Longrightarrow> answers ok m (perfidious_error_helper c e s m)"
  by (simp add: perfidious_error_helper_throw)

lemma answers_same_php: "same_php m m' \<Longrightarrow> throwing_mode m \<Longrightarrow> answers True m m'"
  by (simp add: answers_def same_php_def)

subsection \<open>Reading\<close>

lemma to_long_answers:
  "perfidious_uint64_t_to_zend_long v m = (r, m') \<Longrightarrow> throwing_mode m \<Longrightarrow> answers (r \<noteq> None) m m'"
  by (auto simp: perfidious_uint64_t_to_zend_long_def split: if_splits)

lemma read_values_answers:
  "read_values os i n ms vs arr m = Ret (r, m') \<Longrightarrow> throwing_mode m \<Longrightarrow> answers (r \<noteq> None) m m'"
proof (induction os i n ms vs arr m rule: read_values.induct)
  case (2 os i n mt ms v vid vs arr m)
  obtain z m1 where z: "perfidious_uint64_t_to_zend_long v m = (z, m1)" by fastforce
  note a = to_long_answers [OF z \<open>throwing_mode m\<close>]
  note t = answers_mode [OF a]
  show ?case
  proof (cases "m_id mt = vid \<and> i \<noteq> 0 \<and> m_name mt \<noteq> None")
    case True
    then show ?thesis
    proof (cases z)
      case None
      with True 2(4) z a show ?thesis by auto
    next
      case (Some x)
      with True 2(3) [OF _ _ _ z [symmetric]] 2(4) z t have "answers (r \<noteq> None) m1 m'" by auto
      with a Some show ?thesis by (auto intro: answers_trans)
    qed
  next
    case False
    with 2 show ?thesis by (auto split: if_splits)
  qed
qed auto

lemma read_with_times_answers:
  assumes "perfidious_handle_read_to_array_with_times os h m = Ret (r, m')" "throwing_mode m"
  shows "answers (r \<noteq> None) m m'"
proof -
  obtain b ws m1 where rd: "perfidious_handle_read_raw os h (perfidious_handle_read_buffer_size h) m = (b, m1)" by fastforce
  then have "answers True m m1" using assms(2)
    by (auto simp: perfidious_handle_read_raw_def split: prod.splits dest!: sys_read_trace intro: answers_same_php)
  then have m1: "answers True m m1" "throwing_mode m1" by (auto dest: answers_mode)
  show ?thesis
  proof (cases b)
    case None
    with assms(1) rd m1 show ?thesis
      by (auto simp: perfidious_handle_read_to_array_with_times_def intro: answers_trans)
  next
    case (Some ws)
    let ?data = "decode_read_format (length (metrics h)) ws"
    obtain x m2 where x: "read_values os 0 (unat (rf_nr ?data)) (metrics h) (rf_values ?data) [] m1 = Ret (x, m2)"
      using assms(1) rd Some
      by (cases "read_values os 0 (unat (rf_nr ?data)) (metrics h) (rf_values ?data) [] m1")
        (auto simp: perfidious_handle_read_to_array_with_times_def Let_def)
    with assms(1) rd Some have "m' = m2" "(r = None) = (x = None)"
      by (auto simp: perfidious_handle_read_to_array_with_times_def Let_def split: option.splits)
    with read_values_answers [OF x m1(2)] m1(1) show ?thesis by (auto intro: answers_trans)
  qed
qed

lemma read_to_array_answers:
  "perfidious_handle_read_to_array os h m = Ret (r, m') \<Longrightarrow> throwing_mode m \<Longrightarrow>
     answers (r \<noteq> None) m m' \<and> (\<forall>v. r = Some v \<longrightarrow> (\<exists>ht. v = ZArray ht))"
  by (auto simp: perfidious_handle_read_to_array_def split: cval.splits option.splits dest!: read_with_times_answers)

lemma read_to_result_answers:
  assumes "perfidious_handle_read_to_result os h m = Ret (r, m')" "throwing_mode m"
  shows "answers (r \<noteq> None) m m' \<and> (\<forall>v. r = Some v \<longrightarrow> instance_of v ''ReadResult'')"
proof -
  obtain x m1 where x: "perfidious_handle_read_to_array_with_times os h m = Ret (x, m1)"
    using assms(1) by (cases "perfidious_handle_read_to_array_with_times os h m") (auto simp: perfidious_handle_read_to_result_def)
  note a = read_with_times_answers [OF x assms(2)]
  then have "throwing_mode m1" by (rule answers_mode)
  then have "answers True m m1 \<Longrightarrow> answers False m (zend_throw_exception c e s m1)" for c e s
    by (simp add: answers_def)
  with assms(1) x a show ?thesis
    by (auto simp: perfidious_handle_read_to_result_def perfidious_uint64_t_to_zend_long_def
        split: option.splits if_splits)
qed

subsection \<open>Methods\<close>

lemma enable_answers:
  assumes "perfidious_handle_enable os h m = (r, h', m')" "throwing_mode m"
  shows "answers True m m'"
proof -
  obtain e h1 m1 where s: "perfidious_handle_try_set_enabled os h True m = (e, h1, m1)" by (metis prod_cases3)
  then have "answers True m m1" using try_set_enabled_run [OF s] assms(2) by (auto intro: answers_same_php)
  moreover from this have "throwing_mode m1" by (rule answers_mode)
  ultimately show ?thesis using assms s
    by (auto simp: perfidious_handle_enable_def perfidious_handle_report_ioctl_result_def perfidious_handle_ioctl_error_def
        split: if_splits intro: answers_trans)
qed

lemma disable_answers:
  assumes "perfidious_handle_disable os h m = (r, h', m')" "throwing_mode m"
  shows "answers True m m'"
proof -
  obtain e h1 m1 where s: "perfidious_handle_try_set_enabled os h False m = (e, h1, m1)" by (metis prod_cases3)
  then have "answers True m m1" using try_set_enabled_run [OF s] assms(2) by (auto intro: answers_same_php)
  moreover from this have "throwing_mode m1" by (rule answers_mode)
  ultimately show ?thesis using assms s
    by (auto simp: perfidious_handle_disable_def perfidious_handle_report_ioctl_result_def perfidious_handle_ioctl_error_def
        split: if_splits intro: answers_trans)
qed

lemma at_handle_answers:
  fixes p :: "'k process"
  assumes "at_handle a f p = Ret (r, p')" "throwing_mode p"
    and "\<And>h r h' m'. f h p = (r, h', m') \<Longrightarrow> answers True p m'"
  shows "answers True p p'"
  using assms by (auto simp: at_handle_def answers_def split: option.splits prod.splits)

lemma boundary_answers:
  fixes p :: "'k process"
  assumes run: "read_at_boundary os rd a p = Ret (v, p')" and mode: "throwing_mode p"
    and rd: "\<And>h m r m'. rd h m = Ret (r, m') \<Longrightarrow> throwing_mode m \<Longrightarrow>
      answers (r \<noteq> None) m m' \<and> (\<forall>v. r = Some v \<longrightarrow> ok v)"
  shows "answers (ok v) p p'"
proof -
  obtain en p1 where 1: "with_handle a (\<lambda>h p. Ret (enabled h, p)) p = Ret (en, p1)" "p1 = p"
    using run by (auto simp: read_at_boundary_def cbind_Ret_iff with_handle_def split: option.splits)
  obtain r2 p2 r3 p3 r4 where
    2: "(if en then at_handle a (perfidious_handle_disable os) p else Ret (True, p)) = Ret (r2, p2)"
    and 3: "with_handle a rd p2 = Ret (r3, p3)"
    and 4: "(if en then at_handle a (perfidious_handle_enable os) p3 else Ret (True, p3)) = Ret (r4, p')"
    and v: "v = (case r3 of None \<Rightarrow> ZNull | Some z \<Rightarrow> z)"
    using run 1 by (auto simp: read_at_boundary_def cbind_Ret_iff)
  have "answers True p p2"
    using 2 mode by (auto split: if_splits elim!: at_handle_answers intro: disable_answers)
  moreover from this have "throwing_mode p2" by (rule answers_mode)
  then have 23: "answers (r3 \<noteq> None) p2 p3 \<and> (\<forall>v. r3 = Some v \<longrightarrow> ok v)"
    using 3 rd by (auto simp: with_handle_def split: option.splits)
  moreover from 23 have "throwing_mode p3" by (blast dest: answers_mode)
  then have "answers True p3 p'"
    using 4 by (auto split: if_splits elim!: at_handle_answers intro: enable_answers)
  ultimately show ?thesis
    using v by (cases r3) (auto simp: answers_def)
qed

lemma on_open_answers:
  fixes p :: "'k process"
  assumes "on_open_object this body p = Ret (v, p')" "throwing_mode p"
    and "\<And>a. body a p = Ret (v, p') \<Longrightarrow> answers (ok v) p p'"
  shows "answers (ok v) p p'"
  using assms
  by (auto simp: on_open_object_def perfidious_handle_obj_require_open_def answers_weaken split: option.splits)

lemma report_answers:
  assumes "cbind (at_handle a f p) (\<lambda>(r, p2). Ret (ZThis, p2)) = Ret (v, p')" "throwing_mode p"
    and "\<And>h r h' m'. f h p = (r, h', m') \<Longrightarrow> answers True p m'"
  shows "answers (v = ZThis) p p'"
  using assms at_handle_answers [of a f p] by (auto simp: cbind_Ret_iff)

lemma reset_answers:
  assumes "perfidious_handle_reset os h m = (r, h', m')" "throwing_mode m"
  shows "answers True m m'"
proof -
  obtain e h1 m1 where s: "perfidious_handle_try_reset os h m = (e, h1, m1)" by (metis prod_cases3)
  then have "answers True m m1" using try_reset_frame [OF s] assms(2) by (auto intro: answers_same_php)
  moreover from this have "throwing_mode m1" by (rule answers_mode)
  ultimately show ?thesis using assms s
    by (auto simp: perfidious_handle_reset_def split: if_splits intro: answers_trans)
qed

lemma close_answers:
  assumes "perfidious_handle_close os h m = (r, m')" "throwing_mode m"
  shows "answers True m m'"
proof -
  obtain e m1 where s: "perfidious_handle_try_close os h m = (e, m1)" by fastforce
  then have "answers True m m1" using try_close_live [OF s] assms(2) by (auto intro: answers_same_php)
  moreover from this have "throwing_mode m1" by (rule answers_mode)
  ultimately show ?thesis using assms s
    by (auto simp: perfidious_handle_close_def split: if_splits intro: answers_trans)
qed

text \<open>What each call returns when it throws nothing.\<close>

fun result_of_call :: "php_call \<Rightarrow> zval \<Rightarrow> bool" where
  "result_of_call (CallOpen ht pid cpu) v = instance_of v ''Handle''"
| "result_of_call CallRequestHandle v = (v = ZNull \<or> instance_of v ''Handle'')"
| "result_of_call (CallClose i) v = (v = ZNull)"
| "result_of_call (CallDisable i) v = (v = ZThis)"
| "result_of_call (CallEnable i) v = (v = ZThis)"
| "result_of_call (CallRawStream i idx) v = True"
| "result_of_call (CallRead i) v = instance_of v ''ReadResult''"
| "result_of_call (CallReadArray i) v = (\<exists>ht. v = ZArray ht)"
| "result_of_call (CallReset i) v = (v = ZThis)"
| "result_of_call CallNew v = instance_of v ''Handle''"

fun result_of_native :: "native_call \<Rightarrow> zval \<Rightarrow> bool" where
  "result_of_native (HandleCall c) v = result_of_call c v"
| "result_of_native (GetPmuInfo pmu) v = instance_of v ''PmuInfo''"
| "result_of_native (GetPmuEventInfo pmu idx) v = instance_of v ''PmuEventInfo''"
| "result_of_native ListPmus v = (\<exists>ht. v = ZArray ht)"
| "result_of_native (ListPmuEvents pmu) v = (\<exists>ht. v = ZArray ht)"

lemma check_perfmon_answers:
  assumes "check_perfmon os p = (ok, p')" "throwing_mode p"
  shows "answers ok p p'"
proof -
  obtain r1 p1 where l1: "lib_call (os_cap_get_proc os) p = (r1, p1)" by fastforce
  obtain r2 p2 where l2: "lib_call (os_cap_get_flag os) p1 = (r2, p2)" by fastforce
  obtain r3 p3 where l3: "lib_call (os_cap_free os) p2 = (r3, p3)" by fastforce
  have "same_php p p1" "same_php p p3"
    using lib_call_trace [OF l1] lib_call_trace [OF l2] lib_call_trace [OF l3] by (auto intro: same_php_trans)
  then have "answers True p p1" "throwing_mode p1" "answers True p p3" "throwing_mode p3"
    using assms(2) by (auto simp: same_php_def answers_def)
  with assms(1) l1 l2 l3 show ?thesis
    by (auto simp: check_perfmon_def Let_def split: if_splits intro: answers_trans)
qed

lemma open_arguments_answers:
  assumes "open_arguments os ht pid cpu p = (r, p')" "throwing_mode p"
  shows "answers (r \<noteq> None) p p'"
proof -
  obtain x p1 where x: "perfidious_zend_long_to_pid_t pid p = (x, p1)" by fastforce
  then have "if x = None then answers False p p1 else p1 = p" using assms(2)
    by (auto simp: perfidious_zend_long_to_pid_t_def split: if_splits)
  moreover obtain ok p2 where c: "(if 0 < the x then check_perfmon os p1 else (True, p1)) = (ok, p2)" by fastforce
  ultimately have a: "x \<noteq> None \<Longrightarrow> answers ok p p2 \<and> throwing_mode p2"
    using check_perfmon_answers [of os p1 ok p2] assms(2) by (auto split: if_splits dest: answers_mode)
  then have "x \<noteq> None \<Longrightarrow> answers ok p (zend_throw_exception ce n s p2)" for ce n s by (auto simp: answers_def)
  moreover have "x \<noteq> None \<Longrightarrow> ok \<Longrightarrow> answers False p (zend_throw_exception ce n s p2)" for ce n s
    using a by (auto simp: answers_def)
  ultimately show ?thesis using assms(1) x c a \<open>if x = None then answers False p p1 else p1 = p\<close>
    by (auto simp: open_arguments_def checked_cpu_and_names_def split: option.splits if_splits)
qed

lemma obj_free_answers:
  assumes "perfidious_handle_obj_free os i p = Ret p'" "throwing_mode p"
  shows "answers True p p'"
proof -
  obtain obj p1 where "objects p i = Some obj" and p': "p' = p1\<lparr>objects := (objects p1)(i := None)\<rparr>"
    and p1: "p1 = p \<or> (\<exists>a r. release_handle a (perfidious_handle_close os) p = Ret (r, p1))"
    using assms(1) by (auto simp: perfidious_handle_obj_free_def cbind_Ret_iff split: option.splits if_splits)
  from p1 have "answers True p p1"
  proof
    assume "\<exists>a r. release_handle a (perfidious_handle_close os) p = Ret (r, p1)"
    then obtain a h r where rel: "release_handle a (perfidious_handle_close os) p = Ret (r, p1)" "heap p a = Some h"
      by (auto simp: release_handle_def split: option.splits)
    obtain x q where q: "perfidious_handle_close os h p = (x, q)" by fastforce
    with rel have "exceptions p1 = exceptions q" "error_mode p1 = error_mode q" by (auto simp: release_handle_def)
    with close_answers [OF q] assms(2) show ?thesis by (simp add: answers_def)
  qed (use assms(2) in simp)
  with p' show ?thesis by (simp add: answers_def)
qed

lemma open_into_object_answers:
  assumes "open_into_object os names pid cpu p = Ret (v, p')" "throwing_mode p"
  shows "answers (instance_of v ''Handle'') p p'"
proof -
  obtain this p1 where c: "perfidious_handle_obj_create p = (this, p1)" by fastforce
  then have p1: "exceptions p1 = exceptions p" "error_mode p1 = error_mode p"
    by (auto simp: perfidious_handle_obj_create_def)
  obtain x p2 where x: "perfidious_handle_try_open_ex os names pid cpu False p1 = (x, p2)" by fastforce
  then have p2: "exceptions p2 = exceptions p" "throwing_mode p2"
    using try_open_ex_run [OF x] p1 assms(2) by (auto simp: same_php_def)
  show ?thesis
  proof (cases x)
    case (Inr h)
    with assms(1) c x p2 show ?thesis
      by (auto simp: open_into_object_def perfidious_handle_open_ex_def alloc_handle_def answers_def)
  next
    case (Inl e)
    then obtain ce where "exception_ce e = Some ce" using try_open_ex_failed [of os names pid cpu False p1 e p2] x by auto
    then have r: "perfidious_handle_open_ex os names pid cpu False p1 = (None, zend_throw_exception ce (code e) (take 511 (message e)) p2)"
      using x Inl p2(2) by (simp add: perfidious_handle_open_ex_def report_error_def perfidious_error_helper_throw)
    then obtain p3 where f: "perfidious_handle_obj_free os this (zend_throw_exception ce (code e) (take 511 (message e)) p2) = Ret p3"
      and v: "v = ZNull" "p' = p3"
      using assms(1) c by (auto simp: open_into_object_def cbind_Ret_iff)
    have "answers True (zend_throw_exception ce (code e) (take 511 (message e)) p2) p3"
      using f by (rule obj_free_answers) (simp add: p2)
    with v p2 show ?thesis by (simp add: answers_def)
  qed
qed

lemma open_answers:
  assumes "perfidious_open os ht pid cpu p = Ret (v, p')" "throwing_mode p"
  shows "answers (instance_of v ''Handle'') p p'"
proof -
  obtain x p1 where x: "open_arguments os ht pid cpu p = (x, p1)" by fastforce
  note a = open_arguments_answers [OF x assms(2)]
  show ?thesis
  proof (cases x)
    case None
    with assms(1) x a show ?thesis by (auto simp: perfidious_open_def intro: answers_weaken)
  next
    case (Some y)
    with assms(1) x have "open_into_object os (fst y) (fst (snd y)) (snd (snd y)) p1 = Ret (v, p')"
      by (auto simp: perfidious_open_def split: prod.splits)
    from open_into_object_answers [OF this answers_mode [OF a]] a Some show ?thesis
      by (auto intro: answers_trans)
  qed
qed

lemma request_handle_answers:
  assumes "perfidious_request_handle p = (v, p')" "throwing_mode p"
  shows "v = ZNull \<or> instance_of v ''Handle''"
  using assms by (auto simp: perfidious_request_handle_def Let_def perfidious_handle_obj_create_def split: if_splits option.splits)

lemma closing_answers:
  "PerfidiousHandle_close os i p = Ret (v, p') \<Longrightarrow> v = ZNull"
  by (auto simp: PerfidiousHandle_close_def Let_def cbind_Ret_iff split: option.splits if_splits)

definition result_or_exception :: "bool \<Rightarrow> ('k, 'e, 'z) machine_scheme \<Rightarrow> ('k, 'e, 'z) machine_scheme \<Rightarrow> bool" where
  "result_or_exception ok m m' \<longleftrightarrow> ok \<or> length (exceptions m) < length (exceptions m')"

lemma answers_result: "answers ok m m' \<Longrightarrow> result_or_exception ok m m'"
  by (auto simp: answers_def result_or_exception_def split: if_splits)

lemma run_call_result:
  assumes run: "run_call os c p = Ret (v, p')" and mode: "throwing_mode p"
  shows "result_or_exception (result_of_call c v) p p'"
proof (cases c)
  case (CallOpen ht pid cpu)
  with run mode show ?thesis by (auto intro: answers_result open_answers)
next
  case CallRequestHandle
  with run mode show ?thesis by (auto simp: result_or_exception_def dest: request_handle_answers)
next
  case (CallClose i)
  with run show ?thesis by (auto simp: result_or_exception_def dest: closing_answers)
next
  case (CallDisable i)
  with run mode show ?thesis
    by (auto simp: PerfidiousHandle_disable_def intro!: answers_result
        elim!: on_open_answers report_answers intro: disable_answers)
next
  case (CallEnable i)
  with run mode show ?thesis
    by (auto simp: PerfidiousHandle_enable_def intro!: answers_result
        elim!: on_open_answers report_answers intro: enable_answers)
next
  case (CallReset i)
  with run mode show ?thesis
    by (auto simp: PerfidiousHandle_reset_def intro!: answers_result
        elim!: on_open_answers report_answers intro: reset_answers)
next
  case (CallRead i)
  have "answers (instance_of v ''ReadResult'') p p'"
  proof (rule on_open_answers [where ok = "\<lambda>v. instance_of v ''ReadResult''"])
    show "on_open_object i (read_at_boundary os (perfidious_handle_read_to_result os)) p = Ret (v, p')"
      using run CallRead by (simp add: PerfidiousHandle_read_def)
    show "answers (instance_of v ''ReadResult'') p p'"
      if "read_at_boundary os (perfidious_handle_read_to_result os) a p = Ret (v, p')" for a
      by (rule boundary_answers [where ok = "\<lambda>v. instance_of v ''ReadResult''", OF that mode read_to_result_answers])
  qed (rule mode)
  with CallRead show ?thesis by (simp add: answers_result)
next
  case (CallReadArray i)
  have "answers (\<exists>ht. v = ZArray ht) p p'"
  proof (rule on_open_answers [where ok = "\<lambda>v. \<exists>ht. v = ZArray ht"])
    show "on_open_object i (read_at_boundary os (perfidious_handle_read_to_array os)) p = Ret (v, p')"
      using run CallReadArray by (simp add: PerfidiousHandle_readArray_def)
    show "answers (\<exists>ht. v = ZArray ht) p p'"
      if "read_at_boundary os (perfidious_handle_read_to_array os) a p = Ret (v, p')" for a
      by (rule boundary_answers [where ok = "\<lambda>v. \<exists>ht. v = ZArray ht", OF that mode read_to_array_answers])
  qed (rule mode)
  with CallReadArray show ?thesis by (simp add: answers_result)
next
  case CallNew
  with run show ?thesis by (auto simp: result_or_exception_def split: prod.splits)
qed (simp add: result_or_exception_def)

lemma pmu_functions_result:
  "get_pmu_info lib pmu m = (v, m') \<Longrightarrow> result_or_exception (instance_of v ''PmuInfo'') m m'"
  "get_pmu_event_info lib pmu idx m = (v, m') \<Longrightarrow> result_or_exception (instance_of v ''PmuEventInfo'') m m'"
  "list_pmus lib m = (v, m') \<Longrightarrow> result_or_exception (\<exists>ht. v = ZArray ht) m m'"
  "list_pmu_events lib pmu m = Some (v, m') \<Longrightarrow> result_or_exception (\<exists>ht. v = ZArray ht) m m'"
proof -
  show "result_or_exception (instance_of v ''PmuInfo'') m m'" if "get_pmu_info lib pmu m = (v, m')"
    using that by (auto simp: get_pmu_info_def perfidious_get_pmu_info_def perfidious_pmu_info_ctor_def
        result_or_exception_def pmu_not_found_def split: sum.splits)
  show "result_or_exception (instance_of v ''PmuEventInfo'') m m'" if "get_pmu_event_info lib pmu idx m = (v, m')"
    using that by (auto simp: get_pmu_event_info_def perfidious_get_pmu_event_info_def perfidious_pmu_event_info_ctor_def
        result_or_exception_def pmu_not_found_def split: sum.splits if_splits)
  show "result_or_exception (\<exists>ht. v = ZArray ht) m m'" if "list_pmus lib m = (v, m')"
    using that by (auto simp: list_pmus_def packed_array_def result_or_exception_def split: prod.splits)
  show "result_or_exception (\<exists>ht. v = ZArray ht) m m'" if "list_pmu_events lib pmu m = Some (v, m')"
    using that by (auto simp: list_pmu_events_def packed_array_def result_or_exception_def pmu_not_found_def throws_def
        split: sum.splits option.splits dest!: collect_events_throws)
qed

lemma run_native_result:
  assumes "run_native os lib c p = Some (Ret (v, p'))" "throwing_mode p"
  shows "result_or_exception (result_of_native c v) p p'"
  using assms
  by (cases c) (auto intro: run_call_result pmu_functions_result)

text \<open>What the C functions return is what their signatures declare.\<close>

lemma functions_declared:
  "list_all (\<lambda>e. \<forall>vs c v. body_of i (fe_handler e) vs = Some c \<longrightarrow> result_of_native c v \<longrightarrow> declared_result (fe_arginfo e) v)
     (perfidious_functions False)"
  by (auto simp: perfidious_functions_def PERFIDIOUS_RAW_FENTRY_def declared_result_def linux_arginfo arginfo_macros
      elim!: open_call.elims long_call.elims two_longs_call.elims plain_call.elims)

lemma methods_declared:
  "list_all (\<lambda>e. \<forall>vs c v. body_of i (fe_handler e) vs = Some c \<longrightarrow> result_of_native c v \<longrightarrow> declared_result (fe_arginfo e) v)
     (perfidious_handle_methods False)"
  by (auto simp: perfidious_handle_methods_def PHP_ME_def declared_result_def linux_arginfo arginfo_macros
      elim!: rawStream_call.elims plain_call.elims)

lemma result_or_exception_weaken:
  "result_or_exception a m m' \<Longrightarrow> (a \<Longrightarrow> b) \<Longrightarrow> result_or_exception b m m'"
  by (auto simp: result_or_exception_def)

text \<open>C11 (calls_return_declared_types). With errors as exceptions, every call that returns either gives a value of the type its
  signature declares or has thrown: no function hands null or a wrong type to a script without an exception.\<close>

theorem calls_return_declared_types:
  assumes "throwing_mode p" and "callee_entry callee = Some e"
    and "script_call os lib weak callee args p = Some (Ret (v, p'))"
  shows "result_or_exception (declared_result (fe_arginfo e) v) p p'"
proof (cases "fill_arguments (ai_args (fe_arginfo e)) args")
  case None
  with assms show ?thesis by (auto simp: script_call_def result_or_exception_def)
next
  case (Some zs)
  let ?h = "fe_handler e" and ?i = "callee_object callee"
  have run: "run_body os lib weak ?i ?h zs p = Some (Ret (v, p'))"
    using assms(2,3) Some by (simp add: script_call_def)
  obtain r p1 where z: "zend_parse_parameters weak (parameters_of ?h) zs p = (r, p1)" by fastforce
  show ?thesis
  proof (cases r)
    case None
    with run z show ?thesis
      by (auto simp: run_body_def zend_parse_parameters_def result_or_exception_def split: if_splits sum.splits)
  next
    case (Some vs)
    with z have "p1 = p" by (auto simp: zend_parse_parameters_def split: if_splits sum.splits)
    with run z Some obtain c where c: "body_of ?i ?h vs = Some c" "run_native os lib c p = Some (Ret (v, p'))"
      by (auto simp: run_body_def split: option.splits)
    have "result_of_native c v \<Longrightarrow> declared_result (fe_arginfo e) v"
      using entry_of_callee [OF assms(2)] functions_declared [of ?i] methods_declared [of ?i] c(1)
      by (auto simp: list_all_iff)
    with run_native_result [OF c(2) assms(1)] show ?thesis by (rule result_or_exception_weaken)
  qed
qed

theorem calls_return_declared_types_witness:
  "result_or_exception (declared_result arginfo_Perfidious_get_pmu_info
       (perfidious_pmu_info_ctor (projr (pfm_get_pmu_info demo_libpfm 1))))
     (demo_process False None) (demo_process False None)"
proof -
  have "script_call demo_os demo_libpfm strict_types (FunctionNamed ''get_pmu_info'') [Some (ZLong 1)] (demo_process False None) =
      Some (Ret (perfidious_pmu_info_ctor (projr (pfm_get_pmu_info demo_libpfm 1)), demo_process False None))"
    by (simp add: script_call_def example_entries(2) del: callee_entry.simps)
      (simp add: PERFIDIOUS_RAW_FENTRY_def linux_arginfo arginfo_macros run_body_def zend_parse_parameters_def
        parameters_defs all_params_def get_pmu_info_def perfidious_get_pmu_info_def perfidious_pfm_get_pmu_info_def demo_libpfm_def)
  from calls_return_declared_types [OF _ example_entries(2) this] show ?thesis
    by (simp add: PERFIDIOUS_RAW_FENTRY_def demo_process_def)
qed

end
