(* ===== verification/Calls_Defaults.thy ===== *)
theory Calls_Defaults
  imports Calls_Properties Windows_Properties Sampler_Properties
begin

text \<open>
  Arguments a call leaves out, and the default values of the signatures.
\<close>

section \<open>Arguments that are left out\<close>

text \<open>The arguments with the defaults of the signature written out.\<close>

fun complete_arguments :: "zend_arg list \<Rightarrow> zval option list \<Rightarrow> zval option list" where
  "complete_arguments [] args = args"
| "complete_arguments (a # as) [] = arg_default_value a # complete_arguments as []"
| "complete_arguments (a # as) (z # zs) =
     (case z of None \<Rightarrow> arg_default_value a | Some v \<Rightarrow> Some v) # complete_arguments as zs"

definition defaults_of :: "zend_arg list \<Rightarrow> zval list" where
  "defaults_of as = map (\<lambda>a. the (arg_default_value a)) as"

lemma fill_complete:
  "length args \<le> length as \<Longrightarrow> list_all (\<lambda>a. arg_default_value a \<noteq> None) (drop (length args) as) \<Longrightarrow>
     fill_arguments as (complete_arguments as args) =
       map_option (\<lambda>zs. zs @ defaults_of (drop (length args) as)) (fill_arguments as args)"
proof (induction as args rule: complete_arguments.induct)
  case (1 args)
  then show ?case by (cases "fill_arguments [] args") (simp_all add: defaults_of_def)
next
  case (2 a as)
  then show ?case by (auto simp: defaults_of_def)
next
  case (3 a as z zs)
  then show ?case
    by (cases z; cases "arg_default_value a") (auto simp: option.map_comp comp_def)
qed

text \<open>Each body starts from the defaults its signature declares.\<close>

lemma optional_defaults:
  "map arg_default_value (drop 1 (ai_args arginfo_Perfidious_open)) = [Some (ZLong 0), Some (ZLong (-1))]"
  "map arg_default_value (ai_args arginfo_class_Perfidious_Handle_rawStream) = [Some (ZLong 0)]"
  "map arg_default_value (drop 1 (ai_args arginfo_class_Perfidious_Sampler_open)) =
     [Some (scope_case PERFIDIOUS_SCOPE_CURRENT_THREAD)]"
  "map arg_default_value (ai_args arginfo_Perfidious_Windows_enable_current_thread_profiling) = [Some (ZLong 0)]"
  by code_simp+

lemma open_defaults:
  "run_body os lib weak i (ZEND_FN ''perfidious_open'') [a, ZLong 0, ZLong (-1)] p =
     run_body os lib weak i (ZEND_FN ''perfidious_open'') [a] p"
  "run_body os lib weak i (ZEND_FN ''perfidious_open'') [a, b, ZLong (-1)] p =
     run_body os lib weak i (ZEND_FN ''perfidious_open'') [a, b] p"
proof -
  show "run_body os lib weak i (ZEND_FN ''perfidious_open'') [a, ZLong 0, ZLong (-1)] p =
      run_body os lib weak i (ZEND_FN ''perfidious_open'') [a] p"
    by (cases a) (simp_all add: run_body_def zend_parse_parameters_def parameters_defs all_params_def)
  have "parse_long weak b = None \<or> (\<exists>n. parse_long weak b = Some (ZLong n))"
    using parse_long_long [of weak b] by (cases "parse_long weak b") auto
  then show "run_body os lib weak i (ZEND_FN ''perfidious_open'') [a, b, ZLong (-1)] p =
      run_body os lib weak i (ZEND_FN ''perfidious_open'') [a, b] p"
    by (cases a) (auto simp: run_body_def zend_parse_parameters_def parameters_defs all_params_def)
qed

lemma rawStream_default:
  "run_body os lib weak i (ZEND_MN ''PerfidiousHandle'' ''rawStream'') [ZLong 0] p =
     run_body os lib weak i (ZEND_MN ''PerfidiousHandle'' ''rawStream'') [] p"
  by (simp add: run_rawStream)

definition no_optional :: "function_entry \<Rightarrow> bool" where
  "no_optional e \<longleftrightarrow> required_num_args (fe_arginfo e) = length (ai_args (fe_arginfo e))"

lemma optional_entries:
  "list_all (\<lambda>e. no_optional e \<or> e = PERFIDIOUS_RAW_FENTRY ''open'' (ZEND_FN ''perfidious_open'') arginfo_Perfidious_open \<or>
      e = PHP_ME ''PerfidiousHandle'' ''rawStream'' arginfo_class_Perfidious_Handle_rawStream [ZEND_ACC_PUBLIC, ZEND_ACC_FINAL])
     (perfidious_functions False @ perfidious_handle_methods False)"
  by (simp add: perfidious_functions_def perfidious_handle_methods_def no_optional_def PERFIDIOUS_RAW_FENTRY_def PHP_ME_def
      linux_arginfo arginfo_macros required_num_args_def)

text \<open>A call is the same with the defaults written out.\<close>

definition same_with_defaults :: "zend_arg list \<Rightarrow> (zval list \<Rightarrow> 'r) \<Rightarrow> bool" where
  "same_with_defaults as f \<longleftrightarrow>
     (\<forall>zs. length zs \<le> length as \<longrightarrow> list_all (\<lambda>a. arg_default_value a \<noteq> None) (drop (length zs) as) \<longrightarrow>
        f (zs @ defaults_of (drop (length zs) as)) = f zs)"

lemma complete_same:
  assumes "same_with_defaults as f" "length args \<le> length as"
    and "list_all (\<lambda>a. arg_default_value a \<noteq> None) (drop (length args) as)"
  shows "(case fill_arguments as (complete_arguments as args) of None \<Rightarrow> x | Some zs \<Rightarrow> f zs) =
    (case fill_arguments as args of None \<Rightarrow> x | Some zs \<Rightarrow> f zs)"
proof (cases "fill_arguments as args")
  case (Some zs)
  have "length zs = length args" using Some by (rule fill_length)
  with assms(1) [unfolded same_with_defaults_def, THEN spec, of zs] assms(2,3)
  have "f (zs @ defaults_of (drop (length args) as)) = f zs" by simp
  with Some fill_complete [OF assms(2,3)] show ?thesis by simp
qed (simp add: fill_complete [OF assms(2,3)])

lemma same_with_defaultsI:
  assumes "map arg_default_value (drop k as) = map Some ds" "list_all (\<lambda>a. arg_default_value a = None) (take k as)"
    and "\<And>zs. k \<le> length zs \<Longrightarrow> length zs \<le> length as \<Longrightarrow> f (zs @ drop (length zs - k) ds) = f zs"
  shows "same_with_defaults as f"
  unfolding same_with_defaults_def
proof (intro allI impI)
  fix zs :: "zval list"
  assume le: "length zs \<le> length as" and d: "list_all (\<lambda>a. arg_default_value a \<noteq> None) (drop (length zs) as)"
  have "k \<le> length zs \<or> zs = [] \<or> length zs = length as \<or> length zs < k" by auto
  show "f (zs @ defaults_of (drop (length zs) as)) = f zs"
  proof (cases "k \<le> length zs")
    case True
    then have "map arg_default_value (drop (length zs) as) = drop (length zs - k) (map arg_default_value (drop k as))"
      by (simp add: drop_map)
    then have "map arg_default_value (drop (length zs) as) = map Some (drop (length zs - k) ds)"
      unfolding assms(1) by (simp add: drop_map)
    then have "map (\<lambda>a. the (arg_default_value a)) (drop (length zs) as) = drop (length zs - k) ds"
      by (metis (no_types, lifting) map_map comp_def list.map_cong0 list.map_ident option.sel)
    with assms(3) True le show ?thesis by (simp add: defaults_of_def)
  next
    case False
    then have n: "length zs < k" by simp
    show ?thesis
    proof (cases "length zs < length as")
      case True
      then have "as ! length zs \<in> set (drop (length zs) as)" by (metis Cons_nth_drop_Suc list.set_intros(1))
      moreover have "as ! length zs \<in> set (take k as)" using True n by (auto simp: in_set_conv_nth)
      ultimately show ?thesis using d assms(2) by (auto simp: list_all_iff)
    qed (use le in \<open>simp add: defaults_of_def\<close>)
  qed
qed

lemma scripts_same_with_defaults:
  "same_with_defaults (ai_args arginfo_Perfidious_open) (\<lambda>zs. run_body os lib weak i (ZEND_FN ''perfidious_open'') zs p)"
  "same_with_defaults (ai_args arginfo_class_Perfidious_Handle_rawStream)
     (\<lambda>zs. run_body os lib weak i (ZEND_MN ''PerfidiousHandle'' ''rawStream'') zs p)"
proof -
  have "run_body os lib weak i (ZEND_FN ''perfidious_open'') (zs @ drop (length zs - 1) [ZLong 0, ZLong (-1)]) p =
      run_body os lib weak i (ZEND_FN ''perfidious_open'') zs p" if "1 \<le> length zs" "length zs \<le> 3" for zs
  proof -
    have "length zs \<le> Suc (Suc (Suc 0))" using that(2) by simp
    with that(1) show ?thesis using open_defaults(1) [of os lib weak i _ p] by (auto simp: le_args open_defaults(2))
  qed
  moreover have "length (ai_args arginfo_Perfidious_open) = 3" by (simp add: linux_arginfo arginfo_macros)
  moreover have "list_all (\<lambda>a. arg_default_value a = None) (take 1 (ai_args arginfo_Perfidious_open))" by code_simp
  ultimately show "same_with_defaults (ai_args arginfo_Perfidious_open) (\<lambda>zs. run_body os lib weak i (ZEND_FN ''perfidious_open'') zs p)"
    by (intro same_with_defaultsI [where k = 1 and ds = "[ZLong 0, ZLong (-1)]"]) (simp_all add: optional_defaults(1) [simplified])
  have "run_body os lib weak i (ZEND_MN ''PerfidiousHandle'' ''rawStream'') (zs @ drop (length zs) [ZLong 0]) p =
      run_body os lib weak i (ZEND_MN ''PerfidiousHandle'' ''rawStream'') zs p" if "length zs \<le> 1" for zs
    using that by (auto simp: le_args rawStream_default)
  moreover have "length (ai_args arginfo_class_Perfidious_Handle_rawStream) = 1" by (simp add: linux_arginfo arginfo_macros)
  ultimately show "same_with_defaults (ai_args arginfo_class_Perfidious_Handle_rawStream)
     (\<lambda>zs. run_body os lib weak i (ZEND_MN ''PerfidiousHandle'' ''rawStream'') zs p)"
    by (intro same_with_defaultsI [where k = 0 and ds = "[ZLong 0]"]) (simp_all add: optional_defaults(2))
qed

lemma sampler_scripts_same:
  "same_with_defaults (ai_args arginfo_class_Perfidious_Sampler_open)
     (\<lambda>zs. case zend_parse_parameters weak sampler_open_parameters zs (engine w) of
        (None, m1) \<Rightarrow> Some (Ret (None, w\<lparr>engine := m1\<rparr>))
      | (Some vs, m1) \<Rightarrow> sampler_open_body be vs (w\<lparr>engine := m1\<rparr>))"
  (is "same_with_defaults _ ?f")
proof -
  have thread: "PerfidiousSampler_open be vals (Some (scope_case PERFIDIOUS_SCOPE_CURRENT_THREAD)) v =
      PerfidiousSampler_open be vals None v" for vals v
    unfolding PerfidiousSampler_open_def perfidious_scope_from_zval_def by simp
  have "instance_of (scope_case PERFIDIOUS_SCOPE_CURRENT_THREAD) ''Scope''" by (simp add: scope_case_def)
  then have "?f [z, scope_case PERFIDIOUS_SCOPE_CURRENT_THREAD] = ?f [z]" for z
    by (cases z) (simp_all add: zend_parse_parameters_def parameters_defs all_params_def thread)
  then have "?f (zs @ drop (length zs - 1) [scope_case PERFIDIOUS_SCOPE_CURRENT_THREAD]) = ?f zs"
    if "1 \<le> length zs" "length zs \<le> 2" for zs
  proof -
    have "length zs \<le> Suc (Suc 0)" using that(2) by simp
    with that(1) show ?thesis
      using \<open>\<And>z. ?f [z, scope_case PERFIDIOUS_SCOPE_CURRENT_THREAD] = ?f [z]\<close> by (auto simp: le_args)
  qed
  moreover have "length (ai_args arginfo_class_Perfidious_Sampler_open) = 2" by (simp add: common_arginfo arginfo_macros)
  moreover have "list_all (\<lambda>a. arg_default_value a = None) (take 1 (ai_args arginfo_class_Perfidious_Sampler_open))"
    by code_simp
  ultimately show ?thesis
    by (intro same_with_defaultsI [where k = 1 and ds = "[scope_case PERFIDIOUS_SCOPE_CURRENT_THREAD]"])
      (simp_all add: optional_defaults(3) [simplified])
qed

lemma profiling_scripts_same:
  "same_with_defaults (ai_args arginfo_Perfidious_Windows_enable_current_thread_profiling)
     (\<lambda>zs. case zend_parse_parameters weak enable_current_thread_profiling_parameters zs p of
        (None, p1) \<Rightarrow> Ret (None, p1) | (Some vs, p1) \<Rightarrow> profiling_body os vs p1)"
  (is "same_with_defaults _ ?f")
proof -
  have "?f [ZLong 0] = ?f []" by (simp add: zend_parse_parameters_def parameters_defs all_params_def)
  then have "?f (zs @ drop (length zs) [ZLong 0]) = ?f zs" if "length zs \<le> 1" for zs
    using that by (auto simp: le_args)
  moreover have "length (ai_args arginfo_Perfidious_Windows_enable_current_thread_profiling) = 1"
    by (simp add: windows_arginfo arginfo_macros)
  ultimately show ?thesis
    by (intro same_with_defaultsI [where k = 0 and ds = "[ZLong 0]"]) (simp_all add: optional_defaults(4))
qed

text \<open>C12 (omitted_arguments_are_defaults). Leaving arguments out and writing the defaults of the signature give the same call, in
  every respect: for each function and method of the Linux build, for \<open>Sampler::open\<close> on any platform, and for the
  Windows function that profiles a thread. The values the C variables start with are those the signatures show.\<close>

theorem omitted_arguments_are_defaults:
  assumes "callee_entry callee = Some e"
    and "required_num_args (fe_arginfo e) \<le> length args" and "length args \<le> length (ai_args (fe_arginfo e))"
    and "1 \<le> length sargs" and "length sargs \<le> 2" and "length wargs \<le> 1"
  shows "script_call os lib weak callee (complete_arguments (ai_args (fe_arginfo e)) args) p =
      script_call os lib weak callee args p \<and>
    sampler_open_script be weak (complete_arguments (ai_args arginfo_class_Perfidious_Sampler_open) sargs) w =
      sampler_open_script be weak sargs w \<and>
    profiling_script wos weak
        (complete_arguments (ai_args arginfo_Perfidious_Windows_enable_current_thread_profiling) wargs) wp =
      profiling_script wos weak wargs wp"
proof (intro conjI)
  let ?as = "ai_args (fe_arginfo e)"
  have d: "list_all (\<lambda>e. well_formed_arginfo (fe_arginfo e) \<and>
      list_all (\<lambda>a. arg_default_value a \<noteq> None) (drop (required_num_args (fe_arginfo e)) (ai_args (fe_arginfo e))))
    (perfidious_functions False @ perfidious_handle_methods False)" by code_simp
  have same: "same_with_defaults ?as (\<lambda>zs. run_body os lib weak (callee_object callee) (fe_handler e) zs p) \<or>
      length args = length ?as"
  proof -
    consider "no_optional e"
      | "e = PERFIDIOUS_RAW_FENTRY ''open'' (ZEND_FN ''perfidious_open'') arginfo_Perfidious_open"
      | "e = PHP_ME ''PerfidiousHandle'' ''rawStream'' arginfo_class_Perfidious_Handle_rawStream [ZEND_ACC_PUBLIC, ZEND_ACC_FINAL]"
      using optional_entries entry_of_callee [OF assms(1)] unfolding list_all_iff by blast
    then show ?thesis
    proof cases
      case 1
      with assms(2,3) show ?thesis by (simp add: no_optional_def)
    next
      case 2
      then show ?thesis by (simp add: PERFIDIOUS_RAW_FENTRY_def scripts_same_with_defaults)
    next
      case 3
      then show ?thesis by (simp add: PHP_ME_def scripts_same_with_defaults)
    qed
  qed
  have tail: "list_all (\<lambda>a. arg_default_value a \<noteq> None) (drop (length args) ?as)"
  proof -
    have "list_all (\<lambda>a. arg_default_value a \<noteq> None) (drop (required_num_args (fe_arginfo e)) ?as)"
      using d entry_of_callee [OF assms(1)] by (auto simp: list_all_iff)
    moreover have "set (drop (length args) ?as) \<subseteq> set (drop (required_num_args (fe_arginfo e)) ?as)"
      using assms(2) by (rule set_drop_subset_set_drop)
    ultimately show ?thesis by (auto simp: list_all_iff)
  qed
  show "script_call os lib weak callee (complete_arguments ?as args) p = script_call os lib weak callee args p"
    using same
  proof
    assume "same_with_defaults ?as (\<lambda>zs. run_body os lib weak (callee_object callee) (fe_handler e) zs p)"
    from complete_same [OF this assms(3) tail] show ?thesis by (simp add: script_call_def assms(1))
  next
    assume n: "length args = length ?as"
    then have "fill_arguments ?as (complete_arguments ?as args) = fill_arguments ?as args"
      using fill_complete [OF assms(3) tail] by (cases "fill_arguments ?as args") (simp_all add: defaults_of_def)
    then show ?thesis by (simp add: script_call_def assms(1))
  qed
  have "list_all (\<lambda>a. arg_default_value a \<noteq> None) (drop 1 (ai_args arginfo_class_Perfidious_Sampler_open))"
    "list_all (\<lambda>a. arg_default_value a \<noteq> None) (ai_args arginfo_Perfidious_Windows_enable_current_thread_profiling)"
    by code_simp+
  then have "list_all (\<lambda>a. arg_default_value a \<noteq> None) (drop (length sargs) (ai_args arginfo_class_Perfidious_Sampler_open))"
    "list_all (\<lambda>a. arg_default_value a \<noteq> None)
       (drop (length wargs) (ai_args arginfo_Perfidious_Windows_enable_current_thread_profiling))"
    using set_drop_subset_set_drop [OF assms(4), of "ai_args arginfo_class_Perfidious_Sampler_open"]
      set_drop_subset [of "length wargs" "ai_args arginfo_Perfidious_Windows_enable_current_thread_profiling"]
    unfolding list_all_iff by blast+
  moreover have "length (ai_args arginfo_class_Perfidious_Sampler_open) = 2"
    "length (ai_args arginfo_Perfidious_Windows_enable_current_thread_profiling) = 1"
    by (simp_all add: common_arginfo windows_arginfo arginfo_macros)
  ultimately show
    "sampler_open_script be weak (complete_arguments (ai_args arginfo_class_Perfidious_Sampler_open) sargs) w =
       sampler_open_script be weak sargs w"
    "profiling_script wos weak
        (complete_arguments (ai_args arginfo_Perfidious_Windows_enable_current_thread_profiling) wargs) wp =
       profiling_script wos weak wargs wp"
    using complete_same [OF sampler_scripts_same, of sargs] complete_same [OF profiling_scripts_same, of wargs] assms(5,6)
    unfolding sampler_open_script_def profiling_script_def by simp_all
qed

theorem omitted_arguments_are_defaults_witness:
  "script_call demo_os demo_libpfm strict_types (FunctionNamed ''open'')
       [Some (ZArray []), Some (ZLong 0), Some (ZLong 2)] (demo_process False None) =
     script_call demo_os demo_libpfm strict_types (FunctionNamed ''open'')
       [Some (ZArray []), None, Some (ZLong 2)] (demo_process False None) \<and>
   sampler_open_script (linux_backend demo_os) strict_types
       [Some (ZArray []), Some (scope_case PERFIDIOUS_SCOPE_CURRENT_THREAD)] demo_world =
     sampler_open_script (linux_backend demo_os) strict_types [Some (ZArray [])] demo_world \<and>
   profiling_script demo_windows strict_types [Some (ZLong 0)] demo_windows_process =
     profiling_script demo_windows strict_types [] demo_windows_process"
proof -
  have c: "complete_arguments (ai_args arginfo_Perfidious_open) [Some (ZArray []), None, Some (ZLong 2)] =
      [Some (ZArray []), Some (ZLong 0), Some (ZLong 2)]"
    "complete_arguments (ai_args arginfo_class_Perfidious_Sampler_open) [Some (ZArray [])] =
      [Some (ZArray []), Some (scope_case PERFIDIOUS_SCOPE_CURRENT_THREAD)]"
    "complete_arguments (ai_args arginfo_Perfidious_Windows_enable_current_thread_profiling) [] = [Some (ZLong 0)]"
    by code_simp+
  show ?thesis
    using omitted_arguments_are_defaults [OF example_entries(1), of "[Some (ZArray []), None, Some (ZLong 2)]"
        "[Some (ZArray [])]" "[]" demo_os demo_libpfm strict_types "demo_process False None" "linux_backend demo_os" demo_world
        demo_windows demo_windows_process]
    by (simp add: PERFIDIOUS_RAW_FENTRY_def c) (simp add: linux_arginfo arginfo_macros required_num_args_def)
qed

end
