(* ===== verification/Spec2Isabelle.thy ===== *)
theory Spec2Isabelle
  imports Base_Properties Handle_Properties Lifecycle_Properties Sampler_Properties Windows_Life
    Darwin_Properties Pmu_Properties Module_Properties Stopwatch Debug_Properties Sampler_Order
    Calls_Results Calls_Defaults
begin

text \<open>
  A verification library for the PHP extension perfidious, which gives PHP programs access to
  hardware and system performance counters on Linux, Windows and macOS.

  \<^bold>\<open>The program.\<close> On Linux the extension opens groups of perf events (\<open>src/handle.c\<close>, class
  \<open>Handle\<close>), resolves event names with libpfm, and can keep one group for the whole process
  that it resets, enables and disables around every request (\<open>src/linux/platform.c\<close>,
  \<open>src/extension.c\<close>); \<open>src/functions.c\<close> has \<open>open()\<close>, \<open>request_handle()\<close> and the listings of
  monitoring units. On every system it has samplers (\<open>src/sampler.c\<close>): a portable layer that
  checks metrics, takes differences and counts references, over a backend per system
  (\<open>src/linux/sampler.c\<close>, \<open>src/windows/sampler.c\<close>, \<open>src/darwin/sampler.c\<close>). Windows and macOS have
  functions of their own (\<open>src/windows/functions.c\<close>, \<open>src/darwin/functions.c\<close>).

  \<^bold>\<open>How it is modelled.\<close> A native function is a HOL function on an explicit state. The state of
  the engine is the record \<open>machine\<close>: the state of the operating system, \<open>errno\<close>, a trace of the
  system calls that matter, the pending exceptions, the warnings, the error mode. The operating
  system and libpfm are not part of the repository: each is a record of functions over a state of an
  arbitrary type (\<open>linux_os\<close>, \<open>windows_os\<close>, \<open>darwin_os\<close>, \<open>libpfm\<close>), so theorems hold for every answer they
  can give; the few that need documented behaviour name it as a hypothesis. Failures are \<open>None\<close> or
  \<open>Inl\<close>; what the C language leaves undefined, such as a use after free or a read outside a
  buffer, is the result \<open>Undefined\<close> of the type \<open>cval\<close>. Counters are machine words, so every wrap-around
  of the code is one of the model. PHP integers are \<open>int\<close> and every conversion to them is the code's
  own check.

  \<^bold>\<open>The theories.\<close>
  \<^item> \<open>Prelude\<close>: words and the guards against overflow, text, chains of fallible calls, sums
    over maps, \<open>cval\<close>. \<open>Engine\<close>: values, exceptions, the error helpers of \<open>src/private.h\<close>,
    functions that report each failure with one exception (\<open>reports\<close>), and the interface
    \<open>checked_to_long\<close> of a checked conversion, interpreted for each system's own conversion.
  \<^item> \<open>Counter_Math\<close> (\<open>src/linux/counter_math.h\<close>): both bodies of the scaling routine, and the interfaces
    \<open>counter_scaling\<close> and \<open>exact_counter_scaling\<close> that they implement.
  \<^item> \<open>Linux_Os\<close>, \<open>Handle\<close>, \<open>Handle_Object\<close>: system calls, handles (open, enable, reset, read, close) and
    the methods of the class \<open>Handle\<close>. \<open>Request\<close>, \<open>Lifecycle\<close>: the life of the request handle, \<open>open()\<close>
    and \<open>request_handle()\<close>, the module hooks, and a step relation over all calls with its invariant.
  \<^item> \<open>Stopwatch\<close>: what a handle is for. The abstract group \<open>perf_group\<close> is switched, cleared, and counts
    while it is on; \<open>perf_group_contract\<close> states what the kernel documents of a group, and the methods of a
    handle refine the operations of the abstract one, each over the interface \<open>watch_operation\<close> or \<open>watch_reader\<close>.
  \<^item> \<open>Debug\<close> and \<open>No_Capabilities\<close>: the build with \<open>PERFIDIOUS_DEBUG\<close> (functions and methods that inject
    failures, two more globals, \<open>open()\<close> without its check) as a step relation of its own, and the fact that
    nothing but that check of the release build depends on capabilities.
  \<^item> \<open>Sampler\<close>, \<open>Sampler_Life\<close>: the portable sampler over a record of platform operations, the
    reference counts of identities, and the interface \<open>platform_sampler\<close>: what a backend acquires,
    releases and reports. The properties of every sequence of calls are proved once in that locale.
    \<open>Linux_Sampler\<close>, \<open>Windows_Sampler\<close> and \<open>Darwin_Sampler\<close> are the backends and interpret it.
  \<^item> \<open>Windows_Os\<close>, \<open>Windows_Functions\<close>, \<open>Darwin_Os\<close>, \<open>Darwin_Functions\<close>: the calls and the PHP functions
    of the two systems; \<open>Windows_Life\<close>: sequences of calls on thread profiles. \<open>Pmu\<close>: monitoring units and
    their events. \<open>Classes\<close>: the classes the extension registers and when the engine accepts a write of a
    property. \<open>Module\<close>: the functions of \<open>src/platform.h\<close> as a record with its three instances (Linux, and Windows
    and macOS by \<open>src/platform.c\<close>), enums, constants, and module start over them.
  \<^item> \<open>Signatures\<close>: the signatures of \<open>src/common_arginfo.h\<close> and the other generated headers, the parameters that
    the function bodies parse, and the tables that give each name its C function and its signature. \<open>Calls\<close>: the
    way of a script's call through them: look the name up, complete the arguments, parse them, run the body.
  \<^item> \<open>Sampler_Order\<close>: the order of samples, for the backends whose counters only grow (\<open>monotone_sampler\<close>).
  \<^item> \<open>Demo_Os\<close> has a concrete Linux for witnesses; the theories named \<open>_Properties\<close> have the theorems.

  \<^bold>\<open>What is shown.\<close>
  \<^item> Life cycle: from any start, no sequence of module hooks, functions and methods has undefined
    behaviour; every native handle has exactly one owner; no descriptor is leaked; a forked child
    closes what it inherited and nothing else.
  \<^item> Handles: opening is all or nothing, reading never leaves its buffer and returns every event,
    resetting keeps counters and baselines consistent also when a call fails, closing releases in
    reverse order, the flag of a handle follows the kernel. A handle from \<open>open()\<close> behaves, over every
    sequence of its methods, as a stopwatch that starts switched off and at zero.
  \<^item> Debug build: it reaches the states of the release build that finds no capabilities, and no others, as
    long as no helper is called; with helpers it still keeps the books; a shutdown made to fail reaches the next
    request's script, and an injected read comes back as it was written.
  \<^item> Module: in each build, whatever the module registers has unique names, resolved references and well-formed
    signatures.
  \<^item> Calls: the bodies parse what their signatures declare; arguments that do not fit raise one exception and have no
    other effect; leaving arguments out is passing the declared defaults; every call returns a value of the
    declared type or throws (\<open>Calls_Properties\<close>, \<open>Calls_Results\<close>, \<open>Calls_Defaults\<close>).
  \<^item> Samplers: no use after free, no leak and exactly one diagnostic per failure on all three systems;
    a sample is the exact difference to its origin; a later sample of a Linux sampler is never behind an
    earlier one; an interrupted read completes; counters that
    were multiplexed are extrapolated exactly; thread profiles of Windows are never used after they
    were disabled; 32-bit counts of Windows are unrolled exactly.
  \<^item> Arithmetic: the scaling routines and the conversion of Mach time are exact or fail, and fail
    only when the result does not fit.
  \<^item> Results: every object the extension makes is fully initialised with values of the declared types;
    listings of events end when the library's chain does.

  \<^bold>\<open>Bounds.\<close> Two loops of the code can run forever: the retry of an interrupted read in the Linux
  sampler and the walk along libpfm's chain of events. Both are partial functions into \<open>option\<close>, and
  theorems show that they return when interruptions end and when the chain ends, whatever the number of
  steps. Reference counts are 32 bits wide in the code; the step relation of samplers has a step only
  while there is room to share an identity once more (\<open>room_to_share\<close>), which memory runs out of first.
  The kernel's group read is assumed to have the documented layout (\<open>group_read_contract\<close>) only where a
  theorem names it.

  A debug helper that writes a temporary file is only taken to read back what it wrote (\<open>tmpfile_contract\<close>) where
  a theorem names it, and a group of the kernel to count as documented (\<open>perf_group_contract\<close>).

  \<^bold>\<open>Not modelled.\<close> The rules by which the engine converts a scalar argument of another type, which differ between
  its versions and modes: they are an argument of the model (\<open>weak_mode\<close>), and the text of the engine's own errors is
  left out. The methods of samplers and of thread profiles are modelled from their parsed arguments on, except
  for \<open>Sampler::open\<close>. The bookkeeping of object headers when objects are created; allocation failure, which ends the
  process; threads that run the extension at the same time, each of which has globals of its own.
\<close>

end
